theory Spec2Isabelle
  imports Complex_Main "HOL-Library.Sublist"
begin

section \<open>Numbers\<close>

text \<open>
  JavaScript numbers are IEEE 754 doubles.  Confidences are only stored, compared and
  clamped, which never rounds, so a confidence is the real number its literal denotes.
  The emotion profile and the sentiment score are computed with division, multiplication
  and addition, each of which rounds its exact result to the nearest double, ties to the
  even significand.  \<open>fl\<close> is that rounding for the normal range of doubles (the numbers
  computed here are far from the subnormal and the overflow range): \<open>binade\<close> finds the
  exponent \<open>e\<close> with \<open>2 powi e \<le> |x| < 2 powi (e + 1)\<close> (its first argument bounds the search,
  as the exponent range of a double is bounded) and the result is the multiple of
  \<open>2 powi (e - 52)\<close> nearest to \<open>x\<close>.
\<close>

definition round_even :: "real \<Rightarrow> int" where
  "round_even y =
     (let f = \<lfloor>y\<rfloor>; d = y - of_int f
      in if d < 1/2 then f else if 1/2 < d then f + 1 else if even f then f else f + 1)"

fun binade :: "nat \<Rightarrow> real \<Rightarrow> int" where
  "binade 0 x = 0"
| "binade (Suc n) x =
     (if 2 \<le> x then binade n (x / 2) + 1 else if x < 1 then binade n (x * 2) - 1 else 0)"

definition fl :: "real \<Rightarrow> real" where
  "fl x =
     (if x = 0 then 0
      else let u = 2 powi (binade 1100 \<bar>x\<bar> - 52)
           in sgn x * of_int (round_even (\<bar>x\<bar> / u)) * u)"

text \<open>\<open>Math.round\<close>: the nearest integer, a tie going up.\<close>

definition js_round :: "real \<Rightarrow> int" where
  "js_round x = \<lfloor>x + 1/2\<rfloor>"

text \<open>
  A number computed from something that is not a number is \<open>NaN\<close>; a profile value is a
  double or \<open>NaN\<close>.
\<close>

datatype jsnumber = Number real | NaN

section \<open>The active-call registry\<close>

text \<open>
  The registry module keeps two module-level maps: \<open>activeCalls\<close> from a call id to an
  \<open>ActiveCall\<close> object and \<open>callSidToCallId\<close> from the provider session id to the call id.
  The objects are mutable and shared: the route handlers keep a reference obtained from
  \<open>getActiveCall\<close> while the registry functions mutate the same object.  The model therefore
  has an explicit store of objects (\<open>heap\<close>, with the next free address) and the map holds
  addresses.  A JavaScript reference always points to an object, so the store is total; the
  cells at and above \<open>nextRef\<close> are not allocated yet and are never read.  \<open>Date.now()\<close> is
  an input of every operation that reads the clock.  Numbers that count (\<open>turnIndex\<close>,
  timestamps) are natural numbers: a double counts exactly far beyond the number of
  elements an array can hold.
\<close>

datatype role = System | User | Assistant

record ConversationTurn =
  role :: role
  content :: string

datatype speaker = Caller | Agent

record StoredSegment =
  seg_speaker :: speaker
  seg_text :: string
  seg_emotion :: string
  seg_confidence :: real
  seg_timestamp :: nat
  seg_turnIndex :: nat

record ActiveCall =
  callId :: string
  clientId :: string
  twilioCallSid :: string
  conversationHistory :: "ConversationTurn list"
  transcriptSegments :: "StoredSegment list"
  turnIndex :: nat
  startedAt :: nat

type_synonym ref = nat

record call_state =
  heap :: "ref \<Rightarrow> ActiveCall"
  nextRef :: ref
  activeCalls :: "string \<rightharpoonup> ref"
  callSidToCallId :: "string \<rightharpoonup> string"

definition unallocated :: ActiveCall where
  "unallocated =
     \<lparr>callId = [], clientId = [], twilioCallSid = [], conversationHistory = [],
      transcriptSegments = [], turnIndex = 0, startedAt = 0\<rparr>"

definition initial_calls :: call_state where
  "initial_calls =
     \<lparr>heap = (\<lambda>r. unallocated), nextRef = 0, activeCalls = Map.empty,
      callSidToCallId = Map.empty\<rparr>"

text \<open>\<open>createActiveCall\<close> builds a fresh object, stores it under \<open>callId\<close> with
  \<open>Map.set\<close> (there is no test for an existing entry) and returns the object.\<close>

definition createActiveCall ::
  "call_state \<Rightarrow> string \<Rightarrow> string \<Rightarrow> string \<Rightarrow> nat \<Rightarrow> ref \<times> call_state" where
  "createActiveCall s cid clid sid now =
     (let r = nextRef s;
          call = \<lparr>callId = cid, clientId = clid, twilioCallSid = sid,
                  conversationHistory = [], transcriptSegments = [],
                  turnIndex = 0, startedAt = now\<rparr>
      in (r, s\<lparr>heap := (heap s)(r := call), nextRef := Suc r,
               activeCalls := (activeCalls s)(cid \<mapsto> r),
               callSidToCallId := (callSidToCallId s)(sid \<mapsto> cid)\<rparr>))"

text \<open>\<open>getActiveCall\<close> returns the reference held by the map, or nothing.\<close>

definition getActiveCall :: "call_state \<Rightarrow> string \<Rightarrow> ref option" where
  "getActiveCall s cid = activeCalls s cid"

text \<open>\<open>activeCalls.get(callId)\<close> followed by a read of the object.\<close>

definition lookupCall :: "call_state \<Rightarrow> string \<Rightarrow> (ref \<times> ActiveCall) option" where
  "lookupCall s cid =
     (case activeCalls s cid of None \<Rightarrow> None | Some r \<Rightarrow> Some (r, heap s r))"

definition addConversationTurn :: "call_state \<Rightarrow> string \<Rightarrow> role \<Rightarrow> string \<Rightarrow> call_state" where
  "addConversationTurn s cid rl txt =
     (case lookupCall s cid of
        None \<Rightarrow> s
      | Some (r, call) \<Rightarrow>
          s\<lparr>heap := (heap s)(r :=
               call\<lparr>conversationHistory :=
                      conversationHistory call @ [\<lparr>role = rl, content = txt\<rparr>]\<rparr>)\<rparr>)"

definition addTranscriptSegment ::
  "call_state \<Rightarrow> string \<Rightarrow> speaker \<Rightarrow> string \<Rightarrow> string \<Rightarrow> real \<Rightarrow> nat \<Rightarrow> call_state" where
  "addTranscriptSegment s cid sp txt emo conf now =
     (case lookupCall s cid of
        None \<Rightarrow> s
      | Some (r, call) \<Rightarrow>
          s\<lparr>heap := (heap s)(r :=
               call\<lparr>transcriptSegments :=
                      transcriptSegments call @
                        [\<lparr>seg_speaker = sp, seg_text = txt, seg_emotion = emo,
                          seg_confidence = conf, seg_timestamp = now,
                          seg_turnIndex = turnIndex call\<rparr>],
                    turnIndex := Suc (turnIndex call)\<rparr>)\<rparr>)"

definition removeActiveCall :: "call_state \<Rightarrow> string \<Rightarrow> call_state" where
  "removeActiveCall s cid =
     (case lookupCall s cid of
        None \<Rightarrow> s
      | Some (r, call) \<Rightarrow>
          s\<lparr>callSidToCallId := (callSidToCallId s)(twilioCallSid call := None),
            activeCalls := (activeCalls s)(cid := None)\<rparr>)"

text \<open>\<open>getFullTranscript\<close>: one line per segment, joined by a newline.\<close>

fun join_lines :: "string list \<Rightarrow> string" where
  "join_lines [] = []"
| "join_lines [l] = l"
| "join_lines (l # m # ls) = l @ [CHR 0x0A] @ join_lines (m # ls)"

definition render_segment :: "StoredSegment \<Rightarrow> string" where
  "render_segment sg =
     (if seg_speaker sg = Caller then ''Caller'' else ''Agent'') @ '': '' @ seg_text sg"

definition getFullTranscript :: "call_state \<Rightarrow> string \<Rightarrow> string" where
  "getFullTranscript s cid =
     (case lookupCall s cid of
        None \<Rightarrow> []
      | Some (r, call) \<Rightarrow> join_lines (map render_segment (transcriptSegments call)))"

text \<open>The registry states that the four mutating operations can produce.\<close>

inductive reachable :: "call_state \<Rightarrow> bool" where
  reach_init: "reachable initial_calls"
| reach_create: "reachable s \<Longrightarrow> reachable (snd (createActiveCall s cid clid sid now))"
| reach_turn: "reachable s \<Longrightarrow> reachable (addConversationTurn s cid rl txt)"
| reach_segment: "reachable s \<Longrightarrow> reachable (addTranscriptSegment s cid sp txt emo conf now)"
| reach_remove: "reachable s \<Longrightarrow> reachable (removeActiveCall s cid)"

definition call_ok :: "ActiveCall \<Rightarrow> bool" where
  "call_ok call \<longleftrightarrow> map seg_turnIndex (transcriptSegments call) = [0..<turnIndex call]"

definition registry_inv :: "call_state \<Rightarrow> bool" where
  "registry_inv s \<longleftrightarrow>
     (\<forall>c r. activeCalls s c = Some r \<longrightarrow>
        r < nextRef s \<and> callId (heap s r) = c \<and> call_ok (heap s r))"

text \<open>Concrete registry states used by the closed theorems below.\<close>

definition calls_one :: call_state where
  "calls_one = snd (createActiveCall initial_calls ''c1'' ''u1'' ''web-1'' 100)"

definition calls_greeted :: call_state where
  "calls_greeted = addTranscriptSegment calls_one ''c1'' Agent ''Hello'' ''neutral'' 0.8 101"

definition calls_recreated :: call_state where
  "calls_recreated = snd (createActiveCall calls_greeted ''c1'' ''u2'' ''web-2'' 200)"

section \<open>The broadcast hub\<close>

text \<open>
  The websocket module keeps one module-level \<open>Map\<close> from a key to a \<open>Set\<close> of sockets.
  A socket is identified by the number of the connection that created it.  The map is an
  association list in insertion order and a set is a list without repetitions, as the
  iteration order of \<open>Map\<close> and \<open>Set\<close> is insertion order.  The hub records which sockets
  have \<open>readyState === OPEN\<close>, every \<open>ws.send\<close> in order, every \<open>ws.close\<close>, and
  (\<open>published\<close>) every message handed to one of the two broadcast functions, whether or
  not a socket was there to receive it.
\<close>

record SentenceEmotion =
  se_text :: string
  se_emotion :: string
  se_confidence :: real

record TranscriptSegment =
  ts_callId :: string
  ts_clientId :: string
  ts_speaker :: speaker
  ts_text :: string
  ts_emotion :: string
  ts_confidence :: real
  ts_timestamp :: nat
  ts_turnIndex :: nat
  ts_sentenceEmotions :: "SentenceEmotion list option"

datatype event_data =
    CallStarted string string string
  | CallEnded string string "(string \<times> jsnumber) list"

datatype message =
    MsgConnected "string option" "string option"
  | MsgTranscript TranscriptSegment
  | MsgEvent string string string event_data

type_synonym ws = nat

record hub_state =
  callSubscribers :: "(string \<times> ws list) list"
  openSockets :: "ws set"
  sent :: "(ws \<times> message) list"
  closedWith :: "(ws \<times> nat \<times> string) list"
  published :: "message list"
  nextWs :: ws

definition initial_hub :: hub_state where
  "initial_hub =
     \<lparr>callSubscribers = [], openSockets = {}, sent = [], closedWith = [], published = [],
      nextWs = 0\<rparr>"

text \<open>A query parameter is absent (\<open>null\<close>) or a string; the empty string is falsy.\<close>

definition truthy :: "string option \<Rightarrow> bool" where
  "truthy p = (case p of None \<Rightarrow> False | Some s \<Rightarrow> s \<noteq> [])"

text \<open>The template literal \<open>`client:${clientId}`\<close>; \<open>null\<close> prints as \<open>null\<close>.\<close>

definition client_key :: "string option \<Rightarrow> string" where
  "client_key p = ''client:'' @ (case p of None \<Rightarrow> ''null'' | Some s \<Rightarrow> s)"

text \<open>\<open>if (!callSubscribers.has(key)) callSubscribers.set(key, new Set())\<close>\<close>

definition ensure_key :: "string \<Rightarrow> (string \<times> ws list) list \<Rightarrow> (string \<times> ws list) list" where
  "ensure_key key subs = (if map_of subs key = None then subs @ [(key, [])] else subs)"

definition set_add :: "ws \<Rightarrow> ws list \<Rightarrow> ws list" where
  "set_add w l = (if w \<in> set l then l else l @ [w])"

text \<open>\<open>callSubscribers.get(key)!.add(ws)\<close>\<close>

definition add_subscriber :: "string \<Rightarrow> ws \<Rightarrow> (string \<times> ws list) list \<Rightarrow> (string \<times> ws list) list" where
  "add_subscriber key w subs = map (\<lambda>(k, l). if k = key then (k, set_add w l) else (k, l)) subs"

definition subs_of :: "hub_state \<Rightarrow> string \<Rightarrow> ws list" where
  "subs_of h key = (case map_of (callSubscribers h) key of None \<Rightarrow> [] | Some l \<Rightarrow> l)"

text \<open>
  The \<open>connection\<close> handler of \<open>setupWebSocket\<close>, for a new socket with the query parameters
  \<open>callId\<close> and \<open>clientId\<close>.  The key is \<open>callId || `client:${clientId}`\<close>; the second
  registration runs only under \<open>clientId && !callId\<close>.
\<close>

definition on_connection :: "hub_state \<Rightarrow> string option \<Rightarrow> string option \<Rightarrow> ws \<times> hub_state" where
  "on_connection h callIdP clientIdP =
     (let w = nextWs h;
          h0 = h\<lparr>nextWs := Suc w, openSockets := insert w (openSockets h)\<rparr>
      in if \<not> truthy callIdP \<and> \<not> truthy clientIdP then
           (w, h0\<lparr>openSockets := openSockets h0 - {w},
                  closedWith := closedWith h0 @ [(w, 1008, ''callId or clientId required'')]\<rparr>)
         else
           let key = (case callIdP of
                        None \<Rightarrow> client_key clientIdP
                      | Some c \<Rightarrow> if c \<noteq> [] then c else client_key clientIdP);
               subs1 = add_subscriber key w (ensure_key key (callSubscribers h0));
               subs2 = (if truthy clientIdP \<and> \<not> truthy callIdP
                        then add_subscriber (client_key clientIdP) w
                               (ensure_key (client_key clientIdP) subs1)
                        else subs1)
           in (w, h0\<lparr>callSubscribers := subs2,
                     sent := sent h0 @ [(w, MsgConnected callIdP clientIdP)]\<rparr>))"

text \<open>The socket's \<open>close\<close> handler: the socket leaves every set, empty sets are deleted.\<close>

definition on_close :: "hub_state \<Rightarrow> ws \<Rightarrow> hub_state" where
  "on_close h w =
     h\<lparr>callSubscribers :=
         filter (\<lambda>(k, l). l \<noteq> []) (map (\<lambda>(k, l). (k, removeAll w l)) (callSubscribers h)),
       openSockets := openSockets h - {w}\<rparr>"

text \<open>A socket whose \<open>readyState\<close> is no longer \<open>OPEN\<close> while its \<open>close\<close> event is pending.\<close>

definition socket_closing :: "hub_state \<Rightarrow> ws \<Rightarrow> hub_state" where
  "socket_closing h w = h\<lparr>openSockets := openSockets h - {w}\<rparr>"

text \<open>\<open>for (const ws of subs) if (ws.readyState === WebSocket.OPEN) ws.send(message)\<close>\<close>

definition send_all :: "hub_state \<Rightarrow> message \<Rightarrow> ws list \<Rightarrow> hub_state" where
  "send_all h msg l =
     h\<lparr>sent := sent h @ map (\<lambda>w. (w, msg)) (filter (\<lambda>w. w \<in> openSockets h) l)\<rparr>"

definition broadcastTranscriptSegment :: "hub_state \<Rightarrow> TranscriptSegment \<Rightarrow> hub_state" where
  "broadcastTranscriptSegment h seg =
     (let message = MsgTranscript seg;
          h0 = h\<lparr>published := published h @ [message]\<rparr>;
          h1 = send_all h0 message (subs_of h0 (ts_callId seg))
      in send_all h1 message (subs_of h1 (''client:'' @ ts_clientId seg)))"

definition broadcastCallEvent :: "hub_state \<Rightarrow> string \<Rightarrow> string \<Rightarrow> string \<Rightarrow> event_data \<Rightarrow> hub_state" where
  "broadcastCallEvent h cid clid event d =
     (let message = MsgEvent event cid clid d;
          h0 = h\<lparr>published := published h @ [message]\<rparr>
      in fold (\<lambda>key h'. send_all h' message (subs_of h' key)) [cid, ''client:'' @ clid] h0)"

text \<open>The messages a socket has been sent, in order.\<close>

definition received :: "hub_state \<Rightarrow> ws \<Rightarrow> message list" where
  "received h w = map snd (filter (\<lambda>p. fst p = w) (sent h))"

inductive hub_reachable :: "hub_state \<Rightarrow> bool" where
  hub_init: "hub_reachable initial_hub"
| hub_connect: "hub_reachable h \<Longrightarrow> hub_reachable (snd (on_connection h callIdP clientIdP))"
| hub_close: "hub_reachable h \<Longrightarrow> hub_reachable (on_close h w)"
| hub_closing: "hub_reachable h \<Longrightarrow> hub_reachable (socket_closing h w)"
| hub_transcript: "hub_reachable h \<Longrightarrow> hub_reachable (broadcastTranscriptSegment h seg)"
| hub_event: "hub_reachable h \<Longrightarrow> hub_reachable (broadcastCallEvent h cid clid event d)"

definition hub_inv :: "hub_state \<Rightarrow> bool" where
  "hub_inv h \<longleftrightarrow>
     distinct (map fst (callSubscribers h)) \<and>
     (\<forall>p \<in> set (callSubscribers h). distinct (snd p) \<and> (\<forall>w \<in> set (snd p). w < nextWs h))"

text \<open>The part of the invariant that speaks about the subscriber map alone.\<close>

definition subs_ok :: "nat \<Rightarrow> (string \<times> ws list) list \<Rightarrow> bool" where
  "subs_ok n subs \<longleftrightarrow>
     distinct (map fst subs) \<and>
     (\<forall>p \<in> set subs. distinct (snd p) \<and> (\<forall>w \<in> set (snd p). w < n))"

text \<open>Concrete hub states used by the closed theorems below.\<close>

definition hub_both :: hub_state where
  "hub_both = snd (on_connection initial_hub (Some ''c1'') (Some ''u1''))"

definition seg_c1 :: TranscriptSegment where
  "seg_c1 = \<lparr>ts_callId = ''c1'', ts_clientId = ''u1'', ts_speaker = Caller, ts_text = ''Hi'',
             ts_emotion = ''neutral'', ts_confidence = 0.5, ts_timestamp = 5,
             ts_turnIndex = 1, ts_sentenceEmotions = None\<rparr>"

definition seg_c2 :: TranscriptSegment where
  "seg_c2 = seg_c1\<lparr>ts_callId := ''c2''\<rparr>"

section \<open>Strings\<close>

text \<open>
  A string is a list of characters, one per UTF-16 code unit; the characters of
  \<^typ>\<open>char\<close> are the code units below 256.  \<open>String.prototype.trim\<close> removes white space
  and line terminators from both ends; below 256 these are the code units 9 to 13, 32
  and 160.
\<close>

definition is_space :: "char \<Rightarrow> bool" where
  "is_space c \<longleftrightarrow> c \<in> set [CHR 0x09, CHR 0x0A, CHR 0x0B, CHR 0x0C, CHR 0x0D, CHR 0x20, CHR 0xA0]"

definition js_trim :: "string \<Rightarrow> string" where
  "js_trim s = rev (dropWhile is_space (rev (dropWhile is_space s)))"

text \<open>\<open>s.includes(pat)\<close>: \<open>pat\<close> occurs at some position of \<open>s\<close>.\<close>

fun js_includes :: "string \<Rightarrow> string \<Rightarrow> bool" where
  "js_includes pat [] = (pat = [])"
| "js_includes pat (c # cs) = (prefix pat (c # cs) \<or> js_includes pat cs)"

text \<open>\<open>s.replace(pat, rep)\<close> with a string pattern: only the first occurrence of \<open>pat\<close> is
  replaced (\<open>rep\<close> has no \<open>$\<close> patterns here).\<close>

fun js_replace :: "string \<Rightarrow> string \<Rightarrow> string \<Rightarrow> string" where
  "js_replace pat rep [] = (if pat = [] then rep else [])"
| "js_replace pat rep (c # cs) =
     (if prefix pat (c # cs) then rep @ drop (length pat) (c # cs)
      else c # js_replace pat rep cs)"

text \<open>\<open>s.split(/[.!?]+/)\<close>: the pieces between maximal runs of sentence terminators; a run
  at either end of the string leaves an empty piece there.\<close>

definition is_terminator :: "char \<Rightarrow> bool" where
  "is_terminator c \<longleftrightarrow> c = CHR ''.'' \<or> c = CHR ''!'' \<or> c = CHR ''?''"

function js_split_acc :: "string \<Rightarrow> string \<Rightarrow> string list" where
  "js_split_acc acc [] = [rev acc]"
| "js_split_acc acc (c # cs) =
     (if is_terminator c then rev acc # js_split_acc [] (dropWhile is_terminator cs)
      else js_split_acc (c # acc) cs)"
  by pat_completeness auto
termination
  by (relation "measure (\<lambda>(acc, s). length s)") (auto simp: length_dropWhile_le less_Suc_eq_le)

definition js_split :: "string \<Rightarrow> string list" where
  "js_split s = js_split_acc [] s"

text \<open>\<open>xs[i]\<close> is \<open>undefined\<close> outside the array.\<close>

definition nth_opt :: "'a list \<Rightarrow> nat \<Rightarrow> 'a option" where
  "nth_opt xs i = (if i < length xs then Some (xs ! i) else None)"

section \<open>The conversation engine\<close>

text \<open>
  \<open>generateNextResponse\<close> sends the system prompt, the history and the latest caller text
  to the chat model.  The model is outside the program: \<open>chat\<close> gives, for the messages
  sent, either a thrown error or the text of \<open>completion.choices[0]?.message?.content\<close>
  (absent when the optional chain yields \<open>undefined\<close> or \<open>null\<close>).  The system prompt is a
  fixed string of the module and a field of the environment here.
\<close>

datatype chat_reply = ChatError | ChatContent "string option"

record chat_env =
  SYSTEM_PROMPT :: string
  chat :: "ConversationTurn list \<Rightarrow> chat_reply"

definition CALL_COMPLETE :: string where
  "CALL_COMPLETE = ''[CALL_COMPLETE]''"

definition generateNextResponse ::
  "chat_env \<Rightarrow> ConversationTurn list \<Rightarrow> string \<Rightarrow> string \<times> bool" where
  "generateNextResponse env history latestCallerText =
     (let messages = [\<lparr>role = System, content = SYSTEM_PROMPT env\<rparr>] @ history @
                     [\<lparr>role = User, content = latestCallerText\<rparr>]
      in case chat env messages of
           ChatError \<Rightarrow>
             (''Thank you for sharing that. Could you tell me a bit more about your situation?'',
              False)
         | ChatContent c \<Rightarrow>
             (let responseText =
                    (case c of
                       None \<Rightarrow> ''I appreciate you sharing that. Could you tell me a bit more?''
                     | Some t \<Rightarrow>
                         if t = []
                         then ''I appreciate you sharing that. Could you tell me a bit more?''
                         else t);
                  isComplete = js_includes CALL_COMPLETE responseText;
                  cleanedResponse = js_trim (js_replace CALL_COMPLETE [] responseText)
              in (cleanedResponse, isComplete)))"

text \<open>A chat model that answers every request with the same text.\<close>

definition chat_says :: "string \<Rightarrow> chat_env" where
  "chat_says t = \<lparr>SYSTEM_PROMPT = ''You are a compassionate housing intake specialist'',
                  chat = (\<lambda>messages. ChatContent (Some t))\<rparr>"

section \<open>The emotion classifier\<close>

record EmotionAnalysis =
  ea_timestamp :: nat
  ea_emotion :: string
  ea_confidence :: real
  ea_text :: string

text \<open>An \<open>EmotionProfile\<close> is an object used as a dictionary from label to number: the
  list of its own entries in the order in which \<open>Object.keys\<close> and \<open>Object.entries\<close> list
  them.\<close>

type_synonym EmotionProfile = "(string \<times> jsnumber) list"

record EmotionResult =
  emotions :: "EmotionAnalysis list"
  profile :: EmotionProfile
  sentimentScore :: real

text \<open>
  What the two external services answer for one call of \<open>analyzeEmotions\<close>.  The
  affect-analysis provider is asked only when \<open>MODULATE_API_KEY\<close> is set; its answer is a
  failure (the request throws, the status is not 2xx, the body is not JSON, or it is JSON
  \<open>null\<close>) or the parsed body, whose three fields may be absent (as they all are when the
  body is a JSON value that is not an object).  The chat model's answer to the
  classification prompt is a failure (the request throws, the content is not JSON, or it
  is JSON \<open>null\<close>) or the array of results found in the parsed content (the empty array
  when there is none); an element may be absent or \<open>null\<close>, and its \<open>emotion\<close> and
  \<open>confidence\<close> may be absent.  The fields are taken to have the types the code expects:
  labels are strings, confidences are numbers.
\<close>

record provider_data =
  pd_emotions :: "EmotionAnalysis list option"
  pd_profile :: "EmotionProfile option"
  pd_sentiment_score :: "real option"

datatype provider_reply = ModulateFailed | ModulateOk provider_data

record llm_item =
  li_emotion :: "string option"
  li_confidence :: "real option"

datatype llm_emotion_reply = LlmFailed | LlmResults "llm_item option list"

record emotion_replies =
  modulateApiKey :: "string option"
  modulateReply :: provider_reply
  llmReply :: llm_emotion_reply

subsection \<open>The profile object\<close>

text \<open>
  Both classifiers start from \<open>const profile: EmotionProfile = {}\<close>, an ordinary object
  whose prototype is \<open>Object.prototype\<close>, and count with
  \<open>profile[emotion] = (profile[emotion] || 0) + 1\<close>.  Reading \<open>profile[k]\<close> for a key that is not
  an own property finds the member of \<open>Object.prototype\<close> of that name, if there is one:
  a function for the eleven method names, and for \<open>__proto__\<close> an accessor whose getter
  returns \<open>Object.prototype\<close> and whose setter ignores a value that is not an object.  Both
  are truthy, and adding 1 to either gives a string.  So for \<open>__proto__\<close> the assignment
  stores nothing, and for a method name it creates an own property holding a string made
  of the source text of the function followed by \<open>1\<close>; every later count of that label
  appends another \<open>1\<close> to the string.  \<open>FunctionText\<close> stands for such a string: it is truthy
  and it is not the text of a number.
\<close>

definition prototype_methods :: "string list" where
  "prototype_methods =
     [''constructor'', ''hasOwnProperty'', ''isPrototypeOf'', ''propertyIsEnumerable'',
      ''toLocaleString'', ''toString'', ''valueOf'', ''__defineGetter__'',
      ''__defineSetter__'', ''__lookupGetter__'', ''__lookupSetter__'']"

datatype counter = Count nat | FunctionText

text \<open>
  The own keys of an object are listed with the array indices first, in ascending
  numeric order, and then the other keys in the order of their creation.  An array index
  is the canonical decimal text of a number below \<open>2 ^ 32 - 1\<close>.
\<close>

definition is_digit :: "char \<Rightarrow> bool" where
  "is_digit c \<longleftrightarrow> 48 \<le> (of_char c :: nat) \<and> (of_char c :: nat) \<le> 57"

definition digits_value :: "string \<Rightarrow> nat" where
  "digits_value k = foldl (\<lambda>n c. 10 * n + ((of_char c :: nat) - 48)) 0 k"

definition array_index :: "string \<Rightarrow> nat option" where
  "array_index k =
     (if k \<noteq> [] \<and> list_all is_digit k \<and> (k = ''0'' \<or> hd k \<noteq> CHR ''0'') \<and>
         digits_value k < 4294967295
      then Some (digits_value k) else None)"

definition listed_before :: "string \<Rightarrow> string \<Rightarrow> bool" where
  "listed_before k k' =
     (case array_index k of
        None \<Rightarrow> False
      | Some n \<Rightarrow> (case array_index k' of None \<Rightarrow> True | Some n' \<Rightarrow> n < n'))"

text \<open>The creation of an own property \<open>k\<close>, which the object does not have yet.\<close>

fun insert_key :: "string \<Rightarrow> 'a \<Rightarrow> (string \<times> 'a) list \<Rightarrow> (string \<times> 'a) list" where
  "insert_key k v [] = [(k, v)]"
| "insert_key k v ((k', v') # ps) =
     (if listed_before k k' then (k, v) # (k', v') # ps else (k', v') # insert_key k v ps)"

text \<open>\<open>value + 1\<close> for the value of an own property, and the assignment to that property.\<close>

fun plus_one :: "counter \<Rightarrow> counter" where
  "plus_one (Count c) = Count (c + 1)"
| "plus_one FunctionText = FunctionText"

fun increment :: "string \<Rightarrow> (string \<times> counter) list \<Rightarrow> (string \<times> counter) list" where
  "increment k [] = []"
| "increment k ((k', v) # ps) =
     (if k' = k then (k', plus_one v) # ps else (k', v) # increment k ps)"

text \<open>\<open>profile[emotion] = (profile[emotion] || 0) + 1\<close>.  A stored count is at least 1 and a
  stored string is not empty, so the value of an own property is truthy.\<close>

definition bump :: "string \<Rightarrow> (string \<times> counter) list \<Rightarrow> (string \<times> counter) list" where
  "bump emotion profile0 =
     (if emotion \<in> set (map fst profile0) then increment emotion profile0
      else if emotion = ''__proto__'' then profile0
      else if emotion \<in> set prototype_methods then insert_key emotion FunctionText profile0
      else insert_key emotion (Count 1) profile0)"

text \<open>
  The total \<open>Object.values(profile).reduce((a, b) => a + b, 0) || 1\<close> and the loop that
  replaces every value by \<open>Math.round((profile[key] / totalEmotions) * 100) / 100\<close>.  When
  a value is a string, \<open>+\<close> concatenates from there on and the total is a string that is
  not the text of a number; dividing by it gives \<open>NaN\<close> for every key.
\<close>

definition profile_value :: "nat \<Rightarrow> nat \<Rightarrow> real" where
  "profile_value c totalEmotions =
     fl (of_int (js_round (fl (fl (real c / real totalEmotions) * 100))) / 100)"

fun count_of :: "counter \<Rightarrow> nat" where
  "count_of (Count c) = c"
| "count_of FunctionText = 0"

definition normalise_profile :: "(string \<times> counter) list \<Rightarrow> EmotionProfile" where
  "normalise_profile counts =
     (if list_ex (\<lambda>(k, v). v = FunctionText) counts then map (\<lambda>(k, v). (k, NaN)) counts
      else
        (let s = sum_list (map (\<lambda>(k, v). count_of v) counts);
             totalEmotions = (if s = 0 then 1 else s)
         in map (\<lambda>(k, v). (k, Number (profile_value (count_of v) totalEmotions))) counts))"

text \<open>\<open>sentimentTotal += 0.3\<close> for hope and gratitude, \<open>sentimentTotal -= 0.2\<close> for the four
  negative labels.\<close>

definition sentiment_step :: "string \<Rightarrow> real \<Rightarrow> real" where
  "sentiment_step emotion sentimentTotal =
     (if emotion \<in> set [''hope'', ''gratitude''] then fl (sentimentTotal + fl (3/10))
      else if emotion \<in> set [''anxiety'', ''sadness'', ''frustration'', ''urgency'']
      then fl (sentimentTotal - fl (2/10))
      else sentimentTotal)"

definition sentiment_of :: "string list \<Rightarrow> nat \<Rightarrow> real" where
  "sentiment_of labels n = max (-1) (min 1 (fl (fold sentiment_step labels 0 / real n)))"

subsection \<open>The keyword patterns\<close>

text \<open>
  Each pattern is \<open>/\b(alt\<^sub>1|...|alt\<^sub>n)/i\<close>: a word boundary followed by one of the
  alternatives, ignoring ASCII case.  \<open>\b\<close> holds between two characters when exactly one of
  them is a word character (letter, digit or underscore); the start of the text counts as
  a non-word character.
\<close>

definition is_word_char :: "char \<Rightarrow> bool" where
  "is_word_char c =
     (let n = (of_char c :: nat)
      in (48 \<le> n \<and> n \<le> 57) \<or> (65 \<le> n \<and> n \<le> 90) \<or> n = 95 \<or> (97 \<le> n \<and> n \<le> 122))"

definition lower_code :: "char \<Rightarrow> nat" where
  "lower_code c = (let n = (of_char c :: nat) in if 65 \<le> n \<and> n \<le> 90 then n + 32 else n)"

fun match_ci :: "string \<Rightarrow> string \<Rightarrow> bool" where
  "match_ci [] s = True"
| "match_ci (p # ps) [] = False"
| "match_ci (p # ps) (c # cs) = (lower_code c = lower_code p \<and> match_ci ps cs)"

fun regex_test :: "string list \<Rightarrow> bool \<Rightarrow> string \<Rightarrow> bool" where
  "regex_test alts prev_word [] = False"
| "regex_test alts prev_word (c # cs) =
     ((prev_word \<noteq> is_word_char c \<and> list_ex (\<lambda>a. match_ci a (c # cs)) alts) \<or>
      regex_test alts (is_word_char c) cs)"

definition emotionPatterns :: "(string \<times> string list) list" where
  "emotionPatterns =
     [(''anxiety'', [''worried'', ''scared'', ''afraid'', ''nervous'', ''anxious'', ''fear'',
                     ''panic'', ''stress'', ''terrif'']),
      (''sadness'', [''sad'', ''depressed'', ''hopeless'', ''lost everything'', ''alone'',
                     ''lonely'', ''cry'', ''miss'', ''devastat'']),
      (''frustration'', [''frustrated'', ''angry'', ''mad'', ''unfair'', ''tired of'',
                         ''sick of'', ''annoyed'', ''can'' @ [CHR 0x27] @ ''t believe'']),
      (''hope'', [''hope'', ''better'', ''improving'', ''looking forward'', ''wish'', ''dream'',
                  ''opportunity'', ''optimist'', ''good'', ''great'', ''fine'', ''okay'',
                  ''alright'']),
      (''urgency'', [''tonight'', ''emergency'', ''desperate'', ''asap'', ''right now'',
                     ''immediately'', ''kicked out'', ''evicted'', ''no where'', ''nowhere'']),
      (''gratitude'', [''thank'', ''grateful'', ''appreciate'', ''kind'', ''blessing'',
                       ''relief''])]"

text \<open>The first pattern, in the order of the object's keys, that matches the segment.\<close>

definition detect :: "string \<Rightarrow> string" where
  "detect segment =
     (case filter (\<lambda>(emotion, alts). regex_test alts False segment) emotionPatterns of
        [] \<Rightarrow> ''neutral''
      | (emotion, alts) # rest \<Rightarrow> emotion)"

definition simpleKeywordFallback :: "string \<Rightarrow> string list \<Rightarrow> EmotionResult" where
  "simpleKeywordFallback transcript segments =
     \<lparr>emotions =
        map (\<lambda>(i, segment).
               \<lparr>ea_timestamp = i, ea_emotion = detect segment,
                ea_confidence = (if detect segment = ''neutral'' then 0.5 else 0.6),
                ea_text = js_trim segment\<rparr>)
            (enumerate 0 segments),
      profile = normalise_profile (fold bump (map detect segments) []),
      sentimentScore = sentiment_of (map detect segments) (length segments)\<rparr>"

subsection \<open>Classification by the chat model\<close>

text \<open>\<open>results[i] || { emotion: "neutral", confidence: 0.5 }\<close>, then
  \<open>result.emotion || "neutral"\<close> and
  \<open>Math.min(Math.max(result.confidence || 0.6, 0.3), 0.95)\<close>.\<close>

definition result_at :: "llm_item option list \<Rightarrow> nat \<Rightarrow> llm_item" where
  "result_at results i =
     (case nth_opt results i of
        Some (Some item) \<Rightarrow> item
      | _ \<Rightarrow> \<lparr>li_emotion = Some ''neutral'', li_confidence = Some 0.5\<rparr>)"

definition item_emotion :: "llm_item \<Rightarrow> string" where
  "item_emotion result =
     (case li_emotion result of None \<Rightarrow> ''neutral'' | Some e \<Rightarrow> if e = [] then ''neutral'' else e)"

definition item_confidence :: "llm_item \<Rightarrow> real" where
  "item_confidence result =
     min (max (case li_confidence result of None \<Rightarrow> 0.6 | Some x \<Rightarrow> if x = 0 then 0.6 else x)
              0.3)
         0.95"

definition llmEmotionAnalysis :: "llm_emotion_reply \<Rightarrow> string \<Rightarrow> EmotionResult" where
  "llmEmotionAnalysis reply transcript =
     (let segments = filter (\<lambda>s. js_trim s \<noteq> []) (js_split transcript)
      in if segments = [] then
           \<lparr>emotions = [\<lparr>ea_timestamp = 0, ea_emotion = ''neutral'', ea_confidence = 0.5,
                          ea_text = transcript\<rparr>],
            profile = [(''neutral'', Number 1)], sentimentScore = 0\<rparr>
         else
           case reply of
             LlmFailed \<Rightarrow> simpleKeywordFallback transcript segments
           | LlmResults results \<Rightarrow>
               (let labels = map (\<lambda>i. item_emotion (result_at results i)) [0..<length segments]
                in \<lparr>emotions =
                      map (\<lambda>(i, segment).
                             \<lparr>ea_timestamp = i,
                              ea_emotion = item_emotion (result_at results i),
                              ea_confidence = item_confidence (result_at results i),
                              ea_text = js_trim segment\<rparr>)
                          (enumerate 0 segments),
                    profile = normalise_profile (fold bump labels []),
                    sentimentScore = sentiment_of labels (length segments)\<rparr>))"

subsection \<open>The entry point\<close>

definition analyzeEmotions :: "emotion_replies \<Rightarrow> string \<Rightarrow> EmotionResult" where
  "analyzeEmotions replies transcript =
     (if truthy (modulateApiKey replies) then
        (case modulateReply replies of
           ModulateOk data \<Rightarrow>
             \<lparr>emotions = (case pd_emotions data of None \<Rightarrow> [] | Some es \<Rightarrow> es),
              profile = (case pd_profile data of None \<Rightarrow> [] | Some p \<Rightarrow> p),
              sentimentScore = (case pd_sentiment_score data of None \<Rightarrow> 0 | Some x \<Rightarrow> x)\<rparr>
         | ModulateFailed \<Rightarrow> llmEmotionAnalysis (llmReply replies) transcript)
      else llmEmotionAnalysis (llmReply replies) transcript)"

subsection \<open>Labels and their counts\<close>

text \<open>The seven labels the classification prompt names, which are the keys of
  \<open>emotionPatterns\<close> and \<open>neutral\<close>.\<close>

definition emotion_labels :: "string list" where
  "emotion_labels = map fst emotionPatterns @ [''neutral'']"

text \<open>The label names a member of \<open>Object.prototype\<close>.\<close>

definition inherited :: "string \<Rightarrow> bool" where
  "inherited k \<longleftrightarrow> k = ''__proto__'' \<or> k \<in> set prototype_methods"

text \<open>Service answers used by the closed theorems below.\<close>

definition no_services :: emotion_replies where
  "no_services = \<lparr>modulateApiKey = None, modulateReply = ModulateFailed, llmReply = LlmFailed\<rparr>"

definition chat_only :: "llm_emotion_reply \<Rightarrow> emotion_replies" where
  "chat_only reply = \<lparr>modulateApiKey = None, modulateReply = ModulateFailed, llmReply = reply\<rparr>"

definition provider_says :: "EmotionAnalysis list \<Rightarrow> emotion_replies" where
  "provider_says es =
     \<lparr>modulateApiKey = Some ''key'',
      modulateReply = ModulateOk \<lparr>pd_emotions = Some es, pd_profile = Some [(''anxiety'', Number 1)],
                                  pd_sentiment_score = Some (- 0.2)\<rparr>,
      llmReply = LlmFailed\<rparr>"


text \<open>The provider answers with percentages; the chat model answers with the given
  labels, one per sentence; \<open>n\<close> different labels and a text of \<open>n\<close> sentences.\<close>

definition provider_percent :: emotion_replies where
  "provider_percent =
     \<lparr>modulateApiKey = Some ''key'',
      modulateReply =
        ModulateOk
          \<lparr>pd_emotions = Some [\<lparr>ea_timestamp = 0, ea_emotion = ''anxiety'',
                                 ea_confidence = 0.8, ea_text = ''I am scared''\<rparr>],
           pd_profile = Some [(''anxiety'', Number 80), (''neutral'', Number 20)],
           pd_sentiment_score = Some (- 0.2)\<rparr>,
      llmReply = LlmFailed\<rparr>"

definition chat_labels :: "string list \<Rightarrow> llm_emotion_reply" where
  "chat_labels ls = LlmResults (map (\<lambda>l. Some \<lparr>li_emotion = Some l, li_confidence = Some 0.9\<rparr>) ls)"

definition many_labels :: "nat \<Rightarrow> string list" where
  "many_labels n = map (\<lambda>i. replicate (Suc i) CHR ''x'') [0..<n]"

definition many_sentences :: "nat \<Rightarrow> string" where
  "many_sentences n = concat (replicate n ''a.'')"
section \<open>The call orchestrator\<close>

text \<open>
  The route handlers work on the registry, on the hub and on the storage collaborator.
  Storage is outside the program: the model records which update requests are issued
  (of the client update only the notes, of the call update the transcript and the
  summary) and takes from the environment whether a request throws.

  A handler is an \<open>async\<close> function: it runs without interruption from one \<open>await\<close> to
  the next, and while it waits the server handles whatever other requests and
  connections arrive; nothing in the code locks a call or queues requests.  The
  environment of a handler therefore gives, for each of its \<open>await\<close> points, what the
  rest of the server does to the world meanwhile (the identity when nothing else
  happens).
\<close>

datatype storage_request =
    UpdateClient string "string option"
  | UpdateCall string string string

record world =
  calls :: call_state
  hub :: hub_state
  storageLog :: "storage_request list"

datatype error = StorageError | TypeError

text \<open>The \<open>await\<close> points of the voice-turn handler and of \<open>finalizeCall\<close>, in the order of
  the source.\<close>

datatype await =
    AwaitSentences
  | AwaitOverall
  | AwaitGeneration
  | AwaitTranscriptEmotions
  | AwaitEntities
  | AwaitSummary
  | AwaitUpdateClient
  | AwaitFallbackUpdate
  | AwaitUpdateCall
  | AwaitGraph

text \<open>\<open>xs.join(sep)\<close>\<close>

fun js_join :: "string \<Rightarrow> string list \<Rightarrow> string" where
  "js_join sep [] = []"
| "js_join sep [x] = x"
| "js_join sep (x # y # ys) = x @ sep @ js_join sep (y # ys)"

text \<open>
  \<open>extractClientEntities\<close> returns \<open>data.result?.entities || {}\<close>, whatever the service sent,
  or \<open>{}\<close> when the request fails: \<open>fin_entities\<close> is the list of its entries as
  \<open>Object.entries\<close> lists them.  The handler expects every value to be an array of
  strings.  Of another value only this matters: \<open>null\<close> has no \<open>length\<close> to read; a value
  with a positive \<open>length\<close> that is not an array (a non-empty string) has no \<open>join\<close>
  method; any other value (a number, a boolean, the empty string, an object without a
  positive \<open>length\<close>) is filtered out like an empty array.
\<close>

datatype entity_value = EntityList "string list" | EntityNull | EntityNoJoin | EntityOther

fun positive_length :: "entity_value \<Rightarrow> bool" where
  "positive_length (EntityList vals) = (vals \<noteq> [])"
| "positive_length EntityNoJoin = True"
| "positive_length EntityNull = False"
| "positive_length EntityOther = False"

fun joined :: "entity_value \<Rightarrow> string" where
  "joined (EntityList vals) = js_join '', '' vals"
| "joined EntityNoJoin = []"
| "joined EntityNull = []"
| "joined EntityOther = []"

text \<open>
  \<open>Object.entries(fastinoEntities).filter(([_, vals]) => vals.length > 0)
  .map(([key, vals]) => `${key}: ${vals.join(", ")}`).join("; ")\<close>, which throws a
  \<open>TypeError\<close> in \<open>filter\<close> at a \<open>null\<close> value and in \<open>map\<close> at a value without \<open>join\<close>.
\<close>

definition entitySummary :: "(string \<times> entity_value) list \<Rightarrow> error + string" where
  "entitySummary fastinoEntities =
     (if list_ex (\<lambda>(key, vals). vals = EntityNull) fastinoEntities then Inl TypeError
      else
        (let kept = filter (\<lambda>(key, vals). positive_length vals) fastinoEntities
         in if list_ex (\<lambda>(key, vals). vals = EntityNoJoin) kept then Inl TypeError
            else Inr (js_join ''; '' (map (\<lambda>(key, vals). key @ '': '' @ joined vals) kept))))"

text \<open>
  The environment of \<open>finalizeCall\<close>: the service answers for the classification of the
  full transcript, the entities, the summary and the notes returned by
  \<open>summarizeIntakeCall\<close> (which catches its own errors; \<open>fin_notes\<close> is the text of
  \<open>extractedData.notes\<close>), whether \<open>storage.updateClient\<close> in the \<open>try\<close> block,
  \<open>storage.updateClient\<close> in the \<open>catch\<close> block and \<open>storage.updateCall\<close> throw, and what the
  rest of the server does at each \<open>await\<close>.
\<close>

record finalize_env =
  fin_replies :: emotion_replies
  fin_entities :: "(string \<times> entity_value) list"
  fin_summary :: string
  fin_notes :: "string option"
  updateClient_throws :: bool
  fallbackUpdateClient_throws :: bool
  updateCall_throws :: bool
  fin_meanwhile :: "await \<Rightarrow> world \<Rightarrow> world"

text \<open>The notes of the client update in the \<open>try\<close> block and of the fallback update in
  the \<open>catch\<close> block, given the entity summary.\<close>

definition update_notes :: "string option \<Rightarrow> string \<Rightarrow> string option" where
  "update_notes notes es =
     (if es \<noteq> []
      then Some ((case notes of None \<Rightarrow> [] | Some n \<Rightarrow> n) @ [CHR 0x0A, CHR 0x0A] @
                 ''Extracted entities: '' @ es)
      else if truthy notes then notes else None)"

definition fallback_notes :: "string \<Rightarrow> string option" where
  "fallback_notes es = (if es \<noteq> [] then Some (''Extracted entities: '' @ es) else None)"

text \<open>
  \<open>finalizeCall\<close>.  \<open>activeCall\<close> is the reference returned by \<open>getActiveCall\<close>, read again at
  each use.  The entity summary is computed in the \<open>try\<close> block before
  \<open>storage.updateClient\<close> and again in the \<open>catch\<close> block before the fallback update: when
  it throws, it throws in both and \<open>finalizeCall\<close> fails before any storage request.
\<close>

definition log_request :: "storage_request \<Rightarrow> world \<Rightarrow> world" where
  "log_request req w = w\<lparr>storageLog := storageLog w @ [req]\<rparr>"

definition finalizeCall :: "finalize_env \<Rightarrow> world \<Rightarrow> string \<Rightarrow> (error + unit) \<times> world" where
  "finalizeCall env w cid =
     (case getActiveCall (calls w) cid of
        None \<Rightarrow> (Inr (), w)
      | Some activeCall \<Rightarrow>
          (let fullTranscript = getFullTranscript (calls w) cid;
               emotionResult = analyzeEmotions (fin_replies env) fullTranscript;
               w1 = fin_meanwhile env AwaitTranscriptEmotions w;
               fastinoEntities = fin_entities env;
               w2 = fin_meanwhile env AwaitEntities w1;
               summary = fin_summary env;
               w3 = fin_meanwhile env AwaitSummary w2
           in case entitySummary fastinoEntities of
                Inl e \<Rightarrow> (Inl e, w3)
              | Inr es \<Rightarrow>
                  (let w4 = fin_meanwhile env AwaitUpdateClient
                              (log_request
                                 (UpdateClient (clientId (heap (calls w3) activeCall))
                                    (update_notes (fin_notes env) es)) w3);
                       w5 = (if updateClient_throws env
                             then fin_meanwhile env AwaitFallbackUpdate
                                    (log_request
                                       (UpdateClient (clientId (heap (calls w4) activeCall))
                                          (fallback_notes es)) w4)
                             else w4)
                   in if updateClient_throws env \<and> fallbackUpdateClient_throws env
                      then (Inl StorageError, w5)
                      else
                        (let w6 = fin_meanwhile env AwaitUpdateCall
                                    (log_request (UpdateCall cid fullTranscript summary) w5)
                         in if updateCall_throws env then (Inl StorageError, w6)
                            else
                              (let w7 = fin_meanwhile env AwaitGraph w6
                               in (Inr (),
                                   w7\<lparr>hub := broadcastCallEvent (hub w7) cid
                                                (clientId (heap (calls w7) activeCall))
                                                ''call_ended''
                                                (CallEnded ''completed'' summary
                                                   (profile emotionResult)),
                                      calls := removeActiveCall (calls w7) cid\<rparr>))))))"

text \<open>
  The body field \<open>text\<close> of a voice-turn request: missing or another falsy value that is
  not a string, a string, or a truthy value that is not a string (it has no \<open>trim\<close>
  method, so the handler's \<open>catch\<close> answers 500).
\<close>

datatype request_text = NoText | Text string | NotAString

datatype http_response =
    NotFound
  | ServerError
  | TurnResult string "SentenceEmotion list" bool
  | Completed

text \<open>
  The environment of one voice turn: the service answers for the classification of the
  \<open>i\<close>-th sentence and of the whole text, the chat model, the environment of
  \<open>finalizeCall\<close>, the four clock readings, and what the rest of the server does at each
  \<open>await\<close> of the handler.
\<close>

record turn_env =
  sentenceReplies :: "nat \<Rightarrow> emotion_replies"
  overallReplies :: emotion_replies
  chatEnv :: chat_env
  finalizeEnv :: finalize_env
  t_callerSegment :: nat
  t_callerEvent :: nat
  t_agentSegment :: nat
  t_agentEvent :: nat
  turn_meanwhile :: "await \<Rightarrow> world \<Rightarrow> world"

text \<open>\<open>emotionResults[i].emotions[0] || { emotion: "neutral", confidence: 0.5 }\<close>\<close>

definition sentence_emotion :: "string \<Rightarrow> EmotionResult \<Rightarrow> SentenceEmotion" where
  "sentence_emotion sentence res =
     (case emotions res of
        [] \<Rightarrow> \<lparr>se_text = sentence, se_emotion = ''neutral'', se_confidence = 0.5\<rparr>
      | primary # rest \<Rightarrow>
          \<lparr>se_text = sentence, se_emotion = ea_emotion primary,
           se_confidence = ea_confidence primary\<rparr>)"

text \<open>The sentences of the caller text, each classified on its own (\<open>sentenceEmotions\<close>).\<close>

definition sentence_emotions :: "turn_env \<Rightarrow> string \<Rightarrow> SentenceEmotion list" where
  "sentence_emotions env callerText =
     (let sentences = filter (\<lambda>s. s \<noteq> []) (map js_trim (js_split callerText));
          emotionResults =
            map (\<lambda>(i, sentence). analyzeEmotions (sentenceReplies env i) sentence)
                (enumerate 0 sentences)
      in map (\<lambda>(sentence, res). sentence_emotion sentence res) (zip sentences emotionResults))"

text \<open>\<open>overallEmotion.emotions[0]?.emotion || "neutral"\<close> and
  \<open>overallEmotion.emotions[0]?.confidence || 0.5\<close>\<close>

definition primary_emotion :: "EmotionResult \<Rightarrow> string" where
  "primary_emotion res =
     (case emotions res of
        [] \<Rightarrow> ''neutral''
      | e # rest \<Rightarrow> if ea_emotion e = [] then ''neutral'' else ea_emotion e)"

definition primary_confidence :: "EmotionResult \<Rightarrow> real" where
  "primary_confidence res =
     (case emotions res of
        [] \<Rightarrow> 0.5
      | e # rest \<Rightarrow> if ea_confidence e = 0 then 0.5 else ea_confidence e)"

text \<open>
  The handler of \<open>POST /api/calls/:callId/voice-turn\<close> (\<open>processTurn\<close>) in the pieces that
  run without interruption.  \<open>activeCall\<close> is the reference returned by \<open>getActiveCall\<close>
  at the start; every later \<open>activeCall.field\<close> reads the object as it is at that moment,
  whether or not the registry still holds it, while \<open>addConversationTurn\<close> and
  \<open>addTranscriptSegment\<close> look the call up in the registry by its id and do nothing when it
  is not there.

  \<open>caller_block\<close>: from the return of the second classification to the call of
  \<open>generateNextResponse\<close>, the caller's turn is recorded and published.
\<close>

definition caller_block :: "turn_env \<Rightarrow> ref \<Rightarrow> string \<Rightarrow> world \<Rightarrow> world" where
  "caller_block env activeCall callerText w =
     (let overallEmotion = analyzeEmotions (overallReplies env) callerText;
          primaryEmotion = primary_emotion overallEmotion;
          emotionConfidence = primary_confidence overallEmotion;
          c1 = addConversationTurn (calls w) (callId (heap (calls w) activeCall))
                 User callerText;
          c2 = addTranscriptSegment c1 (callId (heap c1 activeCall)) Caller callerText
                 primaryEmotion emotionConfidence (t_callerSegment env);
          h1 = broadcastTranscriptSegment (hub w)
                 \<lparr>ts_callId = callId (heap c2 activeCall),
                  ts_clientId = clientId (heap c2 activeCall),
                  ts_speaker = Caller, ts_text = callerText,
                  ts_emotion = primaryEmotion, ts_confidence = emotionConfidence,
                  ts_timestamp = t_callerEvent env,
                  ts_turnIndex = turnIndex (heap c2 activeCall),
                  ts_sentenceEmotions = Some (sentence_emotions env callerText)\<rparr>
      in w\<lparr>calls := c2, hub := h1\<rparr>)"

text \<open>\<open>agent_block\<close>: from the return of \<open>generateNextResponse\<close> to the test of
  \<open>isComplete\<close>, the agent's turn is recorded and published.\<close>

definition agent_block :: "turn_env \<Rightarrow> ref \<Rightarrow> string \<Rightarrow> world \<Rightarrow> world" where
  "agent_block env activeCall response w =
     (let c3 = addConversationTurn (calls w) (callId (heap (calls w) activeCall))
                 Assistant response;
          c4 = addTranscriptSegment c3 (callId (heap c3 activeCall)) Agent response
                 ''neutral'' 0.8 (t_agentSegment env);
          h2 = broadcastTranscriptSegment (hub w)
                 \<lparr>ts_callId = callId (heap c4 activeCall),
                  ts_clientId = clientId (heap c4 activeCall),
                  ts_speaker = Agent, ts_text = response,
                  ts_emotion = ''neutral'', ts_confidence = 0.8,
                  ts_timestamp = t_agentEvent env,
                  ts_turnIndex = turnIndex (heap c4 activeCall),
                  ts_sentenceEmotions = None\<rparr>
      in w\<lparr>calls := c4, hub := h2\<rparr>)"

text \<open>
  The worlds of a voice turn with a text that is not blank, for the world \<open>w\<close> in which
  the handler starts: when both classifications have returned, when the caller's turn
  is recorded, what the chat model answers to the history read at that moment, when
  that answer arrives, and when the agent's turn is recorded.
\<close>

definition when_classified :: "turn_env \<Rightarrow> world \<Rightarrow> world" where
  "when_classified env w = turn_meanwhile env AwaitOverall (turn_meanwhile env AwaitSentences w)"

definition after_caller :: "turn_env \<Rightarrow> ref \<Rightarrow> string \<Rightarrow> world \<Rightarrow> world" where
  "after_caller env activeCall callerText w =
     caller_block env activeCall callerText (when_classified env w)"

definition generated :: "turn_env \<Rightarrow> ref \<Rightarrow> string \<Rightarrow> world \<Rightarrow> string \<times> bool" where
  "generated env activeCall callerText w =
     generateNextResponse (chatEnv env)
       (conversationHistory (heap (calls (after_caller env activeCall callerText w)) activeCall))
       callerText"

definition when_generated :: "turn_env \<Rightarrow> ref \<Rightarrow> string \<Rightarrow> world \<Rightarrow> world" where
  "when_generated env activeCall callerText w =
     turn_meanwhile env AwaitGeneration (after_caller env activeCall callerText w)"

definition after_agent :: "turn_env \<Rightarrow> ref \<Rightarrow> string \<Rightarrow> world \<Rightarrow> world" where
  "after_agent env activeCall callerText w =
     agent_block env activeCall (fst (generated env activeCall callerText w))
       (when_generated env activeCall callerText w)"

definition processTurn :: "turn_env \<Rightarrow> world \<Rightarrow> string \<Rightarrow> request_text \<Rightarrow> http_response \<times> world" where
  "processTurn env w callIdParam body =
     (case getActiveCall (calls w) callIdParam of
        None \<Rightarrow> (NotFound, w)
      | Some activeCall \<Rightarrow>
          (case body of
             NoText \<Rightarrow> (TurnResult [] [] False, w)
           | NotAString \<Rightarrow> (ServerError, w)
           | Text callerText \<Rightarrow>
               if callerText = [] \<or> js_trim callerText = [] then (TurnResult [] [] False, w)
               else
                 (let sentenceEmotions = sentence_emotions env callerText;
                      response = fst (generated env activeCall callerText w);
                      isComplete = snd (generated env activeCall callerText w);
                      w' = after_agent env activeCall callerText w
                  in if isComplete then
                       (case finalizeCall (finalizeEnv env) w' (callId (heap (calls w') activeCall)) of
                          (Inl e, w'') \<Rightarrow> (ServerError, w'')
                        | (Inr u, w'') \<Rightarrow> (TurnResult response sentenceEmotions isComplete, w''))
                     else (TurnResult response sentenceEmotions isComplete, w'))))"

text \<open>The handler of \<open>POST /api/calls/:callId/end\<close> (\<open>endCall\<close>).\<close>

definition endCall :: "finalize_env \<Rightarrow> world \<Rightarrow> string \<Rightarrow> http_response \<times> world" where
  "endCall env w callIdParam =
     (case getActiveCall (calls w) callIdParam of
        None \<Rightarrow> (NotFound, w)
      | Some activeCall \<Rightarrow>
          (case finalizeCall env w callIdParam of
             (Inl e, w') \<Rightarrow> (ServerError, w')
           | (Inr u, w') \<Rightarrow> (Completed, w')))"

text \<open>The call object \<open>r\<close> is the one registered under its call id, or nothing is
  registered under that id.\<close>

definition registered :: "ref \<Rightarrow> world \<Rightarrow> bool" where
  "registered r v \<longleftrightarrow> getActiveCall (calls v) (callId (heap (calls v) r)) = Some r"

definition gone :: "ref \<Rightarrow> world \<Rightarrow> bool" where
  "gone r v \<longleftrightarrow> getActiveCall (calls v) (callId (heap (calls v) r)) = None"

text \<open>The call object is as it was and is registered under the same id: what a stretch
  of other requests does when none of them concerns the call.\<close>

definition call_untouched :: "string \<Rightarrow> ref \<Rightarrow> world \<Rightarrow> world \<Rightarrow> bool" where
  "call_untouched cid r v v' \<longleftrightarrow>
     getActiveCall (calls v') cid = getActiveCall (calls v) cid \<and>
     heap (calls v') r = heap (calls v) r"

text \<open>The transcript events among the published messages, each as its speaker and its
  \<open>turnIndex\<close>.\<close>

fun transcript_events :: "message list \<Rightarrow> (speaker \<times> nat) list" where
  "transcript_events [] = []"
| "transcript_events (MsgTranscript seg # ms) =
     (ts_speaker seg, ts_turnIndex seg) # transcript_events ms"
| "transcript_events (MsgConnected a b # ms) = transcript_events ms"
| "transcript_events (MsgEvent e c u d # ms) = transcript_events ms"

text \<open>Environments and a world used by the closed theorems below: nothing else happens
  on the server; a request to end the call is handled while the turn waits at the
  given \<open>await\<close>; another voice turn of the same call is handled while the turn waits for
  the chat model; the entity extractor answers with a \<open>null\<close> value.\<close>

definition storage_ok :: finalize_env where
  "storage_ok =
     \<lparr>fin_replies = no_services, fin_entities = [], fin_summary = ''Call completed'',
      fin_notes = None, updateClient_throws = False, fallbackUpdateClient_throws = False,
      updateCall_throws = False, fin_meanwhile = (\<lambda>a v. v)\<rparr>"

definition turn_says :: "string \<Rightarrow> turn_env" where
  "turn_says t =
     \<lparr>sentenceReplies = (\<lambda>i. no_services), overallReplies = no_services,
      chatEnv = chat_says t, finalizeEnv = storage_ok,
      t_callerSegment = 110, t_callerEvent = 111, t_agentSegment = 120, t_agentEvent = 121,
      turn_meanwhile = (\<lambda>a v. v)\<rparr>"

definition turn_ended :: "await \<Rightarrow> string \<Rightarrow> string \<Rightarrow> turn_env" where
  "turn_ended point cid t =
     (turn_says t)\<lparr>turn_meanwhile :=
        (\<lambda>a v. if a = point then snd (endCall storage_ok v cid) else v)\<rparr>"

definition turn_interleaved :: "string \<Rightarrow> turn_env" where
  "turn_interleaved cid =
     (turn_says ''Tell me more.'')\<lparr>turn_meanwhile :=
        (\<lambda>a v. if a = AwaitGeneration
               then snd (processTurn (turn_says ''Go on.'') v cid (Text ''Hello?''))
               else v)\<rparr>"

definition entities_null :: finalize_env where
  "entities_null = storage_ok\<lparr>fin_entities := [(''housing_need'', EntityNull)]\<rparr>"

definition world_greeted :: world where
  "world_greeted = \<lparr>calls = calls_greeted, hub = initial_hub, storageLog = []\<rparr>"
section \<open>Registry invariant\<close>

lemma lookupCall_SomeD:
  "lookupCall s cid = Some (r, call) \<Longrightarrow> activeCalls s cid = Some r \<and> heap s r = call"
  by (auto simp: lookupCall_def split: option.splits)

lemma registry_inv_init: "registry_inv initial_calls"
  by (simp add: registry_inv_def initial_calls_def)

lemma registry_inv_create:
  assumes "registry_inv s"
  shows "registry_inv (snd (createActiveCall s cid clid sid now))"
proof -
  have refs: "activeCalls s c = Some r \<Longrightarrow> r \<noteq> nextRef s" for c r
    using assms unfolding registry_inv_def by fastforce
  show ?thesis
    using assms refs
    unfolding registry_inv_def createActiveCall_def Let_def
    by (auto simp: call_ok_def less_Suc_eq)
qed

lemma registry_inv_turn:
  assumes "registry_inv s"
  shows "registry_inv (addConversationTurn s cid rl txt)"
proof (cases "lookupCall s cid")
  case None
  then show ?thesis using assms by (simp add: addConversationTurn_def)
next
  case (Some p)
  obtain r call where p: "p = (r, call)" by (cases p)
  note look = lookupCall_SomeD [OF Some [unfolded p]]
  show ?thesis
    using assms look
    unfolding registry_inv_def addConversationTurn_def Some p
    by (auto simp: call_ok_def)
qed

lemma registry_inv_segment:
  assumes "registry_inv s"
  shows "registry_inv (addTranscriptSegment s cid sp txt emo conf now)"
proof (cases "lookupCall s cid")
  case None
  then show ?thesis using assms by (simp add: addTranscriptSegment_def)
next
  case (Some p)
  obtain r call where p: "p = (r, call)" by (cases p)
  note look = lookupCall_SomeD [OF Some [unfolded p]]
  show ?thesis
    using assms look
    unfolding registry_inv_def addTranscriptSegment_def Some p
    by (auto simp: call_ok_def)
qed

lemma registry_inv_remove:
  assumes "registry_inv s"
  shows "registry_inv (removeActiveCall s cid)"
proof (cases "lookupCall s cid")
  case None
  then show ?thesis using assms by (simp add: removeActiveCall_def)
next
  case (Some p)
  obtain r call where p: "p = (r, call)" by (cases p)
  show ?thesis
    using assms
    unfolding registry_inv_def removeActiveCall_def Some p
    by (auto split: if_splits)
qed

lemma reachable_inv: "reachable s \<Longrightarrow> registry_inv s"
  by (induction rule: reachable.induct)
     (simp_all add: registry_inv_init registry_inv_create registry_inv_turn
        registry_inv_segment registry_inv_remove)

lemma lookupCall_append:
  assumes "lookupCall s cid = Some (r, call)"
  shows "lookupCall (addTranscriptSegment s cid sp txt emo conf now) cid =
         Some (r, call\<lparr>transcriptSegments :=
                      transcriptSegments call @
                        [\<lparr>seg_speaker = sp, seg_text = txt, seg_emotion = emo,
                          seg_confidence = conf, seg_timestamp = now,
                          seg_turnIndex = turnIndex call\<rparr>],
                    turnIndex := Suc (turnIndex call)\<rparr>)"
  using lookupCall_SomeD [OF assms]
  by (simp add: addTranscriptSegment_def assms lookupCall_def)

lemma lookupCall_turn:
  assumes "lookupCall s cid = Some (r, call)"
  shows "lookupCall (addConversationTurn s cid rl txt) cid =
         Some (r, call\<lparr>conversationHistory :=
                      conversationHistory call @ [\<lparr>role = rl, content = txt\<rparr>]\<rparr>)"
  using lookupCall_SomeD [OF assms]
  by (simp add: addConversationTurn_def assms lookupCall_def)

section \<open>Claims about the registry\<close>

text \<open>
  C2.  In every registry state that \<open>createActiveCall\<close>, \<open>addConversationTurn\<close>,
  \<open>addTranscriptSegment\<close> and \<open>removeActiveCall\<close> can produce, every registered call has
  \<open>turnIndex\<close> equal to the number of its transcript segments, the segments carry the
  indices 0, 1, 2, ... in order, and appending a segment to the call makes \<open>turnIndex\<close>
  strictly larger (by one).
\<close>

theorem turnIndex_counts_segments:
  assumes "reachable s" and "lookupCall s cid = Some (r, call)"
  shows "turnIndex call = length (transcriptSegments call) \<and>
         map seg_turnIndex (transcriptSegments call) = [0..<turnIndex call] \<and>
         (\<exists>call'. lookupCall (addTranscriptSegment s cid sp txt emo conf now) cid = Some (r, call') \<and>
                  length (transcriptSegments call') = Suc (length (transcriptSegments call)) \<and>
                  turnIndex call < turnIndex call' \<and>
                  turnIndex call' = length (transcriptSegments call'))"
proof -
  have inv: "registry_inv s" using assms(1) by (rule reachable_inv)
  have ok: "call_ok call"
    using inv lookupCall_SomeD [OF assms(2)] by (auto simp: registry_inv_def)
  have idx: "map seg_turnIndex (transcriptSegments call) = [0..<turnIndex call]"
    using ok by (simp add: call_ok_def)
  have len: "turnIndex call = length (transcriptSegments call)"
    using arg_cong [OF idx, of length] by simp
  show ?thesis
    using idx len lookupCall_append [OF assms(2), of sp "txt" emo conf now] by simp
qed

theorem turnIndex_counts_segments_witness:
  "reachable calls_greeted \<and>
   lookupCall calls_greeted ''c1'' =
     Some (0, \<lparr>callId = ''c1'', clientId = ''u1'', twilioCallSid = ''web-1'',
               conversationHistory = [],
               transcriptSegments =
                 [\<lparr>seg_speaker = Agent, seg_text = ''Hello'', seg_emotion = ''neutral'',
                   seg_confidence = 0.8, seg_timestamp = 101, seg_turnIndex = 0\<rparr>],
               turnIndex = 1, startedAt = 100\<rparr>) \<and>
   (\<exists>call'. lookupCall (addTranscriptSegment calls_greeted ''c1'' Caller ''Hi'' ''neutral'' 0.5 102)
               ''c1'' = Some (0, call') \<and>
            length (transcriptSegments call') = 2 \<and> turnIndex call' = 2)"
proof -
  have r: "reachable calls_greeted"
    unfolding calls_greeted_def calls_one_def
    by (intro reach_segment reach_create reach_init)
  have l: "lookupCall calls_greeted ''c1'' =
           Some (0, \<lparr>callId = ''c1'', clientId = ''u1'', twilioCallSid = ''web-1'',
                     conversationHistory = [],
                     transcriptSegments =
                       [\<lparr>seg_speaker = Agent, seg_text = ''Hello'', seg_emotion = ''neutral'',
                         seg_confidence = 0.8, seg_timestamp = 101, seg_turnIndex = 0\<rparr>],
                     turnIndex = 1, startedAt = 100\<rparr>)"
    by (simp add: calls_greeted_def calls_one_def createActiveCall_def initial_calls_def
          addTranscriptSegment_def lookupCall_def Let_def)
  show ?thesis
    using r l
      turnIndex_counts_segments [OF r l, of Caller "''Hi''" "''neutral''" "0.5" 102]
    by auto
qed

text \<open>
  C3 (as stated: creating a call whose \<open>callId\<close> is already registered fails and never
  overwrites the entry).  The code does not do this: in the registry that holds call
  \<open>c1\<close> with one transcript segment, creating \<open>c1\<close> again returns a new object and the
  registry entry for \<open>c1\<close> is replaced by it; the segment recorded before is no longer
  reachable through the registry.
\<close>

theorem createActiveCall_overwrites_counterexample:
  "getActiveCall calls_greeted ''c1'' = Some 0 \<and>
   map_option (length \<circ> transcriptSegments \<circ> snd) (lookupCall calls_greeted ''c1'') = Some 1 \<and>
   fst (createActiveCall calls_greeted ''c1'' ''u2'' ''web-2'' 200) = 1 \<and>
   lookupCall calls_recreated ''c1'' =
     Some (1, \<lparr>callId = ''c1'', clientId = ''u2'', twilioCallSid = ''web-2'',
               conversationHistory = [], transcriptSegments = [],
               turnIndex = 0, startedAt = 200\<rparr>) \<and>
   lookupCall calls_recreated ''c1'' \<noteq> lookupCall calls_greeted ''c1''"
  by (simp add: calls_recreated_def calls_greeted_def calls_one_def createActiveCall_def
        initial_calls_def addTranscriptSegment_def lookupCall_def getActiveCall_def Let_def)

text \<open>
  C3 (amended).  \<open>createActiveCall\<close> never fails.  Whether or not \<open>callId\<close> is already
  registered, it returns a newly allocated \<open>ActiveCall\<close> with empty conversation history,
  empty transcript and \<open>turnIndex\<close> 0, and afterwards the registry maps \<open>callId\<close> to that
  new object (replacing any earlier entry) and the session id to \<open>callId\<close>.
\<close>

theorem createActiveCall_replaces:
  "fst (createActiveCall s cid clid sid now) = nextRef s \<and>
   lookupCall (snd (createActiveCall s cid clid sid now)) cid =
     Some (nextRef s, \<lparr>callId = cid, clientId = clid, twilioCallSid = sid,
                       conversationHistory = [], transcriptSegments = [],
                       turnIndex = 0, startedAt = now\<rparr>) \<and>
   callSidToCallId (snd (createActiveCall s cid clid sid now)) sid = Some cid"
  by (simp add: createActiveCall_def lookupCall_def Let_def)

section \<open>Hub invariant\<close>

lemma map_of_ensure_key:
  "map_of (ensure_key key subs) k =
     (if k = key \<and> map_of subs key = None then Some [] else map_of subs k)"
  by (auto simp: ensure_key_def map_add_def split: option.splits)

lemma map_of_add_subscriber:
  "map_of (add_subscriber key w subs) k =
     (if k = key then map_option (set_add w) (map_of subs k) else map_of subs k)"
  by (induction subs) (auto simp: add_subscriber_def)

lemma set_set_add: "set (set_add w l) = insert w (set l)"
  by (auto simp: set_add_def)

lemma distinct_set_add: "distinct l \<Longrightarrow> distinct (set_add w l)"
  by (simp add: set_add_def)

lemma fst_add_subscriber: "map fst (add_subscriber key w subs) = map fst subs"
  by (induction subs) (auto simp: add_subscriber_def)

lemma fst_ensure_key:
  "distinct (map fst subs) \<Longrightarrow> distinct (map fst (ensure_key key subs))"
  by (auto simp: ensure_key_def map_of_eq_None_iff)

lemma subs_ok_ensure_key: "subs_ok n subs \<Longrightarrow> subs_ok n (ensure_key key subs)"
  by (auto simp: subs_ok_def ensure_key_def map_of_eq_None_iff)

lemma subs_ok_add_subscriber:
  "subs_ok n subs \<Longrightarrow> w < n \<Longrightarrow> subs_ok n (add_subscriber key w subs)"
  unfolding subs_ok_def fst_add_subscriber
  by (auto simp: add_subscriber_def set_set_add distinct_set_add split: if_splits)

lemma subs_ok_mono: "subs_ok n subs \<Longrightarrow> n \<le> m \<Longrightarrow> subs_ok m subs"
  by (fastforce simp: subs_ok_def)

lemma hub_inv_subs_ok: "hub_inv h \<longleftrightarrow> subs_ok (nextWs h) (callSubscribers h)"
  by (simp add: hub_inv_def subs_ok_def)

lemma hub_inv_connect:
  assumes "hub_inv h"
  shows "hub_inv (snd (on_connection h a b))"
proof -
  have ok: "subs_ok (Suc (nextWs h)) (callSubscribers h)"
    using assms subs_ok_mono [of "nextWs h" "callSubscribers h" "Suc (nextWs h)"]
    by (simp add: hub_inv_subs_ok)
  note step = subs_ok_add_subscriber [OF subs_ok_ensure_key, of "Suc (nextWs h)" _ "nextWs h"]
  show ?thesis
    unfolding hub_inv_subs_ok on_connection_def Let_def
    by (auto simp: ok intro!: step)
qed

lemma distinct_fst_filter_map:
  "distinct (map fst subs) \<Longrightarrow>
   distinct (map fst (filter (\<lambda>(k, l). l \<noteq> []) (map (\<lambda>(k, l). (k, removeAll w l)) subs)))"
  by (induction subs) (auto simp: image_iff)

lemma hub_inv_close:
  assumes "hub_inv h"
  shows "hub_inv (on_close h w)"
  using assms distinct_fst_filter_map [of "callSubscribers h" w]
  unfolding hub_inv_def on_close_def
  by (auto simp: distinct_removeAll)

lemma send_all_fields [simp]:
  "callSubscribers (send_all h msg l) = callSubscribers h"
  "openSockets (send_all h msg l) = openSockets h"
  "nextWs (send_all h msg l) = nextWs h"
  "closedWith (send_all h msg l) = closedWith h"
  "published (send_all h msg l) = published h"
  by (simp_all add: send_all_def)

lemma subs_of_send_all [simp]: "subs_of (send_all h msg l) key = subs_of h key"
  by (simp add: subs_of_def)

lemma hub_reachable_inv: "hub_reachable h \<Longrightarrow> hub_inv h"
proof (induction rule: hub_reachable.induct)
  case hub_init
  show ?case by (simp add: hub_inv_def initial_hub_def)
next
  case (hub_connect h a b)
  then show ?case by (simp add: hub_inv_connect)
next
  case (hub_close h w)
  then show ?case by (simp add: hub_inv_close)
next
  case (hub_closing h w)
  then show ?case by (simp add: hub_inv_def socket_closing_def)
next
  case (hub_transcript h seg)
  then show ?case by (simp add: hub_inv_def broadcastTranscriptSegment_def Let_def)
next
  case (hub_event h cid clid event d)
  then show ?case by (simp add: hub_inv_def broadcastCallEvent_def Let_def)
qed

lemma received_send_all:
  "received (send_all h msg l) w =
     received h w @ replicate (length (filter (\<lambda>x. x = w \<and> x \<in> openSockets h) l)) msg"
proof -
  have "map snd (filter (\<lambda>p. fst p = w) (map (\<lambda>x. (x, msg)) (filter P l))) =
        replicate (length (filter (\<lambda>x. x = w \<and> P x) l)) msg" for P
    by (induction l) auto
  then show ?thesis by (simp add: received_def send_all_def)
qed

lemma on_connection_callId:
  assumes "c \<noteq> []"
  shows "on_connection h (Some c) b =
         (nextWs h,
          h\<lparr>nextWs := Suc (nextWs h), openSockets := insert (nextWs h) (openSockets h),
            callSubscribers := add_subscriber c (nextWs h) (ensure_key c (callSubscribers h)),
            sent := sent h @ [(nextWs h, MsgConnected (Some c) b)]\<rparr>)"
  using assms by (simp add: on_connection_def truthy_def Let_def)

lemma subs_of_after_connection:
  assumes "c \<noteq> []"
  shows "subs_of (snd (on_connection h (Some c) b)) k =
         (if k = c then set_add (nextWs h) (subs_of h c) else subs_of h k)"
  by (simp add: on_connection_callId [OF assms] subs_of_def map_of_add_subscriber
        map_of_ensure_key set_add_def split: option.splits)

lemma subs_of_fresh:
  assumes "hub_inv h"
  shows "nextWs h \<notin> set (subs_of h k)" and "distinct (subs_of h k)"
proof -
  have "map_of (callSubscribers h) k = Some l \<Longrightarrow> distinct l \<and> (\<forall>w \<in> set l. w < nextWs h)" for l
    using assms map_of_SomeD [of "callSubscribers h" k l] by (fastforce simp: hub_inv_def)
  then show "nextWs h \<notin> set (subs_of h k)" and "distinct (subs_of h k)"
    by (cases "map_of (callSubscribers h) k"; fastforce simp: subs_of_def)+
qed

lemma filter_is_fresh:
  assumes "w \<notin> set l"
  shows "P w \<Longrightarrow> filter (\<lambda>x. x = w \<and> P x) (set_add w l) = [w]"
    and "filter (\<lambda>x. x = w \<and> P x) l = []"
proof -
  show none: "filter (\<lambda>x. x = w \<and> P x) l = []"
    using assms by (induction l) auto
  show "P w \<Longrightarrow> filter (\<lambda>x. x = w \<and> P x) (set_add w l) = [w]"
    using assms by (simp add: set_add_def none)
qed

section \<open>Claims about the broadcast hub\<close>

text \<open>
  C9 (as stated: a connection that supplies both \<open>callId\<close> and \<open>clientId\<close> is registered
  under both keys).  The code does not do this: after the connection with \<open>callId=c1\<close> and
  \<open>clientId=u1\<close> on the empty hub, the socket is in the set of key \<open>c1\<close> and the key
  \<open>client:u1\<close> does not exist; a transcript segment of another call \<open>c2\<close> of the same client
  \<open>u1\<close> is not sent to the socket, which has only received the \<open>connected\<close> message.
\<close>

theorem connection_both_keys_counterexample:
  "map_of (callSubscribers hub_both) ''c1'' = Some [0] \<and>
   map_of (callSubscribers hub_both) ''client:u1'' = None \<and>
   0 \<in> openSockets hub_both \<and>
   ts_clientId seg_c2 = ''u1'' \<and>
   received (broadcastTranscriptSegment hub_both seg_c2) 0 =
     [MsgConnected (Some ''c1'') (Some ''u1'')]"
  by (simp add: hub_both_def on_connection_def initial_hub_def truthy_def ensure_key_def
        add_subscriber_def set_add_def client_key_def Let_def seg_c2_def seg_c1_def
        broadcastTranscriptSegment_def send_all_def subs_of_def received_def)

text \<open>
  C9 (amended).  In every hub state the handlers can produce, a new connection that
  supplies a non-empty \<open>callId\<close> \<open>c\<close>, with any \<open>clientId\<close> parameter \<open>u\<close> or with none, is
  registered under the key \<open>c\<close> and under no other key; in particular it is not
  registered under \<open>client:u\<close>.  Publishing a transcript segment of call \<open>c\<close> right after
  the connection sends the message to that connection exactly once (for a call id that
  is not itself the client key of the segment).  A connection that supplies neither
  parameter (absent or empty) is closed with code 1008, is registered under no key and
  is sent nothing.
\<close>

theorem connection_registered_once:
  assumes "hub_reachable h"
  shows "(c \<noteq> [] \<longrightarrow>
            fst (on_connection h (Some c) u) = nextWs h \<and>
            nextWs h \<in> set (subs_of (snd (on_connection h (Some c) u)) c) \<and>
            (\<forall>k. k \<noteq> c \<longrightarrow> nextWs h \<notin> set (subs_of (snd (on_connection h (Some c) u)) k)) \<and>
            (ts_callId seg = c \<longrightarrow> c \<noteq> ''client:'' @ ts_clientId seg \<longrightarrow>
               received (broadcastTranscriptSegment (snd (on_connection h (Some c) u)) seg)
                 (nextWs h) =
               received (snd (on_connection h (Some c) u)) (nextWs h) @ [MsgTranscript seg])) \<and>
         (\<not> truthy a \<longrightarrow> \<not> truthy b \<longrightarrow>
            fst (on_connection h a b) = nextWs h \<and>
            callSubscribers (snd (on_connection h a b)) = callSubscribers h \<and>
            nextWs h \<notin> openSockets (snd (on_connection h a b)) \<and>
            sent (snd (on_connection h a b)) = sent h \<and>
            closedWith (snd (on_connection h a b)) =
              closedWith h @ [(nextWs h, 1008, ''callId or clientId required'')])"
proof -
  have inv: "hub_inv h" using assms by (rule hub_reachable_inv)
  note fresh = subs_of_fresh [OF inv]
  have both: "fst (on_connection h (Some c) u) = nextWs h \<and>
            nextWs h \<in> set (subs_of (snd (on_connection h (Some c) u)) c) \<and>
            (\<forall>k. k \<noteq> c \<longrightarrow> nextWs h \<notin> set (subs_of (snd (on_connection h (Some c) u)) k)) \<and>
            (ts_callId seg = c \<longrightarrow> c \<noteq> ''client:'' @ ts_clientId seg \<longrightarrow>
               received (broadcastTranscriptSegment (snd (on_connection h (Some c) u)) seg)
                 (nextWs h) =
               received (snd (on_connection h (Some c) u)) (nextWs h) @ [MsgTranscript seg])"
    if c: "c \<noteq> []"
  proof -
    let ?h = "snd (on_connection h (Some c) u)"
    let ?ck = "''client:'' @ ts_clientId seg"
    have opn: "openSockets ?h = insert (nextWs h) (openSockets h)"
      by (simp add: on_connection_callId [OF c])
    have sub_c: "subs_of ?h c = set_add (nextWs h) (subs_of h c)"
      by (simp add: subs_of_after_connection [OF c])
    have sub_k: "k \<noteq> c \<Longrightarrow> subs_of ?h k = subs_of h k" for k
      by (simp add: subs_of_after_connection [OF c])
    have one: "filter (\<lambda>x. x = nextWs h \<and> x \<in> openSockets ?h) (subs_of ?h c) = [nextWs h]"
      unfolding sub_c using fresh(1) [of c] by (intro filter_is_fresh) (simp_all add: opn)
    have zero: "filter (\<lambda>x. x = nextWs h \<and> x \<in> openSockets ?h) (subs_of ?h ?ck) = []"
      if cu: "c \<noteq> ?ck"
      using cu sub_k [of ?ck] fresh(1) [of ?ck]
      by (intro filter_is_fresh) simp
    have "received (broadcastTranscriptSegment ?h seg) (nextWs h) =
          received ?h (nextWs h) @ [MsgTranscript seg]"
      if "ts_callId seg = c" and cu: "c \<noteq> ?ck"
    proof -
      let ?p = "?h\<lparr>published := published ?h @ [MsgTranscript seg]\<rparr>"
      have same: "openSockets ?p = openSockets ?h" "subs_of ?p k = subs_of ?h k"
        "received ?p w = received ?h w" for k w
        by (simp_all add: subs_of_def received_def)
      show ?thesis
        unfolding broadcastTranscriptSegment_def Let_def received_send_all
          send_all_fields subs_of_send_all that(1) same one zero [OF cu]
        by simp
    qed
    moreover have "fst (on_connection h (Some c) u) = nextWs h"
      by (simp add: on_connection_callId [OF c])
    moreover have "nextWs h \<in> set (subs_of ?h c)"
      by (simp add: sub_c set_set_add)
    moreover have "k \<noteq> c \<Longrightarrow> nextWs h \<notin> set (subs_of ?h k)" for k
      using fresh(1) [of k] by (simp add: sub_k)
    ultimately show ?thesis by blast
  qed
  have neither: "fst (on_connection h a b) = nextWs h \<and>
            callSubscribers (snd (on_connection h a b)) = callSubscribers h \<and>
            nextWs h \<notin> openSockets (snd (on_connection h a b)) \<and>
            sent (snd (on_connection h a b)) = sent h \<and>
            closedWith (snd (on_connection h a b)) =
              closedWith h @ [(nextWs h, 1008, ''callId or clientId required'')]"
    if "\<not> truthy a" and "\<not> truthy b"
    using that by (simp add: on_connection_def Let_def)
  show ?thesis using both neither by blast
qed

theorem connection_registered_once_witness:
  "hub_reachable initial_hub \<and> ''c1'' \<noteq> [] \<and> ''c1'' \<noteq> ''client:'' @ ''u1'' \<and>
   ts_callId seg_c1 = ''c1'' \<and> ts_clientId seg_c1 = ''u1'' \<and>
   \<not> truthy None \<and> \<not> truthy (Some []) \<and>
   subs_of hub_both ''c1'' = [0] \<and> subs_of hub_both ''client:u1'' = [] \<and>
   received (broadcastTranscriptSegment hub_both seg_c1) 0 =
     [MsgConnected (Some ''c1'') (Some ''u1''), MsgTranscript seg_c1] \<and>
   callSubscribers (snd (on_connection initial_hub None (Some []))) = []"
proof -
  have nw: "nextWs initial_hub = 0" by (simp add: initial_hub_def)
  have rc: "received hub_both 0 = [MsgConnected (Some ''c1'') (Some ''u1'')]"
    by (simp add: hub_both_def on_connection_def initial_hub_def truthy_def Let_def received_def)
  have sb: "subs_of hub_both ''c1'' = [0] \<and> subs_of hub_both ''client:u1'' = []"
    by (simp add: hub_both_def on_connection_def initial_hub_def truthy_def ensure_key_def
          add_subscriber_def set_add_def Let_def subs_of_def)
  have sg: "ts_callId seg_c1 = ''c1'' \<and> ts_clientId seg_c1 = ''u1''"
    by (simp add: seg_c1_def)
  have tr: "\<not> truthy None \<and> \<not> truthy (Some [])" by (simp add: truthy_def)
  have cs: "callSubscribers initial_hub = []" by (simp add: initial_hub_def)
  show ?thesis
    using connection_registered_once [OF hub_init, of "''c1''" "Some ''u1''" seg_c1 None "Some []"]
      nw rc sb sg tr cs hub_init
    by (simp add: hub_both_def)
qed

section \<open>Claims about the conversation engine\<close>

lemma generateNextResponse_isComplete:
  "snd (generateNextResponse env hist latest) \<longleftrightarrow>
     (\<exists>t. chat env ([\<lparr>role = System, content = SYSTEM_PROMPT env\<rparr>] @ hist @
                     [\<lparr>role = User, content = latest\<rparr>]) = ChatContent (Some t) \<and>
          js_includes CALL_COMPLETE t)"
  by (auto simp: generateNextResponse_def Let_def CALL_COMPLETE_def
           split: chat_reply.splits option.splits)

text \<open>
  C6.  The engine is to return \<open>isComplete = true\<close> exactly when the raw model output
  contains the marker \<open>[CALL_COMPLETE]\<close>, and a response text in which the marker does not
  occur.  The first half holds (\<open>generateNextResponse_isComplete\<close>).  The second half fails
  when the model writes the marker more than once, because \<open>replace\<close> with a string pattern
  removes the first occurrence only: for the raw output
  \<open>Goodbye. [CALL_COMPLETE] [CALL_COMPLETE]\<close> the engine returns the response
  \<open>Goodbye.  [CALL_COMPLETE]\<close>, which contains the marker, with \<open>isComplete = true\<close>.
\<close>

theorem generateNextResponse_marker_left:
  "generateNextResponse (chat_says ''Goodbye. [CALL_COMPLETE] [CALL_COMPLETE]'') hist latest =
     (''Goodbye.  [CALL_COMPLETE]'', True) \<and>
   js_includes CALL_COMPLETE
     (fst (generateNextResponse (chat_says ''Goodbye. [CALL_COMPLETE] [CALL_COMPLETE]'') hist latest))"
  by (simp add: generateNextResponse_def chat_says_def CALL_COMPLETE_def Let_def
        js_trim_def is_space_def)

section \<open>The voice turn and the end of a call\<close>

lemma dropWhile_all: "(\<forall>x \<in> set (dropWhile P t). P x) \<longleftrightarrow> (\<forall>x \<in> set t. P x)"
  by (induction t) auto

lemma js_trim_blank: "js_trim t = [] \<longleftrightarrow> (\<forall>c \<in> set t. is_space c)"
  by (simp add: js_trim_def dropWhile_eq_Nil_conv dropWhile_all)

lemma addConversationTurn_at:
  assumes "activeCalls c cid = Some r"
  shows "addConversationTurn c cid rl t =
         c\<lparr>heap := (heap c)(r := (heap c r)\<lparr>conversationHistory :=
                      conversationHistory (heap c r) @ [\<lparr>role = rl, content = t\<rparr>]\<rparr>)\<rparr>"
  using assms by (simp add: addConversationTurn_def lookupCall_def)

lemma addTranscriptSegment_at:
  assumes "activeCalls c cid = Some r"
  shows "addTranscriptSegment c cid sp t emo conf now =
         c\<lparr>heap := (heap c)(r := (heap c r)\<lparr>transcriptSegments :=
                      transcriptSegments (heap c r) @
                        [\<lparr>seg_speaker = sp, seg_text = t, seg_emotion = emo,
                          seg_confidence = conf, seg_timestamp = now,
                          seg_turnIndex = turnIndex (heap c r)\<rparr>],
                    turnIndex := Suc (turnIndex (heap c r))\<rparr>)\<rparr>"
  using assms by (simp add: addTranscriptSegment_def lookupCall_def)

lemma published_send_all_fold:
  "published (fold (\<lambda>key h'. send_all h' msg (subs_of h' key)) keys h) = published h"
  by (induction keys arbitrary: h) simp_all

lemma published_broadcastTranscriptSegment:
  "published (broadcastTranscriptSegment h seg) = published h @ [MsgTranscript seg]"
  by (simp add: broadcastTranscriptSegment_def Let_def)

lemma published_broadcastCallEvent:
  "published (broadcastCallEvent h cid clid event d) = published h @ [MsgEvent event cid clid d]"
  by (simp add: broadcastCallEvent_def Let_def published_send_all_fold del: fold_simps)

lemma transcript_events_append:
  "transcript_events (xs @ ys) = transcript_events xs @ transcript_events ys"
  by (induction xs rule: transcript_events.induct) simp_all

lemma heap_removeActiveCall: "heap (removeActiveCall c cid) = heap c"
  by (simp add: removeActiveCall_def split: option.splits prod.splits)

lemma activeCalls_removeActiveCall: "activeCalls (removeActiveCall c cid) cid = None"
  by (simp add: removeActiveCall_def lookupCall_def split: option.splits)

lemma finalizeCall_removes:
  assumes "finalizeCall env w cid = (Inr u, w')"
  shows "activeCalls (calls w') cid = None"
proof (cases "getActiveCall (calls w) cid")
  case None
  then have "w' = w" using assms by (simp add: finalizeCall_def)
  then show ?thesis using None by (simp add: getActiveCall_def)
next
  case (Some r)
  show ?thesis
    using assms
    by (auto simp: finalizeCall_def Some Let_def activeCalls_removeActiveCall
             split: if_splits sum.splits)
qed

text \<open>What the two blocks of a voice turn do when the call object is registered under its
  id, and when no call is registered under that id.\<close>

lemma caller_block_registered:
  assumes "getActiveCall (calls v) (callId (heap (calls v) r)) = Some r"
  shows "calls (caller_block env r t v) =
           (calls v)\<lparr>heap := (heap (calls v))(r := (heap (calls v) r)
              \<lparr>conversationHistory :=
                 conversationHistory (heap (calls v) r) @ [\<lparr>role = User, content = t\<rparr>],
               transcriptSegments :=
                 transcriptSegments (heap (calls v) r) @
                   [\<lparr>seg_speaker = Caller, seg_text = t,
                     seg_emotion = primary_emotion (analyzeEmotions (overallReplies env) t),
                     seg_confidence = primary_confidence (analyzeEmotions (overallReplies env) t),
                     seg_timestamp = t_callerSegment env,
                     seg_turnIndex = turnIndex (heap (calls v) r)\<rparr>],
               turnIndex := Suc (turnIndex (heap (calls v) r))\<rparr>)\<rparr>"
    and "published (hub (caller_block env r t v)) =
           published (hub v) @
             [MsgTranscript
                \<lparr>ts_callId = callId (heap (calls v) r), ts_clientId = clientId (heap (calls v) r),
                 ts_speaker = Caller, ts_text = t,
                 ts_emotion = primary_emotion (analyzeEmotions (overallReplies env) t),
                 ts_confidence = primary_confidence (analyzeEmotions (overallReplies env) t),
                 ts_timestamp = t_callerEvent env,
                 ts_turnIndex = Suc (turnIndex (heap (calls v) r)),
                 ts_sentenceEmotions = Some (sentence_emotions env t)\<rparr>]"
  using assms
  by (simp_all add: caller_block_def Let_def getActiveCall_def
        addConversationTurn_at [where r = r] addTranscriptSegment_at [where r = r]
        published_broadcastTranscriptSegment)

lemma agent_block_registered:
  assumes "getActiveCall (calls v) (callId (heap (calls v) r)) = Some r"
  shows "calls (agent_block env r a v) =
           (calls v)\<lparr>heap := (heap (calls v))(r := (heap (calls v) r)
              \<lparr>conversationHistory :=
                 conversationHistory (heap (calls v) r) @ [\<lparr>role = Assistant, content = a\<rparr>],
               transcriptSegments :=
                 transcriptSegments (heap (calls v) r) @
                   [\<lparr>seg_speaker = Agent, seg_text = a, seg_emotion = ''neutral'',
                     seg_confidence = 0.8, seg_timestamp = t_agentSegment env,
                     seg_turnIndex = turnIndex (heap (calls v) r)\<rparr>],
               turnIndex := Suc (turnIndex (heap (calls v) r))\<rparr>)\<rparr>"
    and "published (hub (agent_block env r a v)) =
           published (hub v) @
             [MsgTranscript
                \<lparr>ts_callId = callId (heap (calls v) r), ts_clientId = clientId (heap (calls v) r),
                 ts_speaker = Agent, ts_text = a, ts_emotion = ''neutral'', ts_confidence = 0.8,
                 ts_timestamp = t_agentEvent env,
                 ts_turnIndex = Suc (turnIndex (heap (calls v) r)),
                 ts_sentenceEmotions = None\<rparr>]"
  using assms
  by (simp_all add: agent_block_def Let_def getActiveCall_def
        addConversationTurn_at [where r = r] addTranscriptSegment_at [where r = r]
        published_broadcastTranscriptSegment)

lemma caller_block_unregistered:
  assumes "getActiveCall (calls v) (callId (heap (calls v) r)) = None"
  shows "calls (caller_block env r t v) = calls v"
    and "published (hub (caller_block env r t v)) =
           published (hub v) @
             [MsgTranscript
                \<lparr>ts_callId = callId (heap (calls v) r), ts_clientId = clientId (heap (calls v) r),
                 ts_speaker = Caller, ts_text = t,
                 ts_emotion = primary_emotion (analyzeEmotions (overallReplies env) t),
                 ts_confidence = primary_confidence (analyzeEmotions (overallReplies env) t),
                 ts_timestamp = t_callerEvent env,
                 ts_turnIndex = turnIndex (heap (calls v) r),
                 ts_sentenceEmotions = Some (sentence_emotions env t)\<rparr>]"
  using assms
  by (simp_all add: caller_block_def Let_def getActiveCall_def addConversationTurn_def
        addTranscriptSegment_def lookupCall_def published_broadcastTranscriptSegment)

lemma agent_block_unregistered:
  assumes "getActiveCall (calls v) (callId (heap (calls v) r)) = None"
  shows "calls (agent_block env r a v) = calls v"
    and "published (hub (agent_block env r a v)) =
           published (hub v) @
             [MsgTranscript
                \<lparr>ts_callId = callId (heap (calls v) r), ts_clientId = clientId (heap (calls v) r),
                 ts_speaker = Agent, ts_text = a, ts_emotion = ''neutral'', ts_confidence = 0.8,
                 ts_timestamp = t_agentEvent env,
                 ts_turnIndex = turnIndex (heap (calls v) r),
                 ts_sentenceEmotions = None\<rparr>]"
  using assms
  by (simp_all add: agent_block_def Let_def getActiveCall_def addConversationTurn_def
        addTranscriptSegment_def lookupCall_def published_broadcastTranscriptSegment)

text \<open>Each block keeps a registered call registered, raises its \<open>turnIndex\<close> by one, stores
  the old \<open>turnIndex\<close> and publishes the new one.\<close>

lemma caller_block_step:
  assumes "registered r v"
  shows "registered r (caller_block env r t v)"
    and "getActiveCall (calls (caller_block env r t v)) = getActiveCall (calls v)"
    and "turnIndex (heap (calls (caller_block env r t v)) r) = Suc (turnIndex (heap (calls v) r))"
    and "map seg_turnIndex (transcriptSegments (heap (calls (caller_block env r t v)) r)) =
           map seg_turnIndex (transcriptSegments (heap (calls v) r)) @
             [turnIndex (heap (calls v) r)]"
    and "transcript_events (published (hub (caller_block env r t v))) =
           transcript_events (published (hub v)) @ [(Caller, Suc (turnIndex (heap (calls v) r)))]"
proof -
  have reg: "getActiveCall (calls v) (callId (heap (calls v) r)) = Some r"
    using assms by (simp add: registered_def)
  note c = caller_block_registered [OF reg, of env t]
  show "registered r (caller_block env r t v)"
    using reg by (simp add: registered_def c(1) getActiveCall_def)
  show "getActiveCall (calls (caller_block env r t v)) = getActiveCall (calls v)"
    by (simp add: c(1) getActiveCall_def fun_eq_iff)
  show "turnIndex (heap (calls (caller_block env r t v)) r) = Suc (turnIndex (heap (calls v) r))"
    by (simp add: c(1))
  show "map seg_turnIndex (transcriptSegments (heap (calls (caller_block env r t v)) r)) =
           map seg_turnIndex (transcriptSegments (heap (calls v) r)) @
             [turnIndex (heap (calls v) r)]"
    by (simp add: c(1))
  show "transcript_events (published (hub (caller_block env r t v))) =
           transcript_events (published (hub v)) @ [(Caller, Suc (turnIndex (heap (calls v) r)))]"
    by (simp add: c(2) transcript_events_append)
qed

lemma agent_block_step:
  assumes "registered r v"
  shows "registered r (agent_block env r a v)"
    and "getActiveCall (calls (agent_block env r a v)) = getActiveCall (calls v)"
    and "turnIndex (heap (calls (agent_block env r a v)) r) = Suc (turnIndex (heap (calls v) r))"
    and "map seg_turnIndex (transcriptSegments (heap (calls (agent_block env r a v)) r)) =
           map seg_turnIndex (transcriptSegments (heap (calls v) r)) @
             [turnIndex (heap (calls v) r)]"
    and "transcript_events (published (hub (agent_block env r a v))) =
           transcript_events (published (hub v)) @ [(Agent, Suc (turnIndex (heap (calls v) r)))]"
proof -
  have reg: "getActiveCall (calls v) (callId (heap (calls v) r)) = Some r"
    using assms by (simp add: registered_def)
  note c = agent_block_registered [OF reg, of env a]
  show "registered r (agent_block env r a v)"
    using reg by (simp add: registered_def c(1) getActiveCall_def)
  show "getActiveCall (calls (agent_block env r a v)) = getActiveCall (calls v)"
    by (simp add: c(1) getActiveCall_def fun_eq_iff)
  show "turnIndex (heap (calls (agent_block env r a v)) r) = Suc (turnIndex (heap (calls v) r))"
    by (simp add: c(1))
  show "map seg_turnIndex (transcriptSegments (heap (calls (agent_block env r a v)) r)) =
           map seg_turnIndex (transcriptSegments (heap (calls v) r)) @
             [turnIndex (heap (calls v) r)]"
    by (simp add: c(1))
  show "transcript_events (published (hub (agent_block env r a v))) =
           transcript_events (published (hub v)) @ [(Agent, Suc (turnIndex (heap (calls v) r)))]"
    by (simp add: c(2) transcript_events_append)
qed

text \<open>A voice turn with a text that is not blank answers from the world in which the
  agent's turn is recorded, after finalization when the reply completes the call.\<close>

lemma processTurn_unfold:
  assumes "getActiveCall (calls w) cid = Some r" and "js_trim callerText \<noteq> []"
  shows "processTurn env w cid (Text callerText) =
           (if snd (generated env r callerText w) then
              (case finalizeCall (finalizeEnv env) (after_agent env r callerText w)
                      (callId (heap (calls (after_agent env r callerText w)) r)) of
                 (Inl e, w'') \<Rightarrow> (ServerError, w'')
               | (Inr u, w'') \<Rightarrow>
                   (TurnResult (fst (generated env r callerText w))
                      (sentence_emotions env callerText) True, w''))
            else (TurnResult (fst (generated env r callerText w))
                    (sentence_emotions env callerText) False,
                  after_agent env r callerText w))"
proof -
  have "callerText \<noteq> []" using assms(2) by (auto simp: js_trim_def)
  then show ?thesis
    using assms by (simp add: processTurn_def Let_def split: prod.splits sum.splits)
qed


section \<open>Claims about the voice turn and the end of a call\<close>

lemma reachable_calls_greeted: "reachable calls_greeted"
  unfolding calls_greeted_def calls_one_def
  by (intro reach_segment reach_create reach_init)

lemma lookupCall_calls_greeted:
  "lookupCall calls_greeted ''c1'' =
     Some (0, \<lparr>callId = ''c1'', clientId = ''u1'', twilioCallSid = ''web-1'',
               conversationHistory = [],
               transcriptSegments =
                 [\<lparr>seg_speaker = Agent, seg_text = ''Hello'', seg_emotion = ''neutral'',
                   seg_confidence = 0.8, seg_timestamp = 101, seg_turnIndex = 0\<rparr>],
               turnIndex = 1, startedAt = 100\<rparr>)"
  by (simp add: calls_greeted_def calls_one_def createActiveCall_def initial_calls_def
        addTranscriptSegment_def lookupCall_def Let_def)

lemma scared_split: "js_split ''I am scared'' = [''I am scared'']"
  by (simp add: js_split_def is_terminator_def)

lemma scared_trim: "js_trim ''I am scared'' = ''I am scared''"
  by (simp add: js_trim_def is_space_def)

lemma scared_detect: "detect ''I am scared'' = ''anxiety''"
  by (simp add: detect_def emotionPatterns_def is_word_char_def lower_code_def)

lemma scared_emotions:
  "emotions (analyzeEmotions no_services ''I am scared'') =
     [\<lparr>ea_timestamp = 0, ea_emotion = ''anxiety'', ea_confidence = 0.6,
       ea_text = ''I am scared''\<rparr>]"
  by (simp add: analyzeEmotions_def no_services_def truthy_def llmEmotionAnalysis_def
        scared_split scared_trim simpleKeywordFallback_def scared_detect)

lemma says_more:
  "generateNextResponse (chat_says ''Tell me more.'') hist t = (''Tell me more.'', False)"
  by (simp add: generateNextResponse_def chat_says_def CALL_COMPLETE_def Let_def js_trim_def
        is_space_def)

lemma world_greeted_call:
  "getActiveCall (calls world_greeted) ''c1'' = Some 0 \<and>
   heap (calls world_greeted) 0 =
     \<lparr>callId = ''c1'', clientId = ''u1'', twilioCallSid = ''web-1'',
      conversationHistory = [],
      transcriptSegments =
        [\<lparr>seg_speaker = Agent, seg_text = ''Hello'', seg_emotion = ''neutral'',
          seg_confidence = 0.8, seg_timestamp = 101, seg_turnIndex = 0\<rparr>],
      turnIndex = 1, startedAt = 100\<rparr> \<and>
   published (hub world_greeted) = []"
  by (simp add: world_greeted_def calls_greeted_def calls_one_def createActiveCall_def
        initial_calls_def addTranscriptSegment_def lookupCall_def getActiveCall_def Let_def
        initial_hub_def)

lemma scared_primary:
  "primary_emotion (analyzeEmotions no_services ''I am scared'') = ''anxiety'' \<and>
   primary_confidence (analyzeEmotions no_services ''I am scared'') = 0.6"
  by (simp add: primary_emotion_def primary_confidence_def scared_emotions)

lemma scared_sentences:
  "sentence_emotions (turn_says t) ''I am scared'' =
     [\<lparr>se_text = ''I am scared'', se_emotion = ''anxiety'', se_confidence = 0.6\<rparr>]"
  by (simp add: sentence_emotions_def turn_says_def scared_split scared_trim scared_emotions
        sentence_emotion_def)

lemma turn_says_fields:
  "overallReplies (turn_says a) = no_services"
  "chatEnv (turn_says a) = chat_says a"
  "t_callerSegment (turn_says a) = 110"
  "t_callerEvent (turn_says a) = 111"
  "t_agentSegment (turn_says a) = 120"
  "t_agentEvent (turn_says a) = 121"
  by (simp_all add: turn_says_def)

text \<open>The quiet turn: nothing else happens while the handler waits.\<close>

lemma quiet_turn:
  "when_classified (turn_says a) w = w"
  "when_generated (turn_says a) r t w = after_caller (turn_says a) r t w"
  by (simp_all add: when_classified_def when_generated_def turn_says_def)

lemma quiet_after_caller:
  "calls (after_caller (turn_says ''Tell me more.'') 0 ''I am scared'' world_greeted) =
     (calls world_greeted)\<lparr>heap := (heap (calls world_greeted))(0 :=
        \<lparr>callId = ''c1'', clientId = ''u1'', twilioCallSid = ''web-1'',
         conversationHistory = [\<lparr>role = User, content = ''I am scared''\<rparr>],
         transcriptSegments =
           [\<lparr>seg_speaker = Agent, seg_text = ''Hello'', seg_emotion = ''neutral'',
             seg_confidence = 0.8, seg_timestamp = 101, seg_turnIndex = 0\<rparr>,
            \<lparr>seg_speaker = Caller, seg_text = ''I am scared'', seg_emotion = ''anxiety'',
             seg_confidence = 0.6, seg_timestamp = 110, seg_turnIndex = 1\<rparr>],
         turnIndex = 2, startedAt = 100\<rparr>)\<rparr>"
  "transcript_events
     (published (hub (after_caller (turn_says ''Tell me more.'') 0 ''I am scared'' world_greeted))) =
     [(Caller, 2)]"
proof -
  have reg: "getActiveCall (calls world_greeted) (callId (heap (calls world_greeted) 0)) = Some 0"
    using world_greeted_call by simp
  show "calls (after_caller (turn_says ''Tell me more.'') 0 ''I am scared'' world_greeted) =
     (calls world_greeted)\<lparr>heap := (heap (calls world_greeted))(0 :=
        \<lparr>callId = ''c1'', clientId = ''u1'', twilioCallSid = ''web-1'',
         conversationHistory = [\<lparr>role = User, content = ''I am scared''\<rparr>],
         transcriptSegments =
           [\<lparr>seg_speaker = Agent, seg_text = ''Hello'', seg_emotion = ''neutral'',
             seg_confidence = 0.8, seg_timestamp = 101, seg_turnIndex = 0\<rparr>,
            \<lparr>seg_speaker = Caller, seg_text = ''I am scared'', seg_emotion = ''anxiety'',
             seg_confidence = 0.6, seg_timestamp = 110, seg_turnIndex = 1\<rparr>],
         turnIndex = 2, startedAt = 100\<rparr>)\<rparr>"
    unfolding after_caller_def quiet_turn caller_block_registered(1) [OF reg]
    using world_greeted_call by (simp add: turn_says_fields scared_primary numeral_2_eq_2)
  show "transcript_events
     (published (hub (after_caller (turn_says ''Tell me more.'') 0 ''I am scared'' world_greeted))) =
     [(Caller, 2)]"
    unfolding after_caller_def quiet_turn caller_block_registered(2) [OF reg]
    using world_greeted_call by simp
qed

lemma quiet_after_agent:
  "calls (after_agent (turn_says ''Tell me more.'') 0 ''I am scared'' world_greeted) =
     (calls world_greeted)\<lparr>heap := (heap (calls world_greeted))(0 :=
        \<lparr>callId = ''c1'', clientId = ''u1'', twilioCallSid = ''web-1'',
         conversationHistory = [\<lparr>role = User, content = ''I am scared''\<rparr>,
                                \<lparr>role = Assistant, content = ''Tell me more.''\<rparr>],
         transcriptSegments =
           [\<lparr>seg_speaker = Agent, seg_text = ''Hello'', seg_emotion = ''neutral'',
             seg_confidence = 0.8, seg_timestamp = 101, seg_turnIndex = 0\<rparr>,
            \<lparr>seg_speaker = Caller, seg_text = ''I am scared'', seg_emotion = ''anxiety'',
             seg_confidence = 0.6, seg_timestamp = 110, seg_turnIndex = 1\<rparr>,
            \<lparr>seg_speaker = Agent, seg_text = ''Tell me more.'', seg_emotion = ''neutral'',
             seg_confidence = 0.8, seg_timestamp = 120, seg_turnIndex = 2\<rparr>],
         turnIndex = 3, startedAt = 100\<rparr>)\<rparr>"
  "transcript_events
     (published (hub (after_agent (turn_says ''Tell me more.'') 0 ''I am scared'' world_greeted))) =
     [(Caller, 2), (Agent, 3)]"
proof -
  let ?v = "after_caller (turn_says ''Tell me more.'') 0 ''I am scared'' world_greeted"
  have reg: "getActiveCall (calls ?v) (callId (heap (calls ?v) 0)) = Some 0"
    using world_greeted_call by (simp add: quiet_after_caller(1) getActiveCall_def)
  have gen: "generated (turn_says ''Tell me more.'') 0 ''I am scared'' world_greeted =
             (''Tell me more.'', False)"
    by (simp add: generated_def turn_says_fields says_more)
  show "calls (after_agent (turn_says ''Tell me more.'') 0 ''I am scared'' world_greeted) =
     (calls world_greeted)\<lparr>heap := (heap (calls world_greeted))(0 :=
        \<lparr>callId = ''c1'', clientId = ''u1'', twilioCallSid = ''web-1'',
         conversationHistory = [\<lparr>role = User, content = ''I am scared''\<rparr>,
                                \<lparr>role = Assistant, content = ''Tell me more.''\<rparr>],
         transcriptSegments =
           [\<lparr>seg_speaker = Agent, seg_text = ''Hello'', seg_emotion = ''neutral'',
             seg_confidence = 0.8, seg_timestamp = 101, seg_turnIndex = 0\<rparr>,
            \<lparr>seg_speaker = Caller, seg_text = ''I am scared'', seg_emotion = ''anxiety'',
             seg_confidence = 0.6, seg_timestamp = 110, seg_turnIndex = 1\<rparr>,
            \<lparr>seg_speaker = Agent, seg_text = ''Tell me more.'', seg_emotion = ''neutral'',
             seg_confidence = 0.8, seg_timestamp = 120, seg_turnIndex = 2\<rparr>],
         turnIndex = 3, startedAt = 100\<rparr>)\<rparr>"
    unfolding after_agent_def quiet_turn gen fst_conv agent_block_registered(1) [OF reg]
    by (simp add: quiet_after_caller(1) turn_says_fields numeral_3_eq_3)
  show "transcript_events
     (published (hub (after_agent (turn_says ''Tell me more.'') 0 ''I am scared'' world_greeted))) =
     [(Caller, 2), (Agent, 3)]"
    unfolding after_agent_def quiet_turn gen fst_conv agent_block_registered(2) [OF reg]
    using quiet_after_caller(2)
    by (simp add: transcript_events_append quiet_after_caller(1))
qed

text \<open>A request to end the call, handled on a quiet server.\<close>

lemma endCall_storage_ok:
  assumes "getActiveCall (calls v) cid = Some r"
  shows "fst (endCall storage_ok v cid) = Completed"
    and "calls (snd (endCall storage_ok v cid)) = removeActiveCall (calls v) cid"
    and "transcript_events (published (hub (snd (endCall storage_ok v cid)))) =
           transcript_events (published (hub v))"
  using assms
  by (simp_all add: endCall_def finalizeCall_def storage_ok_def entitySummary_def Let_def
        log_request_def published_broadcastCallEvent transcript_events_append)

lemma ended_env:
  "caller_block (turn_ended p cid a) = caller_block (turn_says a)"
  "agent_block (turn_ended p cid a) = agent_block (turn_says a)"
  "sentence_emotions (turn_ended p cid a) = sentence_emotions (turn_says a)"
  "chatEnv (turn_ended p cid a) = chat_says a"
  "turn_meanwhile (turn_ended p cid a) p v = snd (endCall storage_ok v cid)"
  "p' \<noteq> p \<Longrightarrow> turn_meanwhile (turn_ended p cid a) p' v = v"
  by (simp_all add: fun_eq_iff caller_block_def agent_block_def sentence_emotions_def
        turn_ended_def turn_says_def)

text \<open>The call is ended while the turn waits for the chat model.\<close>

lemma ended_generation:
  "generated (turn_ended AwaitGeneration ''c1'' ''Tell me more.'') 0 ''I am scared'' world_greeted =
     (''Tell me more.'', False)"
  "heap (calls (after_agent (turn_ended AwaitGeneration ''c1'' ''Tell me more.'') 0 ''I am scared''
                  world_greeted)) 0 =
        \<lparr>callId = ''c1'', clientId = ''u1'', twilioCallSid = ''web-1'',
         conversationHistory = [\<lparr>role = User, content = ''I am scared''\<rparr>],
         transcriptSegments =
           [\<lparr>seg_speaker = Agent, seg_text = ''Hello'', seg_emotion = ''neutral'',
             seg_confidence = 0.8, seg_timestamp = 101, seg_turnIndex = 0\<rparr>,
            \<lparr>seg_speaker = Caller, seg_text = ''I am scared'', seg_emotion = ''anxiety'',
             seg_confidence = 0.6, seg_timestamp = 110, seg_turnIndex = 1\<rparr>],
         turnIndex = 2, startedAt = 100\<rparr>"
  "transcript_events
     (published (hub (after_agent (turn_ended AwaitGeneration ''c1'' ''Tell me more.'') 0
                        ''I am scared'' world_greeted))) =
     [(Caller, 2), (Agent, 2)]"
  "gone 0 (when_generated (turn_ended AwaitGeneration ''c1'' ''Tell me more.'') 0 ''I am scared''
             world_greeted)"
proof -
  let ?E = "turn_ended AwaitGeneration ''c1'' ''Tell me more.''"
  let ?Q = "turn_says ''Tell me more.''"
  let ?v = "after_caller ?Q 0 ''I am scared'' world_greeted"
  let ?u = "snd (endCall storage_ok ?v ''c1'')"
  have cl: "when_classified ?E world_greeted = world_greeted"
    by (simp add: when_classified_def ended_env)
  have ac: "after_caller ?E 0 ''I am scared'' world_greeted = ?v"
    by (simp add: after_caller_def cl ended_env quiet_turn)
  have wg: "when_generated ?E 0 ''I am scared'' world_greeted = ?u"
    by (simp add: when_generated_def ac ended_env)
  have reg: "getActiveCall (calls ?v) ''c1'' = Some 0"
    using world_greeted_call by (simp add: quiet_after_caller(1) getActiveCall_def)
  note e = endCall_storage_ok [OF reg]
  have obj: "heap (calls ?u) 0 = heap (calls ?v) 0"
    by (simp add: e(2) heap_removeActiveCall)
  have cidu: "callId (heap (calls ?u) 0) = ''c1''"
    unfolding obj by (simp add: quiet_after_caller(1))
  have g: "getActiveCall (calls ?u) (callId (heap (calls ?u) 0)) = None"
    unfolding cidu by (simp add: e(2) getActiveCall_def activeCalls_removeActiveCall)
  show gen: "generated ?E 0 ''I am scared'' world_greeted = (''Tell me more.'', False)"
    by (simp add: generated_def ended_env says_more)
  show "gone 0 (when_generated ?E 0 ''I am scared'' world_greeted)"
    by (simp add: gone_def wg g)
  show "heap (calls (after_agent ?E 0 ''I am scared'' world_greeted)) 0 =
        \<lparr>callId = ''c1'', clientId = ''u1'', twilioCallSid = ''web-1'',
         conversationHistory = [\<lparr>role = User, content = ''I am scared''\<rparr>],
         transcriptSegments =
           [\<lparr>seg_speaker = Agent, seg_text = ''Hello'', seg_emotion = ''neutral'',
             seg_confidence = 0.8, seg_timestamp = 101, seg_turnIndex = 0\<rparr>,
            \<lparr>seg_speaker = Caller, seg_text = ''I am scared'', seg_emotion = ''anxiety'',
             seg_confidence = 0.6, seg_timestamp = 110, seg_turnIndex = 1\<rparr>],
         turnIndex = 2, startedAt = 100\<rparr>"
    unfolding after_agent_def wg gen fst_conv ended_env agent_block_unregistered(1) [OF g]
    by (simp add: obj quiet_after_caller(1))
  show "transcript_events (published (hub (after_agent ?E 0 ''I am scared'' world_greeted))) =
     [(Caller, 2), (Agent, 2)]"
    unfolding after_agent_def wg gen fst_conv ended_env agent_block_unregistered(2) [OF g]
    by (simp add: transcript_events_append e(3) quiet_after_caller(2) obj quiet_after_caller(1))
qed

text \<open>The call is ended while the turn waits for the classification of the whole text.\<close>

lemma ended_classification:
  "gone 0 (when_classified (turn_ended AwaitOverall ''c1'' ''Tell me more.'') world_greeted)"
  "map seg_speaker
     (transcriptSegments
        (heap (calls (after_caller (turn_ended AwaitOverall ''c1'' ''Tell me more.'') 0
                        ''I am scared'' world_greeted)) 0)) = [Agent]"
  "transcript_events
     (published (hub (after_caller (turn_ended AwaitOverall ''c1'' ''Tell me more.'') 0
                        ''I am scared'' world_greeted))) = [(Caller, 1)]"
proof -
  let ?E = "turn_ended AwaitOverall ''c1'' ''Tell me more.''"
  let ?u = "snd (endCall storage_ok world_greeted ''c1'')"
  have cl: "when_classified ?E world_greeted = ?u"
    by (simp add: when_classified_def ended_env)
  have reg: "getActiveCall (calls world_greeted) ''c1'' = Some 0"
    using world_greeted_call by simp
  note e = endCall_storage_ok [OF reg]
  have obj: "heap (calls ?u) 0 = heap (calls world_greeted) 0"
    by (simp add: e(2) heap_removeActiveCall)
  have cidu: "callId (heap (calls ?u) 0) = ''c1''"
    unfolding obj using world_greeted_call by simp
  have g: "getActiveCall (calls ?u) (callId (heap (calls ?u) 0)) = None"
    unfolding cidu by (simp add: e(2) getActiveCall_def activeCalls_removeActiveCall)
  show "gone 0 (when_classified ?E world_greeted)"
    by (simp add: gone_def cl g)
  show "map seg_speaker
     (transcriptSegments (heap (calls (after_caller ?E 0 ''I am scared'' world_greeted)) 0)) =
     [Agent]"
    unfolding after_caller_def cl ended_env caller_block_unregistered(1) [OF g]
    using world_greeted_call by (simp add: obj)
  show "transcript_events
     (published (hub (after_caller ?E 0 ''I am scared'' world_greeted))) = [(Caller, 1)]"
    unfolding after_caller_def cl ended_env caller_block_unregistered(2) [OF g]
    using world_greeted_call by (simp add: transcript_events_append e(3) obj)
qed

text \<open>Another voice turn of the same call is handled while the turn waits for the chat
  model: four segments are appended, and each event carries the index after its append.\<close>

lemma says_go: "generateNextResponse (chat_says ''Go on.'') hist t = (''Go on.'', False)"
  by (simp add: generateNextResponse_def chat_says_def CALL_COMPLETE_def Let_def js_trim_def
        is_space_def)

lemma interleaved_turn:
  "registered 0 (when_classified (turn_interleaved ''c1'') world_greeted)"
  "registered 0 (when_generated (turn_interleaved ''c1'') 0 ''I am scared'' world_greeted)"
  "map seg_turnIndex
     (transcriptSegments
        (heap (calls (after_agent (turn_interleaved ''c1'') 0 ''I am scared'' world_greeted)) 0)) =
     [0, 1, 2, 3, 4]"
  "transcript_events
     (published (hub (after_agent (turn_interleaved ''c1'') 0 ''I am scared'' world_greeted))) =
     [(Caller, 2), (Caller, 3), (Agent, 4), (Agent, 5)]"
proof -
  let ?E = "turn_interleaved ''c1''"
  let ?Q = "turn_says ''Tell me more.''"
  let ?B = "turn_says ''Go on.''"
  let ?v2 = "caller_block ?Q 0 ''I am scared'' world_greeted"
  let ?b1 = "caller_block ?B 0 ''Hello?'' ?v2"
  let ?b2 = "agent_block ?B 0 ''Go on.'' ?b1"
  have env: "caller_block ?E = caller_block ?Q" "agent_block ?E = agent_block ?Q"
    "chatEnv ?E = chat_says ''Tell me more.''"
    "turn_meanwhile ?E AwaitSentences = (\<lambda>v. v)" "turn_meanwhile ?E AwaitOverall = (\<lambda>v. v)"
    "turn_meanwhile ?E AwaitGeneration =
       (\<lambda>v. snd (processTurn ?B v ''c1'' (Text ''Hello?'')))"
    by (simp_all add: fun_eq_iff caller_block_def agent_block_def sentence_emotions_def
          turn_interleaved_def turn_says_def)
  have r0: "registered 0 world_greeted"
    using world_greeted_call by (simp add: registered_def)
  have s0: "turnIndex (heap (calls world_greeted) 0) = 1"
    "map seg_turnIndex (transcriptSegments (heap (calls world_greeted) 0)) = [0]"
    "transcript_events (published (hub world_greeted)) = []"
    "getActiveCall (calls world_greeted) ''c1'' = Some 0"
    using world_greeted_call by simp_all
  note a = caller_block_step [OF r0, of ?Q "''I am scared''"]
  note b = caller_block_step [OF a(1), of ?B "''Hello?''"]
  note c = agent_block_step [OF b(1), of ?B "''Go on.''"]
  note d = agent_block_step [OF c(1), of ?Q "''Tell me more.''"]
  have cl: "when_classified ?E world_greeted = world_greeted"
    by (simp add: when_classified_def env)
  have ac: "after_caller ?E 0 ''I am scared'' world_greeted = ?v2"
    by (simp add: after_caller_def cl env)
  have reg2: "getActiveCall (calls ?v2) ''c1'' = Some 0"
    by (simp add: a(2) s0)
  have nb: "js_trim ''Hello?'' \<noteq> []" by (simp add: js_trim_def is_space_def)
  have genB: "generated ?B 0 ''Hello?'' ?v2 = (''Go on.'', False)"
    by (simp add: generated_def turn_says_fields says_go)
  have other: "snd (processTurn ?B ?v2 ''c1'' (Text ''Hello?'')) = ?b2"
    unfolding processTurn_unfold [OF reg2 nb] genB
    by (simp add: after_agent_def genB quiet_turn after_caller_def)
  have wg: "when_generated ?E 0 ''I am scared'' world_greeted = ?b2"
    by (simp add: when_generated_def ac env other)
  have gen: "generated ?E 0 ''I am scared'' world_greeted = (''Tell me more.'', False)"
    by (simp add: generated_def env says_more)
  have aa: "after_agent ?E 0 ''I am scared'' world_greeted =
            agent_block ?Q 0 ''Tell me more.'' ?b2"
    by (simp add: after_agent_def wg gen env)
  show "registered 0 (when_classified ?E world_greeted)"
    by (simp add: cl r0)
  show "registered 0 (when_generated ?E 0 ''I am scared'' world_greeted)"
    by (simp add: wg c(1))
  show "map seg_turnIndex
     (transcriptSegments (heap (calls (after_agent ?E 0 ''I am scared'' world_greeted)) 0)) =
     [0, 1, 2, 3, 4]"
    unfolding aa d(4) d(3) c(4) c(3) b(4) b(3) a(4) a(3) s0 by (simp add: eval_nat_numeral)
  show "transcript_events
     (published (hub (after_agent ?E 0 ''I am scared'' world_greeted))) =
     [(Caller, 2), (Caller, 3), (Agent, 4), (Agent, 5)]"
    unfolding aa d(5) d(3) c(5) c(3) b(5) b(3) a(5) a(3) s0 by (simp add: eval_nat_numeral)
qed

text \<open>The entity extractor answers with a \<open>null\<close> value: the end of the call fails before
  any storage request, and the call stays registered.\<close>

lemma entities_null_example:
  "endCall entities_null world_greeted ''c1'' = (ServerError, world_greeted)"
  using world_greeted_call
  by (simp add: endCall_def finalizeCall_def entities_null_def storage_ok_def
        entitySummary_def Let_def)

text \<open>
  C1 (as stated: for every registered call and every text that is not blank,
  \<open>processTurn\<close> appends exactly two segments and \<open>turnIndex\<close> grows by exactly 2).  The
  handler waits for the chat model between the caller's segment and the agent's, and
  nothing keeps another request for the same call from being handled meanwhile.  When
  the call \<open>c1\<close>, which has one segment and \<open>turnIndex\<close> 1, is ended while the turn waits
  for the chat model, the turn answers with the agent text as usual, but
  \<open>addTranscriptSegment\<close> no longer finds the call: only the caller's segment was
  appended and \<open>turnIndex\<close> is 2.
\<close>

theorem processTurn_interleaved_end_counterexample:
  "getActiveCall (calls world_greeted) ''c1'' = Some 0 \<and>
   map seg_speaker (transcriptSegments (heap (calls world_greeted) 0)) = [Agent] \<and>
   turnIndex (heap (calls world_greeted) 0) = 1 \<and>
   js_trim ''I am scared'' = ''I am scared'' \<and>
   processTurn (turn_ended AwaitGeneration ''c1'' ''Tell me more.'') world_greeted ''c1''
     (Text ''I am scared'') =
     (TurnResult ''Tell me more.''
        [\<lparr>se_text = ''I am scared'', se_emotion = ''anxiety'', se_confidence = 0.6\<rparr>] False,
      after_agent (turn_ended AwaitGeneration ''c1'' ''Tell me more.'') 0 ''I am scared''
        world_greeted) \<and>
   map seg_speaker
     (transcriptSegments
        (heap (calls (snd (processTurn (turn_ended AwaitGeneration ''c1'' ''Tell me more.'')
                             world_greeted ''c1'' (Text ''I am scared'')))) 0)) =
     [Agent, Caller] \<and>
   turnIndex
     (heap (calls (snd (processTurn (turn_ended AwaitGeneration ''c1'' ''Tell me more.'')
                          world_greeted ''c1'' (Text ''I am scared'')))) 0) = 2"
proof -
  have reg: "getActiveCall (calls world_greeted) ''c1'' = Some 0"
    using world_greeted_call by simp
  have t: "js_trim ''I am scared'' \<noteq> []" by (simp add: scared_trim)
  have run: "processTurn (turn_ended AwaitGeneration ''c1'' ''Tell me more.'') world_greeted ''c1''
     (Text ''I am scared'') =
     (TurnResult ''Tell me more.''
        [\<lparr>se_text = ''I am scared'', se_emotion = ''anxiety'', se_confidence = 0.6\<rparr>] False,
      after_agent (turn_ended AwaitGeneration ''c1'' ''Tell me more.'') 0 ''I am scared''
        world_greeted)"
    unfolding processTurn_unfold [OF reg t] ended_generation(1)
    by (simp add: ended_env scared_sentences)
  show ?thesis
    unfolding run
    using world_greeted_call by (simp add: scared_trim ended_generation(2))
qed

text \<open>
  C1 (amended).  For a registered call and a caller text that is not blank.  Whenever
  the call object is still the one registered under its id when the classifications
  have returned, the turn appends exactly one segment then, the caller's with the
  caller text, and \<open>turnIndex\<close> grows by one; whenever it is still registered when the chat
  model has answered, the turn appends exactly one segment then, the agent's with the
  reply, and \<open>turnIndex\<close> grows by one.  If moreover what the server does while the turn
  waits for the classifications, and then while it waits for the chat model, leaves the
  call's registry entry and the call object as they are (in particular, if no other
  request for the call is handled meanwhile), then the transcript has grown by exactly
  these two segments and \<open>turnIndex\<close> by exactly 2 when the agent's segment is recorded,
  and the call is still registered then; when the reply does not complete the call, the
  handler answers in that world, and when it does, finalization starts from that world.
\<close>

theorem processTurn_appends_two:
  assumes "reachable (calls w)"
    and "lookupCall (calls w) cid = Some (r, call)"
    and "js_trim callerText \<noteq> []"
  shows "(registered r (when_classified env w) \<longrightarrow>
           (\<exists>s1.
              transcriptSegments (heap (calls (after_caller env r callerText w)) r) =
                transcriptSegments (heap (calls (when_classified env w)) r) @ [s1] \<and>
              seg_speaker s1 = Caller \<and> seg_text s1 = callerText \<and>
              turnIndex (heap (calls (after_caller env r callerText w)) r) =
                turnIndex (heap (calls (when_classified env w)) r) + 1)) \<and>
         (registered r (when_generated env r callerText w) \<longrightarrow>
           (\<exists>s2.
              transcriptSegments (heap (calls (after_agent env r callerText w)) r) =
                transcriptSegments (heap (calls (when_generated env r callerText w)) r) @ [s2] \<and>
              seg_speaker s2 = Agent \<and> seg_text s2 = fst (generated env r callerText w) \<and>
              turnIndex (heap (calls (after_agent env r callerText w)) r) =
                turnIndex (heap (calls (when_generated env r callerText w)) r) + 1)) \<and>
         (call_untouched cid r w (when_classified env w) \<longrightarrow>
          call_untouched cid r (after_caller env r callerText w)
            (when_generated env r callerText w) \<longrightarrow>
           (\<exists>s1 s2.
              transcriptSegments (heap (calls (after_agent env r callerText w)) r) =
                transcriptSegments call @ [s1, s2] \<and>
              seg_speaker s1 = Caller \<and> seg_text s1 = callerText \<and>
              seg_speaker s2 = Agent \<and> seg_text s2 = fst (generated env r callerText w) \<and>
              turnIndex (heap (calls (after_agent env r callerText w)) r) = turnIndex call + 2 \<and>
              getActiveCall (calls (after_agent env r callerText w)) cid = Some r \<and>
              (if snd (generated env r callerText w)
               then snd (processTurn env w cid (Text callerText)) =
                      snd (finalizeCall (finalizeEnv env) (after_agent env r callerText w) cid)
               else processTurn env w cid (Text callerText) =
                      (TurnResult (fst (generated env r callerText w))
                         (sentence_emotions env callerText) False,
                       after_agent env r callerText w))))"
proof (intro conjI impI)
  let ?w1 = "when_classified env w"
  assume "registered r ?w1"
  then have reg: "getActiveCall (calls ?w1) (callId (heap (calls ?w1) r)) = Some r"
    by (simp add: registered_def)
  note c = caller_block_registered [OF reg, of env callerText, folded after_caller_def]
  show "\<exists>s1.
          transcriptSegments (heap (calls (after_caller env r callerText w)) r) =
            transcriptSegments (heap (calls ?w1) r) @ [s1] \<and>
          seg_speaker s1 = Caller \<and> seg_text s1 = callerText \<and>
          turnIndex (heap (calls (after_caller env r callerText w)) r) =
            turnIndex (heap (calls ?w1) r) + 1"
    by (simp add: c)
next
  let ?w3 = "when_generated env r callerText w"
  assume "registered r ?w3"
  then have reg: "getActiveCall (calls ?w3) (callId (heap (calls ?w3) r)) = Some r"
    by (simp add: registered_def)
  note a = agent_block_registered [OF reg, of env "fst (generated env r callerText w)",
    folded after_agent_def]
  show "\<exists>s2.
          transcriptSegments (heap (calls (after_agent env r callerText w)) r) =
            transcriptSegments (heap (calls ?w3) r) @ [s2] \<and>
          seg_speaker s2 = Agent \<and> seg_text s2 = fst (generated env r callerText w) \<and>
          turnIndex (heap (calls (after_agent env r callerText w)) r) =
            turnIndex (heap (calls ?w3) r) + 1"
    by (simp add: a)
next
  let ?w1 = "when_classified env w"
  let ?w2 = "after_caller env r callerText w"
  let ?w3 = "when_generated env r callerText w"
  let ?w4 = "after_agent env r callerText w"
  assume q1: "call_untouched cid r w ?w1" and q2: "call_untouched cid r ?w2 ?w3"
  have act: "activeCalls (calls w) cid = Some r" and obj: "heap (calls w) r = call"
    using lookupCall_SomeD [OF assms(2)] by simp_all
  have cid: "callId call = cid"
    using reachable_inv [OF assms(1)] act obj by (auto simp: registry_inv_def)
  have obj1: "heap (calls ?w1) r = call" and act1: "getActiveCall (calls ?w1) cid = Some r"
    using q1 act obj by (simp_all add: call_untouched_def getActiveCall_def)
  have reg1: "getActiveCall (calls ?w1) (callId (heap (calls ?w1) r)) = Some r"
    by (simp add: obj1 cid act1)
  note c = caller_block_registered [OF reg1, of env callerText, folded after_caller_def]
  have obj2: "heap (calls ?w2) r =
      call\<lparr>conversationHistory := conversationHistory call @ [\<lparr>role = User, content = callerText\<rparr>],
           transcriptSegments :=
             transcriptSegments call @
               [\<lparr>seg_speaker = Caller, seg_text = callerText,
                 seg_emotion = primary_emotion (analyzeEmotions (overallReplies env) callerText),
                 seg_confidence =
                   primary_confidence (analyzeEmotions (overallReplies env) callerText),
                 seg_timestamp = t_callerSegment env, seg_turnIndex = turnIndex call\<rparr>],
           turnIndex := Suc (turnIndex call)\<rparr>"
    by (simp add: c(1) obj1)
  have act2: "getActiveCall (calls ?w2) cid = Some r"
    using act1 by (simp add: c(1) getActiveCall_def)
  have obj3: "heap (calls ?w3) r = heap (calls ?w2) r"
    and act3: "getActiveCall (calls ?w3) cid = Some r"
    using q2 act2 by (simp_all add: call_untouched_def)
  have reg3: "getActiveCall (calls ?w3) (callId (heap (calls ?w3) r)) = Some r"
    by (simp add: obj3 obj2 cid act3)
  note a = agent_block_registered [OF reg3, of env "fst (generated env r callerText w)",
    folded after_agent_def]
  have obj4: "heap (calls ?w4) r =
      (heap (calls ?w2) r)
        \<lparr>conversationHistory :=
           conversationHistory (heap (calls ?w2) r) @
             [\<lparr>role = Assistant, content = fst (generated env r callerText w)\<rparr>],
         transcriptSegments :=
           transcriptSegments (heap (calls ?w2) r) @
             [\<lparr>seg_speaker = Agent, seg_text = fst (generated env r callerText w),
               seg_emotion = ''neutral'', seg_confidence = 0.8,
               seg_timestamp = t_agentSegment env,
               seg_turnIndex = turnIndex (heap (calls ?w2) r)\<rparr>],
         turnIndex := Suc (turnIndex (heap (calls ?w2) r))\<rparr>"
    by (simp add: a(1) obj3)
  have act4: "getActiveCall (calls ?w4) cid = Some r"
    using act3 by (simp add: a(1) getActiveCall_def)
  have cid4: "callId (heap (calls ?w4) r) = cid"
    by (simp add: obj4 obj2 cid)
  have run: "if snd (generated env r callerText w)
            then snd (processTurn env w cid (Text callerText)) =
                   snd (finalizeCall (finalizeEnv env) ?w4 cid)
            else processTurn env w cid (Text callerText) =
                   (TurnResult (fst (generated env r callerText w))
                      (sentence_emotions env callerText) False, ?w4)"
    unfolding processTurn_unfold [OF act [folded getActiveCall_def] assms(3)] cid4
    by (simp split: prod.splits sum.splits)
  have "transcriptSegments (heap (calls ?w4) r) =
          transcriptSegments call @
            [\<lparr>seg_speaker = Caller, seg_text = callerText,
              seg_emotion = primary_emotion (analyzeEmotions (overallReplies env) callerText),
              seg_confidence = primary_confidence (analyzeEmotions (overallReplies env) callerText),
              seg_timestamp = t_callerSegment env, seg_turnIndex = turnIndex call\<rparr>,
             \<lparr>seg_speaker = Agent, seg_text = fst (generated env r callerText w),
              seg_emotion = ''neutral'', seg_confidence = 0.8,
              seg_timestamp = t_agentSegment env, seg_turnIndex = Suc (turnIndex call)\<rparr>]"
    and "turnIndex (heap (calls ?w4) r) = turnIndex call + 2"
    by (simp_all add: obj4 obj2)
  then show "\<exists>s1 s2.
              transcriptSegments (heap (calls ?w4) r) = transcriptSegments call @ [s1, s2] \<and>
              seg_speaker s1 = Caller \<and> seg_text s1 = callerText \<and>
              seg_speaker s2 = Agent \<and> seg_text s2 = fst (generated env r callerText w) \<and>
              turnIndex (heap (calls ?w4) r) = turnIndex call + 2 \<and>
              getActiveCall (calls ?w4) cid = Some r \<and>
              (if snd (generated env r callerText w)
               then snd (processTurn env w cid (Text callerText)) =
                      snd (finalizeCall (finalizeEnv env) ?w4 cid)
               else processTurn env w cid (Text callerText) =
                      (TurnResult (fst (generated env r callerText w))
                         (sentence_emotions env callerText) False, ?w4))"
    using act4 run by fastforce
qed

lemma quiet_registered:
  "registered 0 (when_classified (turn_says ''Tell me more.'') world_greeted)"
  "registered 0 (when_generated (turn_says ''Tell me more.'') 0 ''I am scared'' world_greeted)"
  using world_greeted_call
  by (simp_all add: registered_def quiet_turn quiet_after_caller(1) getActiveCall_def)

theorem processTurn_appends_two_witness:
  "reachable (calls world_greeted) \<and>
   lookupCall (calls world_greeted) ''c1'' \<noteq> None \<and>
   js_trim ''I am scared'' \<noteq> [] \<and>
   registered 0 (when_classified (turn_says ''Tell me more.'') world_greeted) \<and>
   registered 0 (when_generated (turn_says ''Tell me more.'') 0 ''I am scared'' world_greeted) \<and>
   call_untouched ''c1'' 0 world_greeted
     (when_classified (turn_says ''Tell me more.'') world_greeted) \<and>
   call_untouched ''c1'' 0
     (after_caller (turn_says ''Tell me more.'') 0 ''I am scared'' world_greeted)
     (when_generated (turn_says ''Tell me more.'') 0 ''I am scared'' world_greeted) \<and>
   generated (turn_says ''Tell me more.'') 0 ''I am scared'' world_greeted =
     (''Tell me more.'', False) \<and>
   transcriptSegments
      (heap (calls (snd (processTurn (turn_says ''Tell me more.'') world_greeted ''c1''
                           (Text ''I am scared'')))) 0) =
     [\<lparr>seg_speaker = Agent, seg_text = ''Hello'', seg_emotion = ''neutral'',
       seg_confidence = 0.8, seg_timestamp = 101, seg_turnIndex = 0\<rparr>,
      \<lparr>seg_speaker = Caller, seg_text = ''I am scared'', seg_emotion = ''anxiety'',
       seg_confidence = 0.6, seg_timestamp = 110, seg_turnIndex = 1\<rparr>,
      \<lparr>seg_speaker = Agent, seg_text = ''Tell me more.'', seg_emotion = ''neutral'',
       seg_confidence = 0.8, seg_timestamp = 120, seg_turnIndex = 2\<rparr>] \<and>
   turnIndex
      (heap (calls (snd (processTurn (turn_says ''Tell me more.'') world_greeted ''c1''
                           (Text ''I am scared'')))) 0) = 3"
proof -
  let ?Q = "turn_says ''Tell me more.''"
  have r: "reachable (calls world_greeted)"
    by (simp add: world_greeted_def reachable_calls_greeted)
  have l: "lookupCall (calls world_greeted) ''c1'' =
     Some (0, \<lparr>callId = ''c1'', clientId = ''u1'', twilioCallSid = ''web-1'',
               conversationHistory = [],
               transcriptSegments =
                 [\<lparr>seg_speaker = Agent, seg_text = ''Hello'', seg_emotion = ''neutral'',
                   seg_confidence = 0.8, seg_timestamp = 101, seg_turnIndex = 0\<rparr>],
               turnIndex = 1, startedAt = 100\<rparr>)"
    by (simp add: world_greeted_def lookupCall_calls_greeted)
  have t: "js_trim ''I am scared'' \<noteq> []"
    by (simp add: scared_trim)
  have q1: "call_untouched ''c1'' 0 world_greeted (when_classified ?Q world_greeted)"
    by (simp add: call_untouched_def quiet_turn)
  have q2: "call_untouched ''c1'' 0 (after_caller ?Q 0 ''I am scared'' world_greeted)
              (when_generated ?Q 0 ''I am scared'' world_greeted)"
    by (simp add: call_untouched_def quiet_turn)
  have g: "generated ?Q 0 ''I am scared'' world_greeted = (''Tell me more.'', False)"
    by (simp add: generated_def turn_says_fields says_more)
  have run: "processTurn ?Q world_greeted ''c1'' (Text ''I am scared'') =
               (TurnResult ''Tell me more.'' (sentence_emotions ?Q ''I am scared'') False,
                after_agent ?Q 0 ''I am scared'' world_greeted)"
    using processTurn_appends_two [OF r l t, of ?Q] q1 q2 by (auto simp add: g)
  show ?thesis
    using r l t q1 q2 g quiet_registered by (simp add: run quiet_after_agent(1))
qed

text \<open>
  C4.  For a registered call, when the request carries no text or a text that is empty or
  consists of white space only, \<open>processTurn\<close> answers with the empty agent text, no
  sentence emotions and \<open>isComplete = false\<close>, and nothing changes: the registry (history,
  transcript, \<open>turnIndex\<close>), the hub (nothing is published or sent) and the storage
  requests are as before.
\<close>

theorem processTurn_blank:
  assumes "getActiveCall (calls w) cid \<noteq> None"
    and "body = NoText \<or> (\<exists>t. body = Text t \<and> (\<forall>c \<in> set t. is_space c))"
  shows "processTurn env w cid body = (TurnResult [] [] False, w)"
  using assms
  by (auto simp: processTurn_def js_trim_blank split: option.splits)

theorem processTurn_blank_witness:
  "getActiveCall (calls world_greeted) ''c1'' \<noteq> None \<and>
   list_all is_space ''   '' \<and>
   processTurn (turn_says ''Tell me more.'') world_greeted ''c1'' (Text ''   '') =
     (TurnResult [] [] False, world_greeted) \<and>
   processTurn (turn_says ''Tell me more.'') world_greeted ''c1'' NoText =
     (TurnResult [] [] False, world_greeted)"
proof -
  have a: "getActiveCall (calls world_greeted) ''c1'' \<noteq> None"
    using lookupCall_calls_greeted
    by (auto simp: world_greeted_def getActiveCall_def lookupCall_def split: option.splits)
  have b: "\<forall>c \<in> set ''   ''. is_space c" by (simp add: is_space_def)
  show ?thesis
    using a b
      processTurn_blank [OF a, of "Text ''   ''" "turn_says ''Tell me more.''"]
      processTurn_blank [OF a, of NoText "turn_says ''Tell me more.''"]
    by (simp add: list_all_iff)
qed

text \<open>
  C5.  When \<open>endCall\<close> answers \<open>completed\<close>, the call is no longer in the registry, and
  another \<open>endCall\<close> for the same call id answers \<open>NotFound\<close> and changes nothing.
  \<open>endCall\<close> for a call id that is not registered answers \<open>NotFound\<close> and changes nothing.
\<close>

theorem endCall_removes_call:
  "(endCall env w cid = (Completed, w') \<longrightarrow>
      getActiveCall (calls w') cid = None \<and> endCall env' w' cid = (NotFound, w')) \<and>
   (getActiveCall (calls w) cid = None \<longrightarrow> endCall env w cid = (NotFound, w))"
proof -
  have absent: "getActiveCall (calls v) cid = None \<Longrightarrow> endCall e v cid = (NotFound, v)" for e v
    by (simp add: endCall_def)
  have "getActiveCall (calls w') cid = None" if "endCall env w cid = (Completed, w')"
  proof -
    have "finalizeCall env w cid = (Inr (), w')"
      using that by (auto simp: endCall_def split: option.splits prod.splits sum.splits)
    then show ?thesis
      using finalizeCall_removes by (simp add: getActiveCall_def)
  qed
  then show ?thesis using absent by blast
qed

theorem endCall_removes_call_witness:
  "fst (endCall storage_ok world_greeted ''c1'') = Completed \<and>
   getActiveCall (calls (snd (endCall storage_ok world_greeted ''c1''))) ''c1'' = None \<and>
   endCall storage_ok (snd (endCall storage_ok world_greeted ''c1'')) ''c1'' =
     (NotFound, snd (endCall storage_ok world_greeted ''c1'')) \<and>
   getActiveCall (calls world_greeted) ''c9'' = None \<and>
   endCall storage_ok world_greeted ''c9'' = (NotFound, world_greeted)"
proof -
  have reg: "getActiveCall (calls world_greeted) ''c1'' = Some 0"
    using world_greeted_call by simp
  have f: "fst (endCall storage_ok world_greeted ''c1'') = Completed"
    by (rule endCall_storage_ok(1) [OF reg])
  have e: "endCall storage_ok world_greeted ''c1'' =
             (Completed, snd (endCall storage_ok world_greeted ''c1''))"
    using f by (metis prod.collapse)
  have n: "getActiveCall (calls world_greeted) ''c9'' = None"
    by (simp add: world_greeted_def calls_greeted_def calls_one_def createActiveCall_def
          initial_calls_def addTranscriptSegment_def lookupCall_def getActiveCall_def Let_def)
  show ?thesis
    using f n
      endCall_removes_call [of storage_ok world_greeted "''c1''"
        "snd (endCall storage_ok world_greeted ''c1'')" storage_ok]
      endCall_removes_call [of storage_ok world_greeted "''c9''" world_greeted storage_ok]
      e
    by simp
qed

text \<open>
  C10 (as stated: in every voice turn with a text that is not blank, the \<open>turnIndex\<close> of
  each published event is the call's \<open>turnIndex\<close> after the append of the segment it
  reports, one greater than the index stored in that segment).  The event is published
  whether or not the segment was stored.  When the call \<open>c1\<close> is ended while the turn
  waits for the chat model, the agent's segment is not stored (the transcript holds the
  greeting and the caller's segment, with the indices 0 and 1), and the agent's event is
  published all the same, with the \<open>turnIndex\<close> 2 that the caller's event already carried.
\<close>

theorem broadcast_without_segment_counterexample:
  "getActiveCall (calls world_greeted) ''c1'' = Some 0 \<and>
   js_trim ''I am scared'' = ''I am scared'' \<and>
   snd (processTurn (turn_ended AwaitGeneration ''c1'' ''Tell me more.'') world_greeted ''c1''
          (Text ''I am scared'')) =
     after_agent (turn_ended AwaitGeneration ''c1'' ''Tell me more.'') 0 ''I am scared''
       world_greeted \<and>
   map seg_speaker
     (transcriptSegments
        (heap (calls (after_agent (turn_ended AwaitGeneration ''c1'' ''Tell me more.'') 0
                        ''I am scared'' world_greeted)) 0)) =
     [Agent, Caller] \<and>
   map seg_turnIndex
     (transcriptSegments
        (heap (calls (after_agent (turn_ended AwaitGeneration ''c1'' ''Tell me more.'') 0
                        ''I am scared'' world_greeted)) 0)) =
     [0, 1] \<and>
   transcript_events
     (published (hub (after_agent (turn_ended AwaitGeneration ''c1'' ''Tell me more.'') 0
                        ''I am scared'' world_greeted))) =
     [(Caller, 2), (Agent, 2)]"
proof -
  have reg: "getActiveCall (calls world_greeted) ''c1'' = Some 0"
    using world_greeted_call by simp
  have t: "js_trim ''I am scared'' \<noteq> []" by (simp add: scared_trim)
  have run: "snd (processTurn (turn_ended AwaitGeneration ''c1'' ''Tell me more.'')
                    world_greeted ''c1'' (Text ''I am scared'')) =
             after_agent (turn_ended AwaitGeneration ''c1'' ''Tell me more.'') 0 ''I am scared''
               world_greeted"
    unfolding processTurn_unfold [OF reg t] ended_generation(1) by simp
  show ?thesis
    using reg run by (simp add: scared_trim ended_generation(2,3))
qed

text \<open>
  C10 (amended).  In a voice turn the caller's segment is appended and its event is
  published without interruption once the classifications have returned, and likewise
  the agent's segment and event once the chat model has answered.  Whenever the call
  object is still the one registered under its id at that moment, exactly one segment is
  appended and exactly one event is published, and the \<open>turnIndex\<close> of the event is the
  \<open>turnIndex\<close> that the call has after the append, one greater than the index stored in
  the appended segment.  Whenever no call is registered under the id at that moment
  (the call was ended meanwhile), the registry is left as it is and the event is
  published with the \<open>turnIndex\<close> that the call object had before.
\<close>

theorem broadcast_turnIndex_one_ahead:
  "(registered r (when_classified env w) \<longrightarrow>
      (\<exists>s e.
         transcriptSegments (heap (calls (after_caller env r t w)) r) =
           transcriptSegments (heap (calls (when_classified env w)) r) @ [s] \<and>
         published (hub (after_caller env r t w)) =
           published (hub (when_classified env w)) @ [MsgTranscript e] \<and>
         seg_speaker s = Caller \<and> seg_text s = t \<and> ts_speaker e = Caller \<and> ts_text e = t \<and>
         ts_turnIndex e = turnIndex (heap (calls (after_caller env r t w)) r) \<and>
         ts_turnIndex e = seg_turnIndex s + 1)) \<and>
   (registered r (when_generated env r t w) \<longrightarrow>
      (\<exists>s e.
         transcriptSegments (heap (calls (after_agent env r t w)) r) =
           transcriptSegments (heap (calls (when_generated env r t w)) r) @ [s] \<and>
         published (hub (after_agent env r t w)) =
           published (hub (when_generated env r t w)) @ [MsgTranscript e] \<and>
         seg_speaker s = Agent \<and> seg_text s = fst (generated env r t w) \<and>
         ts_speaker e = Agent \<and> ts_text e = fst (generated env r t w) \<and>
         ts_turnIndex e = turnIndex (heap (calls (after_agent env r t w)) r) \<and>
         ts_turnIndex e = seg_turnIndex s + 1)) \<and>
   (gone r (when_classified env w) \<longrightarrow>
      (\<exists>e.
         calls (after_caller env r t w) = calls (when_classified env w) \<and>
         published (hub (after_caller env r t w)) =
           published (hub (when_classified env w)) @ [MsgTranscript e] \<and>
         ts_speaker e = Caller \<and> ts_text e = t \<and>
         ts_turnIndex e = turnIndex (heap (calls (when_classified env w)) r))) \<and>
   (gone r (when_generated env r t w) \<longrightarrow>
      (\<exists>e.
         calls (after_agent env r t w) = calls (when_generated env r t w) \<and>
         published (hub (after_agent env r t w)) =
           published (hub (when_generated env r t w)) @ [MsgTranscript e] \<and>
         ts_speaker e = Agent \<and> ts_text e = fst (generated env r t w) \<and>
         ts_turnIndex e = turnIndex (heap (calls (when_generated env r t w)) r)))"
proof (intro conjI impI)
  assume "registered r (when_classified env w)"
  then have reg: "getActiveCall (calls (when_classified env w))
                    (callId (heap (calls (when_classified env w)) r)) = Some r"
    by (simp add: registered_def)
  note c = caller_block_registered [OF reg, of env t, folded after_caller_def]
  show "\<exists>s e.
         transcriptSegments (heap (calls (after_caller env r t w)) r) =
           transcriptSegments (heap (calls (when_classified env w)) r) @ [s] \<and>
         published (hub (after_caller env r t w)) =
           published (hub (when_classified env w)) @ [MsgTranscript e] \<and>
         seg_speaker s = Caller \<and> seg_text s = t \<and> ts_speaker e = Caller \<and> ts_text e = t \<and>
         ts_turnIndex e = turnIndex (heap (calls (after_caller env r t w)) r) \<and>
         ts_turnIndex e = seg_turnIndex s + 1"
    by (simp add: c)
next
  assume "registered r (when_generated env r t w)"
  then have reg: "getActiveCall (calls (when_generated env r t w))
                    (callId (heap (calls (when_generated env r t w)) r)) = Some r"
    by (simp add: registered_def)
  note a = agent_block_registered [OF reg, of env "fst (generated env r t w)",
    folded after_agent_def]
  show "\<exists>s e.
         transcriptSegments (heap (calls (after_agent env r t w)) r) =
           transcriptSegments (heap (calls (when_generated env r t w)) r) @ [s] \<and>
         published (hub (after_agent env r t w)) =
           published (hub (when_generated env r t w)) @ [MsgTranscript e] \<and>
         seg_speaker s = Agent \<and> seg_text s = fst (generated env r t w) \<and>
         ts_speaker e = Agent \<and> ts_text e = fst (generated env r t w) \<and>
         ts_turnIndex e = turnIndex (heap (calls (after_agent env r t w)) r) \<and>
         ts_turnIndex e = seg_turnIndex s + 1"
    by (simp add: a)
next
  assume "gone r (when_classified env w)"
  then have g: "getActiveCall (calls (when_classified env w))
                  (callId (heap (calls (when_classified env w)) r)) = None"
    by (simp add: gone_def)
  note c = caller_block_unregistered [OF g, of env t, folded after_caller_def]
  show "\<exists>e.
         calls (after_caller env r t w) = calls (when_classified env w) \<and>
         published (hub (after_caller env r t w)) =
           published (hub (when_classified env w)) @ [MsgTranscript e] \<and>
         ts_speaker e = Caller \<and> ts_text e = t \<and>
         ts_turnIndex e = turnIndex (heap (calls (when_classified env w)) r)"
    by (simp add: c)
next
  assume "gone r (when_generated env r t w)"
  then have g: "getActiveCall (calls (when_generated env r t w))
                  (callId (heap (calls (when_generated env r t w)) r)) = None"
    by (simp add: gone_def)
  note a = agent_block_unregistered [OF g, of env "fst (generated env r t w)",
    folded after_agent_def]
  show "\<exists>e.
         calls (after_agent env r t w) = calls (when_generated env r t w) \<and>
         published (hub (after_agent env r t w)) =
           published (hub (when_generated env r t w)) @ [MsgTranscript e] \<and>
         ts_speaker e = Agent \<and> ts_text e = fst (generated env r t w) \<and>
         ts_turnIndex e = turnIndex (heap (calls (when_generated env r t w)) r)"
    by (simp add: a)
qed

theorem broadcast_turnIndex_one_ahead_witness:
  "registered 0 (when_classified (turn_says ''Tell me more.'') world_greeted) \<and>
   registered 0 (when_generated (turn_says ''Tell me more.'') 0 ''I am scared'' world_greeted) \<and>
   map seg_turnIndex
     (transcriptSegments
        (heap (calls (after_agent (turn_says ''Tell me more.'') 0 ''I am scared''
                        world_greeted)) 0)) = [0, 1, 2] \<and>
   transcript_events
     (published (hub (after_agent (turn_says ''Tell me more.'') 0 ''I am scared''
                        world_greeted))) = [(Caller, 2), (Agent, 3)] \<and>
   (\<exists>s e. last (transcriptSegments
                  (heap (calls (after_agent (turn_says ''Tell me more.'') 0 ''I am scared''
                                  world_greeted)) 0)) = s \<and>
          last (published (hub (after_agent (turn_says ''Tell me more.'') 0 ''I am scared''
                                  world_greeted))) = MsgTranscript e \<and>
          ts_turnIndex e = seg_turnIndex s + 1) \<and>
   gone 0 (when_generated (turn_ended AwaitGeneration ''c1'' ''Tell me more.'') 0 ''I am scared''
             world_greeted) \<and>
   transcript_events
     (published (hub (after_agent (turn_ended AwaitGeneration ''c1'' ''Tell me more.'') 0
                        ''I am scared'' world_greeted))) = [(Caller, 2), (Agent, 2)] \<and>
   gone 0 (when_classified (turn_ended AwaitOverall ''c1'' ''Tell me more.'') world_greeted) \<and>
   transcript_events
     (published (hub (after_caller (turn_ended AwaitOverall ''c1'' ''Tell me more.'') 0
                        ''I am scared'' world_greeted))) = [(Caller, 1)] \<and>
   registered 0 (when_generated (turn_interleaved ''c1'') 0 ''I am scared'' world_greeted) \<and>
   map seg_turnIndex
     (transcriptSegments
        (heap (calls (after_agent (turn_interleaved ''c1'') 0 ''I am scared'' world_greeted)) 0)) =
     [0, 1, 2, 3, 4] \<and>
   transcript_events
     (published (hub (after_agent (turn_interleaved ''c1'') 0 ''I am scared'' world_greeted))) =
     [(Caller, 2), (Caller, 3), (Agent, 4), (Agent, 5)]"
proof -
  let ?Q = "turn_says ''Tell me more.''"
  note r1 = quiet_registered(1) and r2 = quiet_registered(2)
  have ex: "\<exists>s e. last (transcriptSegments
                  (heap (calls (after_agent ?Q 0 ''I am scared'' world_greeted)) 0)) = s \<and>
          last (published (hub (after_agent ?Q 0 ''I am scared'' world_greeted))) =
            MsgTranscript e \<and>
          ts_turnIndex e = seg_turnIndex s + 1"
    using broadcast_turnIndex_one_ahead [of 0 ?Q world_greeted "''I am scared''"] r1 r2
    by force
  have g1: "gone 0 (when_generated (turn_ended AwaitGeneration ''c1'' ''Tell me more.'') 0
              ''I am scared'' world_greeted)"
    by (rule ended_generation(4))
  have g2: "gone 0 (when_classified (turn_ended AwaitOverall ''c1'' ''Tell me more.'')
              world_greeted)"
    by (rule ended_classification(1))
  show ?thesis
    using r1 r2 ex g1 g2
    by (simp add: quiet_after_agent ended_generation(3) ended_classification(3)
          interleaved_turn)
qed

section \<open>Rounding to a double\<close>

lemma round_even_error: "\<bar>of_int (round_even y) - y\<bar> \<le> 1/2"
  unfolding round_even_def Let_def by (auto; linarith)

lemma binade_bounds:
  assumes "2 powi (- int n) \<le> x" and "x < 2 ^ Suc n"
  shows "2 powi (binade n x) \<le> x \<and> x < 2 powi (binade n x + 1)"
  using assms
proof (induction n arbitrary: x)
  case 0
  then show ?case by simp
next
  case (Suc n)
  show ?case
  proof (cases "2 \<le> x")
    case True
    have lo: "(2::real) powi (- int n) \<le> 1"
      by (simp add: power_int_minus field_simps)
    have "2 powi (- int n) \<le> x / 2" using True lo by linarith
    moreover have "x / 2 < 2 ^ Suc n" using Suc.prems(2) by simp
    ultimately have "2 powi (binade n (x / 2)) \<le> x / 2 \<and> x / 2 < 2 powi (binade n (x / 2) + 1)"
      by (rule Suc.IH)
    then show ?thesis using True by (simp add: power_int_add)
  next
    case False
    show ?thesis
    proof (cases "x < 1")
      case True
      have "- int (Suc n) = - int n - 1" by simp
      then have "(2::real) powi (- int (Suc n)) = 2 powi (- int n - 1)"
        by (rule arg_cong)
      then have "(2::real) powi (- int (Suc n)) * 2 = 2 powi (- int n)"
        by (simp add: power_int_diff)
      then have "2 powi (- int n) \<le> x * 2" using Suc.prems(1) by linarith
      moreover have "x * 2 < 2 ^ Suc n"
      proof -
        have "(2::real) \<le> 2 ^ Suc n" by (simp add: self_le_power)
        then show ?thesis using True by linarith
      qed
      ultimately have "2 powi (binade n (x * 2)) \<le> x * 2 \<and> x * 2 < 2 powi (binade n (x * 2) + 1)"
        by (rule Suc.IH)
      then show ?thesis using True by (simp add: power_int_add power_int_diff)
    next
      case False
      then show ?thesis using \<open>\<not> 2 \<le> x\<close> by simp
    qed
  qed
qed


lemma fl_zero: "fl 0 = 0"
  by (simp add: fl_def)

lemma fl_error:
  assumes lo: "2 powi (- 1100) \<le> x" and hi: "x < 2 ^ 1101"
  shows "\<bar>fl x - x\<bar> \<le> x / 2 ^ 53"
proof -
  have "(0::real) < 2 powi (- 1100)" by simp
  then have pos: "0 < x" using lo by linarith
  define e where "e = binade 1100 x"
  define u :: real where "u = 2 powi (e - 52)"
  have "2 powi (- int 1100) \<le> x" and "x < 2 ^ Suc 1100" using lo hi by simp_all
  then have "2 powi (binade 1100 x) \<le> x \<and> x < 2 powi (binade 1100 x + 1)"
    by (rule binade_bounds)
  then have b: "2 powi e \<le> x" by (simp add: e_def)
  have upos: "0 < u" by (simp add: u_def)
  have ue: "u * 2 ^ 52 = 2 powi e" by (simp add: u_def power_int_diff)
  have flx: "fl x = of_int (round_even (x / u)) * u"
    using pos by (simp add: fl_def Let_def u_def e_def)
  have "fl x - x = (of_int (round_even (x / u)) - x / u) * u"
    using upos by (simp add: flx field_simps)
  then have "\<bar>fl x - x\<bar> = \<bar>of_int (round_even (x / u)) - x / u\<bar> * u"
    using upos by (simp add: abs_mult)
  also have "\<dots> \<le> (1/2) * u"
    using round_even_error [of "x / u"] upos by (intro mult_right_mono) simp_all
  also have "\<dots> \<le> x / 2 ^ 53"
  proof -
    have "u * 2 ^ 52 \<le> x" using b ue by simp
    then show ?thesis by (simp add: field_simps)
  qed
  finally show ?thesis .
qed

lemma fl_error_range:
  assumes "1 / 2 ^ 40 \<le> x" and "x \<le> 256"
  shows "\<bar>fl x - x\<bar> \<le> x / 2 ^ 53"
proof (rule fl_error)
  have "(2::real) powi (- 1100) \<le> 1 / 2 ^ 40"
    by (simp add: power_int_minus field_simps)
  then show "2 powi (- 1100) \<le> x" using assms(1) by linarith
  have "(256::real) < 2 ^ 1101" by simp
  then show "x < 2 ^ 1101" using assms(2) by linarith
qed

lemma js_round_pct:
  fixes c t :: nat
  assumes c: "0 < c" and ct: "c \<le> t" and t: "t < 2 ^ 32"
  defines "r \<equiv> js_round (fl (fl (real c / real t) * 100))"
  shows "\<bar>real_of_int r - 100 * real c / real t\<bar> \<le> 1/2" and "0 \<le> r" and "r \<le> 100"
proof -
  define x0 where "x0 = real c / real t"
  define q where "q = fl x0"
  define p where "p = fl (q * 100)"
  define y where "y = 100 * real c / real t"
  have tpos: "0 < real t" using c ct by simp
  have x0_hi: "x0 \<le> 1" using ct tpos by (simp add: x0_def)
  have x0_lo: "1 / 2 ^ 32 \<le> x0"
  proof -
    have "real t \<le> 2 ^ 32" using t by (simp add: less_imp_le flip: of_nat_le_iff)
    moreover have "1 \<le> real c" using c by simp
    ultimately have "real t \<le> real c * 2 ^ 32"
      by (smt (verit) mult_right_mono mult_cancel_right1 zero_le_power)
    then show ?thesis using tpos by (simp add: x0_def field_simps)
  qed
  have eq: "\<bar>q - x0\<bar> \<le> x0 / 2 ^ 53"
    unfolding q_def using x0_lo x0_hi by (intro fl_error_range) simp_all
  have x0_pos: "0 < x0" using c tpos by (simp add: x0_def)
  have "x0 / 2 ^ 53 \<le> x0 / 2" using x0_pos by (simp add: field_simps)
  then have q_lo: "x0 / 2 \<le> q" and q_hi: "q \<le> 2 * x0"
    using eq x0_pos by linarith+
  have ep: "\<bar>p - q * 100\<bar> \<le> q * 100 / 2 ^ 53"
    unfolding p_def using q_lo q_hi x0_lo x0_hi by (intro fl_error_range) simp_all
  have y: "y = x0 * 100" by (simp add: y_def x0_def)
  have "\<bar>p - y\<bar> \<le> \<bar>p - q * 100\<bar> + \<bar>q * 100 - x0 * 100\<bar>"
    unfolding y by linarith
  also have "\<dots> \<le> q * 100 / 2 ^ 53 + 100 * (x0 / 2 ^ 53)"
  proof -
    have "\<bar>q * 100 - x0 * 100\<bar> = \<bar>(q - x0) * 100\<bar>" by (simp add: algebra_simps)
    also have "\<dots> = \<bar>q - x0\<bar> * 100" by (simp only: abs_mult abs_numeral)
    finally show ?thesis using ep eq by linarith
  qed
  also have "\<dots> \<le> 300 / 2 ^ 53"
  proof -
    have "q * 100 / 2 ^ 53 \<le> 200 / 2 ^ 53" using q_hi x0_hi by (simp add: field_simps)
    moreover have "100 * (x0 / 2 ^ 53) \<le> 100 / 2 ^ 53" using x0_hi by (simp add: field_simps)
    ultimately show ?thesis by linarith
  qed
  finally have py: "\<bar>p - y\<bar> \<le> 300 / 2 ^ 53" .
  have r: "r = \<lfloor>p + 1/2\<rfloor>" by (simp add: r_def js_round_def p_def q_def x0_def)
  have r1: "real_of_int r \<le> p + 1/2" and r2: "p + 1/2 < real_of_int r + 1"
    unfolding r by linarith+
  define z :: int where "z = 2 * int t * r - 200 * int c"
  have zr: "real_of_int z = 2 * real t * (real_of_int r - y)"
    using tpos by (simp add: z_def y_def field_simps)
  have tt: "2 * real t * (300 / 2 ^ 53) < 1"
  proof -
    have "real t < 2 ^ 32" using t by (simp flip: of_nat_less_iff)
    then show ?thesis by simp
  qed
  have "\<bar>real_of_int r - y\<bar> \<le> 1/2 + 300 / 2 ^ 53"
    using r1 r2 py by linarith
  then have "\<bar>real_of_int z\<bar> \<le> 2 * real t * (1/2 + 300 / 2 ^ 53)"
    unfolding zr using tpos by (simp add: abs_mult)
  also have "\<dots> < real t + 1" using tt by (simp add: algebra_simps)
  finally have "\<bar>z\<bar> < int t + 1" by linarith
  then have "\<bar>z\<bar> \<le> int t" by simp
  then have "\<bar>real_of_int z\<bar> \<le> real t" by linarith
  then have "2 * real t * \<bar>real_of_int r - y\<bar> \<le> real t"
    unfolding zr using tpos by (simp add: abs_mult)
  then have main: "\<bar>real_of_int r - y\<bar> \<le> 1/2" using tpos by simp
  then show "\<bar>real_of_int r - 100 * real c / real t\<bar> \<le> 1/2" by (simp add: y_def)
  have y_pos: "0 < y" and y_hi: "y \<le> 100" using x0_lo x0_hi unfolding y by simp_all
  show "0 \<le> r" using main y_pos by linarith
  show "r \<le> 100" using main y_hi by linarith
qed

lemma profile_value_error:
  fixes c t :: nat
  assumes c: "0 < c" and ct: "c \<le> t" and t: "t < 2 ^ 32"
  shows "\<exists>r::nat. r \<le> 100 \<and> profile_value c t = fl (real r / 100) \<and>
           \<bar>real r / 100 - real c / real t\<bar> \<le> 1/200 \<and>
           \<bar>profile_value c t - real c / real t\<bar> \<le> 1/200 + 1 / 2 ^ 53"
proof -
  define r where "r = js_round (fl (fl (real c / real t) * 100))"
  note facts = js_round_pct [OF c ct t, folded r_def]
  define n where "n = nat r"
  have rn: "real_of_int r = real n" using facts(2) by (simp add: n_def)
  have n100: "n \<le> 100" using facts(3) by (simp add: n_def)
  have pv: "profile_value c t = fl (real n / 100)"
    by (simp add: profile_value_def r_def [symmetric] rn)
  have near: "\<bar>real n / 100 - real c / real t\<bar> \<le> 1/200"
    using facts(1) by (simp add: rn abs_le_iff field_simps)
  have flerr: "\<bar>fl (real n / 100) - real n / 100\<bar> \<le> 1 / 2 ^ 53"
  proof (cases "n = 0")
    case True
    then show ?thesis by (simp add: fl_zero)
  next
    case False
    then have lo: "1 / 100 \<le> real n / 100" by simp
    have hi: "real n / 100 \<le> 1" using n100 by simp
    have "\<bar>fl (real n / 100) - real n / 100\<bar> \<le> (real n / 100) / 2 ^ 53"
      using lo hi by (intro fl_error_range) simp_all
    also have "\<dots> \<le> 1 / 2 ^ 53" using hi by (simp add: field_simps)
    finally show ?thesis .
  qed
  have "\<bar>profile_value c t - real c / real t\<bar> \<le> 1/200 + 1 / 2 ^ 53"
    unfolding pv using near flerr by linarith
  then show ?thesis using n100 pv near by blast
qed

section \<open>Counting labels in the profile object\<close>

lemma insert_key_keys: "set (map fst (insert_key k v ps)) = insert k (set (map fst ps))"
  by (induction k v ps rule: insert_key.induct) auto

lemma insert_key_distinct:
  "k \<notin> set (map fst ps) \<Longrightarrow> distinct (map fst ps) \<Longrightarrow> distinct (map fst (insert_key k v ps))"
proof (induction k v ps rule: insert_key.induct)
  case (1 k v)
  then show ?case by simp
next
  case (2 k v k' v' ps)
  have keys: "set (map fst (insert_key k v ps)) = insert k (set (map fst ps))"
    by (rule insert_key_keys)
  show ?case
  proof (cases "listed_before k k'")
    case True
    then show ?thesis using 2 by simp
  next
    case False
    have "distinct (map fst (insert_key k v ps))" using 2 False by simp
    moreover have "k' \<notin> set (map fst (insert_key k v ps))"
      unfolding keys using "2.prems" by auto
    ultimately show ?thesis using False by simp
  qed
qed

lemma insert_key_map_of:
  "k \<notin> set (map fst ps) \<Longrightarrow> map_of (insert_key k v ps) = (map_of ps)(k \<mapsto> v)"
  by (induction k v ps rule: insert_key.induct) (auto simp: fun_upd_twist)

lemma increment_keys: "map fst (increment k ps) = map fst ps"
  by (induction k ps rule: increment.induct) simp_all

lemma increment_map_of:
  "map_of ps k = Some v \<Longrightarrow> map_of (increment k ps) = (map_of ps)(k \<mapsto> plus_one v)"
  by (induction k ps rule: increment.induct) (auto simp: fun_eq_iff)

text \<open>One more label that is not the name of a member of \<open>Object.prototype\<close>.\<close>

lemma bump_counts:
  assumes safe: "\<not> inherited l"
    and d: "distinct (map fst ps)"
    and m: "\<And>k. map_of ps k =
                 (if k \<in> set ls then Some (Count (count_list ls k)) else None)"
  shows "distinct (map fst (bump l ps))"
    and "map_of (bump l ps) k =
           (if k \<in> set (ls @ [l]) then Some (Count (count_list (ls @ [l]) k)) else None)"
proof -
  have keys: "set (map fst ps) = set ls"
  proof -
    have "dom (map_of ps) = set ls" using m by (auto simp: dom_def)
    then show ?thesis by (simp add: dom_map_of_conv_image_fst)
  qed
  have np: "l \<noteq> ''__proto__''" and nm: "l \<notin> set prototype_methods"
    using safe by (simp_all add: inherited_def)
  show "distinct (map fst (bump l ps))"
    using d keys np nm
    by (simp add: bump_def increment_keys insert_key_distinct)
  show "map_of (bump l ps) k =
           (if k \<in> set (ls @ [l]) then Some (Count (count_list (ls @ [l]) k)) else None)"
  proof (cases "l \<in> set ls")
    case True
    then have b: "bump l ps = increment l ps" using keys by (simp add: bump_def)
    have "map_of ps l = Some (Count (count_list ls l))" using m True by simp
    then have "map_of (increment l ps) = (map_of ps)(l \<mapsto> Count (count_list ls l + 1))"
      using increment_map_of [of ps l] by simp
    then show ?thesis using True by (simp add: b m)
  next
    case False
    then have b: "bump l ps = insert_key l (Count 1) ps"
      using keys np nm by (simp add: bump_def)
    have "map_of (insert_key l (Count 1) ps) = (map_of ps)(l \<mapsto> Count 1)"
      using False keys by (intro insert_key_map_of) simp
    then show ?thesis using False by (simp add: b m)
  qed
qed

lemma fold_bump_counts:
  assumes "\<forall>l \<in> set ls. \<not> inherited l"
  shows "distinct (map fst (fold bump ls [])) \<and>
         (\<forall>k. map_of (fold bump ls []) k =
                (if k \<in> set ls then Some (Count (count_list ls k)) else None))"
  using assms
proof (induction ls rule: rev_induct)
  case Nil
  then show ?case by simp
next
  case (snoc l ls)
  have ih: "distinct (map fst (fold bump ls []))"
    "\<And>k. map_of (fold bump ls []) k =
           (if k \<in> set ls then Some (Count (count_list ls k)) else None)"
    using snoc by simp_all
  have safe: "\<not> inherited l" using snoc.prems by simp
  show ?case
    using bump_counts [OF safe ih] by simp
qed

lemma fold_bump_entry:
  assumes "\<forall>l \<in> set ls. \<not> inherited l" and "(k, v) \<in> set (fold bump ls [])"
  shows "k \<in> set ls \<and> v = Count (count_list ls k) \<and> 0 < count_list ls k \<and>
         count_list ls k \<le> length ls"
proof -
  have d: "distinct (map fst (fold bump ls []))"
    and m: "map_of (fold bump ls []) k =
              (if k \<in> set ls then Some (Count (count_list ls k)) else None)"
    using fold_bump_counts [OF assms(1)] by simp_all
  have "map_of (fold bump ls []) k = Some v"
    using assms(2) by (simp add: map_of_eq_Some_iff [OF d])
  then have k: "k \<in> set ls" and v: "v = Count (count_list ls k)"
    unfolding m by (auto split: if_splits)
  moreover have "0 < count_list ls k" using k count_list_0_iff [of ls k] by auto
  moreover have "count_list ls k \<le> length ls" by (rule count_le_length)
  ultimately show ?thesis by simp
qed

lemma fold_bump_keys:
  assumes "\<forall>l \<in> set ls. \<not> inherited l"
  shows "set (map fst (fold bump ls [])) = set ls"
proof -
  have "dom (map_of (fold bump ls [])) = set ls"
    using fold_bump_counts [OF assms] by (auto simp: dom_def)
  then show ?thesis by (simp add: dom_map_of_conv_image_fst)
qed

lemma fold_bump_total:
  assumes "\<forall>l \<in> set ls. \<not> inherited l"
  shows "sum_list (map (\<lambda>(k, v). count_of v) (fold bump ls [])) = length ls"
proof -
  define ps where "ps = fold bump ls []"
  have d: "distinct (map fst ps)"
    using fold_bump_counts [OF assms] by (simp add: ps_def)
  have "count_of v = count_list ls k" if "(k, v) \<in> set ps" for k v
    using fold_bump_entry [OF assms, of k v] that by (simp add: ps_def)
  then have "map (\<lambda>(k, v). count_of v) ps = map (count_list ls) (map fst ps)"
    by auto
  then have "sum_list (map (\<lambda>(k, v). count_of v) ps) = sum_list (map (count_list ls) (map fst ps))"
    by (rule arg_cong)
  also have "\<dots> = sum (count_list ls) (set (map fst ps))"
    using d by (rule sum_list_distinct_conv_sum_set)
  also have "\<dots> = sum (count_list ls) (set ls)"
    using fold_bump_keys [OF assms] by (simp add: ps_def)
  also have "\<dots> = length ls"
    by (rule sum_count_set) simp_all
  finally show ?thesis by (simp add: ps_def)
qed

lemma sum_profile_bound:
  fixes cs :: "(string \<times> nat) list"
  assumes "\<forall>p \<in> set cs. 0 < snd p \<and> snd p \<le> t" and "t < 2 ^ 32"
  shows "\<bar>sum_list (map (\<lambda>(k, c). profile_value c t) cs) -
          real (sum_list (map snd cs)) / real t\<bar>
         \<le> real (length cs) * (1/200 + 1 / 2 ^ 53)"
  using assms(1)
proof (induction cs)
  case Nil
  then show ?case by simp
next
  case (Cons p cs)
  obtain k c where p: "p = (k, c)" by (cases p)
  have c: "0 < c" "c \<le> t" using Cons.prems by (simp_all add: p)
  have one: "\<bar>profile_value c t - real c / real t\<bar> \<le> 1/200 + 1 / 2 ^ 53"
    using profile_value_error [OF c assms(2)] by blast
  have rest: "\<bar>sum_list (map (\<lambda>(k, c). profile_value c t) cs) -
          real (sum_list (map snd cs)) / real t\<bar>
         \<le> real (length cs) * (1/200 + 1 / 2 ^ 53)"
    using Cons.prems by (intro Cons.IH) simp
  have "sum_list (map (\<lambda>(k, c). profile_value c t) (p # cs)) -
          real (sum_list (map snd (p # cs))) / real t =
        (profile_value c t - real c / real t) +
        (sum_list (map (\<lambda>(k, c). profile_value c t) cs) -
          real (sum_list (map snd cs)) / real t)"
    by (simp add: p add_divide_distrib)
  moreover have "real (length (p # cs)) * (1/200 + 1 / 2 ^ 53) =
                 (1/200 + 1 / 2 ^ 53) + real (length cs) * (1/200 + 1 / 2 ^ 53)"
    by (simp add: algebra_simps)
  ultimately show ?case using one rest by linarith
qed

lemma safe_profile:
  assumes ne: "labels \<noteq> []" and len: "length labels < 2 ^ 32"
    and safe: "\<forall>l \<in> set labels. \<not> inherited l"
  shows "distinct (map fst (normalise_profile (fold bump labels [])))"
    and "fst ` set (normalise_profile (fold bump labels [])) = set labels"
    and "\<forall>p \<in> set (normalise_profile (fold bump labels [])).
           snd p = Number (profile_value (count_list labels (fst p)) (length labels)) \<and>
           (\<exists>r::nat. r \<le> 100 \<and> snd p = Number (fl (real r / 100)) \<and>
              \<bar>real r / 100 - real (count_list labels (fst p)) / real (length labels)\<bar> \<le> 1/200)"
    and "\<exists>vs. map snd (normalise_profile (fold bump labels [])) = map Number vs \<and>
              \<bar>sum_list vs - 1\<bar>
                \<le> real (length (normalise_profile (fold bump labels []))) * (1/200 + 1 / 2 ^ 53)"
    and "set labels \<subseteq> set emotion_labels \<Longrightarrow>
         length (normalise_profile (fold bump labels [])) \<le> 7"
proof -
  define counts where "counts = fold bump labels []"
  define n where "n = length labels"
  define cs where "cs = map (\<lambda>(k, v). (k, count_of v)) counts"
  have npos: "0 < n" using ne by (simp add: n_def)
  have entry: "k \<in> set labels \<and> v = Count (count_list labels k) \<and> 0 < count_list labels k \<and>
               count_list labels k \<le> n"
    if "(k, v) \<in> set counts" for k v
    using fold_bump_entry [OF safe, of k v] that by (simp add: counts_def n_def)
  have no: "\<not> list_ex (\<lambda>(k, v). v = FunctionText) counts"
    using entry by (auto simp: list_ex_iff)
  have total: "sum_list (map (\<lambda>(k, v). count_of v) counts) = n"
    using fold_bump_total [OF safe] by (simp add: counts_def n_def)
  have prof: "normalise_profile counts =
              map (\<lambda>(k, v). (k, Number (profile_value (count_of v) n))) counts"
    unfolding normalise_profile_def Let_def total if_not_P [OF no] using npos by simp
  have keys: "map fst (normalise_profile counts) = map fst counts"
    by (simp add: prof case_prod_unfold comp_def)
  have vals: "map snd (normalise_profile counts) =
              map Number (map (\<lambda>(k, c). profile_value c n) cs)"
    by (simp add: prof cs_def case_prod_unfold comp_def)
  have d: "distinct (map fst counts)"
    using fold_bump_counts [OF safe] by (simp add: counts_def)
  show "distinct (map fst (normalise_profile (fold bump labels [])))"
    unfolding counts_def [symmetric] keys by (rule d)
  have ks: "set (map fst (normalise_profile counts)) = set labels"
    unfolding keys using fold_bump_keys [OF safe] by (simp add: counts_def)
  then show "fst ` set (normalise_profile (fold bump labels [])) = set labels"
    by (simp add: counts_def)
  show "\<forall>p \<in> set (normalise_profile (fold bump labels [])).
           snd p = Number (profile_value (count_list labels (fst p)) (length labels)) \<and>
           (\<exists>r::nat. r \<le> 100 \<and> snd p = Number (fl (real r / 100)) \<and>
              \<bar>real r / 100 - real (count_list labels (fst p)) / real (length labels)\<bar> \<le> 1/200)"
  proof
    fix p assume "p \<in> set (normalise_profile (fold bump labels []))"
    then obtain k v where kv: "(k, v) \<in> set counts"
      and p: "p = (k, Number (profile_value (count_of v) n))"
      by (auto simp: counts_def [symmetric] prof)
    note e = entry [OF kv]
    have c: "0 < count_list labels k" "count_list labels k \<le> n" "n < 2 ^ 32"
      using e len by (simp_all add: n_def)
    obtain r :: nat where "r \<le> 100"
      "profile_value (count_list labels k) n = fl (real r / 100)"
      "\<bar>real r / 100 - real (count_list labels k) / real n\<bar> \<le> 1/200"
      using profile_value_error [OF c] by blast
    then show "snd p = Number (profile_value (count_list labels (fst p)) (length labels)) \<and>
           (\<exists>r::nat. r \<le> 100 \<and> snd p = Number (fl (real r / 100)) \<and>
              \<bar>real r / 100 - real (count_list labels (fst p)) / real (length labels)\<bar> \<le> 1/200)"
      using e by (auto simp: p n_def)
  qed
  have "0 < count_of v \<and> count_of v \<le> n" if "(k, v) \<in> set counts" for k v
    using entry [OF that] by simp
  then have "\<forall>p \<in> set cs. 0 < snd p \<and> snd p \<le> n"
    by (auto simp: cs_def)
  then have "\<bar>sum_list (map (\<lambda>(k, c). profile_value c n) cs) -
          real (sum_list (map snd cs)) / real n\<bar>
         \<le> real (length cs) * (1/200 + 1 / 2 ^ 53)"
    using len by (intro sum_profile_bound) (simp_all add: n_def)
  moreover have "sum_list (map snd cs) = n"
    using total by (simp add: cs_def case_prod_unfold comp_def)
  moreover have "length (normalise_profile counts) = length cs"
    by (simp add: prof cs_def)
  ultimately have "\<bar>sum_list (map (\<lambda>(k, c). profile_value c n) cs) - 1\<bar>
         \<le> real (length (normalise_profile counts)) * (1/200 + 1 / 2 ^ 53)"
    using npos by simp
  then show "\<exists>vs. map snd (normalise_profile (fold bump labels [])) = map Number vs \<and>
              \<bar>sum_list vs - 1\<bar>
                \<le> real (length (normalise_profile (fold bump labels []))) * (1/200 + 1 / 2 ^ 53)"
    unfolding counts_def [symmetric] vals by blast
  show "length (normalise_profile (fold bump labels [])) \<le> 7"
    if known: "set labels \<subseteq> set emotion_labels"
  proof -
    have "length (normalise_profile counts) = length (map fst counts)"
      by (simp add: prof)
    also have "\<dots> = card (set (map fst counts))"
      using distinct_card [OF d] by simp
    finally have "length (normalise_profile counts) =
                  card (set (map fst (normalise_profile counts)))"
      by (simp only: keys)
    also have "\<dots> \<le> card (set emotion_labels)"
      unfolding ks using known by (intro card_mono) simp_all
    also have "\<dots> \<le> 7"
      by (simp add: emotion_labels_def emotionPatterns_def card_insert_if)
    finally show ?thesis by (simp add: counts_def)
  qed
qed

lemma emotion_labels_safe: "k \<in> set emotion_labels \<Longrightarrow> \<not> inherited k"
  by (auto simp: emotion_labels_def emotionPatterns_def inherited_def prototype_methods_def)

lemma map_enumerate_snd: "map (\<lambda>(i, s). f s) (enumerate n xs) = map f xs"
  by (induction xs arbitrary: n) simp_all

lemma map_enumerate_fst: "map (\<lambda>(i, s). g i) (enumerate n xs) = map g [n..<n + length xs]"
  by (induction xs arbitrary: n) (simp_all add: upt_rec)

lemma llmEmotionAnalysis_labels:
  assumes "filter (\<lambda>s. js_trim s \<noteq> []) (js_split transcript) \<noteq> []"
  shows "length (emotions (llmEmotionAnalysis reply transcript)) =
           length (filter (\<lambda>s. js_trim s \<noteq> []) (js_split transcript))"
    and "profile (llmEmotionAnalysis reply transcript) =
           normalise_profile
             (fold bump (map ea_emotion (emotions (llmEmotionAnalysis reply transcript))) [])"
proof -
  define segments where "segments = filter (\<lambda>s. js_trim s \<noteq> []) (js_split transcript)"
  have ne: "segments \<noteq> []" using assms by (simp add: segments_def)
  have kw: "map ea_emotion (emotions (simpleKeywordFallback transcript segments)) =
            map detect segments"
    by (simp add: simpleKeywordFallback_def comp_def case_prod_unfold)
       (simp add: map_enumerate_snd [of detect 0 segments, unfolded case_prod_unfold])
  have "length (emotions (llmEmotionAnalysis reply transcript)) = length segments \<and>
        profile (llmEmotionAnalysis reply transcript) =
           normalise_profile
             (fold bump (map ea_emotion (emotions (llmEmotionAnalysis reply transcript))) [])"
  proof (cases reply)
    case LlmFailed
    then have res: "llmEmotionAnalysis reply transcript = simpleKeywordFallback transcript segments"
      using ne by (simp add: llmEmotionAnalysis_def Let_def segments_def)
    show ?thesis
      unfolding res kw by (simp add: simpleKeywordFallback_def)
  next
    case (LlmResults results)
    define label where "label = (\<lambda>i. item_emotion (result_at results i))"
    have res: "llmEmotionAnalysis reply transcript =
          \<lparr>emotions =
             map (\<lambda>(i, segment).
                    \<lparr>ea_timestamp = i, ea_emotion = label i,
                     ea_confidence = item_confidence (result_at results i),
                     ea_text = js_trim segment\<rparr>)
                 (enumerate 0 segments),
           profile = normalise_profile (fold bump (map label [0..<length segments]) []),
           sentimentScore = sentiment_of (map label [0..<length segments]) (length segments)\<rparr>"
      using ne by (simp add: llmEmotionAnalysis_def Let_def segments_def LlmResults label_def)
    have "map ea_emotion (emotions (llmEmotionAnalysis reply transcript)) =
          map label [0..<length segments]"
      unfolding res
      by (simp add: comp_def case_prod_unfold)
         (simp add: map_enumerate_fst [of label 0 segments, unfolded case_prod_unfold])
    then show ?thesis by (simp add: res)
  qed
  then show "length (emotions (llmEmotionAnalysis reply transcript)) =
           length (filter (\<lambda>s. js_trim s \<noteq> []) (js_split transcript))"
    and "profile (llmEmotionAnalysis reply transcript) =
           normalise_profile
             (fold bump (map ea_emotion (emotions (llmEmotionAnalysis reply transcript))) [])"
    by (simp_all add: segments_def)
qed

lemma item_confidence_range: "0.3 \<le> item_confidence item \<and> item_confidence item \<le> 0.95"
  by (simp add: item_confidence_def)

lemma llmEmotionAnalysis_confidence_range:
  assumes "e \<in> set (emotions (llmEmotionAnalysis reply transcript))"
  shows "0.3 \<le> ea_confidence e \<and> ea_confidence e \<le> 0.95"
  using assms item_confidence_range
  by (auto simp: llmEmotionAnalysis_def simpleKeywordFallback_def Let_def
           split: if_splits llm_emotion_reply.splits)


lemma binade_numeral:
  "binade (numeral k) x =
     (if 2 \<le> x then binade (pred_numeral k) (x / 2) + 1
      else if x < 1 then binade (pred_numeral k) (x * 2) - 1 else 0)"
  by (simp add: numeral_eq_Suc)

lemma profile_value_third: "profile_value (Suc 0) (Suc (Suc (Suc 0))) = fl (33/100)"
proof -
  have b: "binade 1100 (1/3) = - 2" by (simp add: binade_numeral)
  have f: "fl (1/3) = 6004799503160661 / 18014398509481984"
    by (simp add: fl_def b round_even_def Let_def power_int_minus)
  have "js_round (fl (fl (1/3) * 100)) = 33"
    unfolding f
    by (simp add: fl_def binade_numeral round_even_def js_round_def Let_def power_int_minus)
  then show ?thesis by (simp add: profile_value_def)
qed

lemma split_example:
  "filter (\<lambda>s. js_trim s \<noteq> []) (js_split ''I am scared. Thank you! ok'') =
     [''I am scared'', '' Thank you'', '' ok'']"
  by (simp add: js_split_def js_trim_def is_space_def is_terminator_def)

lemma detect_example:
  "map detect [''I am scared'', '' Thank you'', '' ok''] =
     [''anxiety'', ''gratitude'', ''neutral'']"
  by (simp add: detect_def emotionPatterns_def is_word_char_def lower_code_def)

lemma profile_example:
  "profile (llmEmotionAnalysis LlmFailed ''I am scared. Thank you! ok'') =
     [(''anxiety'', Number (fl (33/100))), (''gratitude'', Number (fl (33/100))),
      (''neutral'', Number (fl (33/100)))]"
  using detect_example
  by (simp add: llmEmotionAnalysis_def split_example simpleKeywordFallback_def
        normalise_profile_def profile_value_third bump_def prototype_methods_def
        array_index_def is_digit_def listed_before_def)

lemma detect_range: "detect segment \<in> insert ''neutral'' (fst ` set emotionPatterns)"
proof (cases "filter (\<lambda>(emotion, alts). regex_test alts False segment) emotionPatterns")
  case Nil
  then show ?thesis by (simp add: detect_def)
next
  case (Cons p ps)
  then have "p \<in> set (filter (\<lambda>(emotion, alts). regex_test alts False segment) emotionPatterns)"
    by simp
  then have "p \<in> set emotionPatterns" by simp
  then have "fst p \<in> fst ` set emotionPatterns" by (rule imageI)
  moreover have "detect segment = fst p"
    using Cons by (simp add: detect_def split: prod.splits)
  ultimately show ?thesis by simp
qed

lemma detect_known: "detect segment \<in> set emotion_labels"
  using detect_range [of segment] by (auto simp: emotion_labels_def)

lemma chat_profile_example:
  "map ea_emotion
     (emotions (llmEmotionAnalysis (chat_labels [''hope'', ''hope'', ''neutral''])
                  ''I am scared. Thank you! ok'')) = [''hope'', ''hope'', ''neutral'']"
  using split_example
  by (simp add: llmEmotionAnalysis_def chat_labels_def result_at_def nth_opt_def
        item_emotion_def Let_def enumerate_eq_zip upt_rec)

text \<open>The label \<open>__proto__\<close>.\<close>

lemma proto_example:
  "emotions (llmEmotionAnalysis (chat_labels [''__proto__'']) ''I am scared'') =
     [\<lparr>ea_timestamp = 0, ea_emotion = ''__proto__'', ea_confidence = 0.9,
       ea_text = ''I am scared''\<rparr>] \<and>
   profile (llmEmotionAnalysis (chat_labels [''__proto__'']) ''I am scared'') = []"
  by (simp add: llmEmotionAnalysis_def scared_split scared_trim chat_labels_def result_at_def
        nth_opt_def item_emotion_def item_confidence_def bump_def normalise_profile_def)

text \<open>The label \<open>constructor\<close>, and a label that is an array index.\<close>

lemma constructor_example:
  "profile (llmEmotionAnalysis (chat_labels [''hope'', ''constructor''])
              ''I am scared. Thank you!'') =
     [(''hope'', NaN), (''constructor'', NaN)]"
proof -
  have "filter (\<lambda>s. js_trim s \<noteq> []) (js_split ''I am scared. Thank you!'') =
          [''I am scared'', '' Thank you'']"
    by (simp add: js_split_def js_trim_def is_space_def is_terminator_def)
  then show ?thesis
    by (simp add: llmEmotionAnalysis_def chat_labels_def result_at_def nth_opt_def
          item_emotion_def Let_def upt_rec normalise_profile_def bump_def prototype_methods_def
          array_index_def is_digit_def listed_before_def)
qed

lemma index_example:
  "map fst (profile (llmEmotionAnalysis (chat_labels [''hope'', ''7''])
                       ''I am scared. Thank you!'')) = [''7'', ''hope'']"
proof -
  have "filter (\<lambda>s. js_trim s \<noteq> []) (js_split ''I am scared. Thank you!'') =
          [''I am scared'', '' Thank you'']"
    by (simp add: js_split_def js_trim_def is_space_def is_terminator_def)
  then show ?thesis
    by (simp add: llmEmotionAnalysis_def chat_labels_def result_at_def nth_opt_def
          item_emotion_def Let_def upt_rec normalise_profile_def bump_def prototype_methods_def
          array_index_def is_digit_def digits_value_def listed_before_def)
qed

text \<open>Many different labels.\<close>

lemma many_sentences_split: "js_split (many_sentences n) = replicate n ''a'' @ [[]]"
proof -
  have keep: "dropWhile is_terminator (concat (replicate m ''a.'')) = concat (replicate m ''a.'')"
    for m by (cases m) (simp_all add: is_terminator_def)
  have "js_split_acc [] (concat (replicate n ''a.'')) = replicate n ''a'' @ [[]]"
    by (induction n) (simp_all add: is_terminator_def keep)
  then show ?thesis by (simp add: js_split_def many_sentences_def)
qed

lemma many_segments:
  "filter (\<lambda>s. js_trim s \<noteq> []) (js_split (many_sentences n)) = replicate n ''a''"
proof -
  have "js_trim ''a'' = ''a''" and "js_trim [] = []"
    by (simp_all add: js_trim_def is_space_def)
  then have "filter (\<lambda>s. js_trim s \<noteq> []) (replicate n ''a'') = replicate n ''a''"
    by (induction n) simp_all
  then show ?thesis
    by (simp add: many_sentences_split \<open>js_trim [] = []\<close>)
qed

lemma many_labels_facts:
  "length (many_labels n) = n"
  "distinct (many_labels n)"
  "\<forall>k \<in> set (many_labels n). \<not> inherited k"
  "i < n \<Longrightarrow> many_labels n ! i \<noteq> []"
  by (auto simp: many_labels_def distinct_map inj_on_def inherited_def prototype_methods_def)

lemma chat_labels_at:
  assumes "i < length ls" and "ls ! i \<noteq> []"
  shows "item_emotion (result_at (map (\<lambda>l. Some \<lparr>li_emotion = Some l, li_confidence = Some 0.9\<rparr>) ls) i)
         = ls ! i"
  using assms by (simp add: result_at_def nth_opt_def item_emotion_def)

lemma count_list_distinct: "distinct xs \<Longrightarrow> x \<in> set xs \<Longrightarrow> count_list xs x = Suc 0"
  by (induction xs) auto

lemma profile_value_small: "profile_value (Suc 0) 201 = 0"
proof -
  have b: "binade 1100 (1/201) = - 8" by (simp add: binade_numeral)
  have f: "fl (1/201) = 5735927883616154 / 1152921504606846976"
    by (simp add: fl_def b round_even_def Let_def power_int_minus)
  have "js_round (fl (fl (1/201) * 100)) = 0"
    unfolding f
    by (simp add: fl_def binade_numeral round_even_def js_round_def Let_def power_int_minus)
  then show ?thesis by (simp add: profile_value_def fl_zero)
qed

lemma many_example:
  assumes "0 < n" and "n < 2 ^ 32"
  shows "length (emotions (llmEmotionAnalysis (chat_labels (many_labels n)) (many_sentences n)))
           = n"
    and "map snd (profile (llmEmotionAnalysis (chat_labels (many_labels n)) (many_sentences n)))
           = replicate n (Number (profile_value (Suc 0) n))"
proof -
  let ?R = "llmEmotionAnalysis (chat_labels (many_labels n)) (many_sentences n)"
  let ?results = "map (\<lambda>l. Some \<lparr>li_emotion = Some l, li_confidence = Some 0.9\<rparr>) (many_labels n)"
  have labels: "map (\<lambda>i. item_emotion (result_at ?results i)) [0..<n] = many_labels n"
    by (rule nth_equalityI) (simp_all add: many_labels_facts chat_labels_at)
  have ne: "replicate n ''a'' \<noteq> []" using assms by simp
  have prof: "profile ?R = normalise_profile (fold bump (many_labels n) [])"
    and emo: "length (emotions ?R) = n"
    using ne labels
    by (simp_all add: llmEmotionAnalysis_def many_segments chat_labels_def Let_def)
  show "length (emotions ?R) = n" by (rule emo)
  have ne': "many_labels n \<noteq> []" using assms many_labels_facts(1) [of n] by auto
  have len: "length (many_labels n) < 2 ^ 32" using assms by (simp add: many_labels_facts)
  note s = safe_profile [OF ne' len many_labels_facts(3), folded prof]
  have "length (profile ?R) = card (set (map fst (profile ?R)))"
    using distinct_card [OF s(1)] by simp
  also have "\<dots> = card (set (many_labels n))" using s(2) by simp
  also have "\<dots> = n"
    using distinct_card [OF many_labels_facts(2), of n] by (simp add: many_labels_facts)
  finally have l: "length (profile ?R) = n" .
  have "\<forall>y \<in> set (map snd (profile ?R)). y = Number (profile_value (Suc 0) n)"
  proof
    fix y assume "y \<in> set (map snd (profile ?R))"
    then obtain p where p: "p \<in> set (profile ?R)" and y: "y = snd p" by auto
    have "fst p \<in> set (many_labels n)" using s(2) p by auto
    then have "count_list (many_labels n) (fst p) = Suc 0"
      by (intro count_list_distinct many_labels_facts)
    then show "y = Number (profile_value (Suc 0) n)"
      using bspec [OF s(3) p] by (simp add: y many_labels_facts)
  qed
  then have "replicate (length (map snd (profile ?R))) (Number (profile_value (Suc 0) n)) =
             map snd (profile ?R)"
    by (rule replicate_length_same)
  then show "map snd (profile ?R) = replicate n (Number (profile_value (Suc 0) n))"
    by (simp add: l)
qed

section \<open>Claims about the emotion classifier\<close>

text \<open>
  C7.  Every confidence in the result of \<open>analyzeEmotions\<close> is to lie in [0.3, 0.95] on
  every path.  The path through the chat model clamps each confidence to that interval
  and the keyword path produces 0.5 or 0.6 (\<open>llmEmotionAnalysis_confidence_range\<close>), but
  the path through the affect-analysis provider returns the provider's \<open>emotions\<close> as they
  are: with the API key set and a provider answer that carries one emotion of confidence
  0.99, the result of \<open>analyzeEmotions\<close> carries the confidence 0.99.
\<close>

theorem analyzeEmotions_provider_unclamped:
  "map ea_confidence
     (emotions (analyzeEmotions
        (provider_says [\<lparr>ea_timestamp = 0, ea_emotion = ''anxiety'', ea_confidence = 0.99,
                         ea_text = ''I am scared''\<rparr>])
        ''I am scared'')) = [0.99] \<and>
   \<not> (0.99 \<le> (0.95::real))"
  by (simp add: analyzeEmotions_def provider_says_def truthy_def)

text \<open>
  C8 (as stated: for every result produced from at least one classified sentence, the
  profile is the normalised count of label occurrences rounded to two decimals and its
  values sum to 1 up to rounding).  Three results for which this is not so.  With the
  API key set, \<open>analyzeEmotions\<close> returns the profile of the affect-analysis provider as it
  is: a provider that reports percentages gives a profile with the values 80 and 20.
  The chat model's labels are used as keys whatever they are: for 201 sentences with 201
  different labels every count is 1 of 201, which rounds to 0, so the profile has 201
  values that are all 0; and for one sentence with the label \<open>__proto__\<close> the profile
  is empty.
\<close>

theorem profile_not_normalised_counterexample:
  "length (emotions (analyzeEmotions provider_percent ''I am scared'')) = 1 \<and>
   map snd (profile (analyzeEmotions provider_percent ''I am scared'')) =
     [Number 80, Number 20] \<and>
   length (emotions (llmEmotionAnalysis (chat_labels (many_labels 201)) (many_sentences 201)))
     = 201 \<and>
   map snd (profile (llmEmotionAnalysis (chat_labels (many_labels 201)) (many_sentences 201)))
     = replicate 201 (Number 0) \<and>
   length (emotions (llmEmotionAnalysis (chat_labels [''__proto__'']) ''I am scared'')) = 1 \<and>
   profile (llmEmotionAnalysis (chat_labels [''__proto__'']) ''I am scared'') = []"
proof -
  have p: "length (emotions (analyzeEmotions provider_percent ''I am scared'')) = 1 \<and>
           map snd (profile (analyzeEmotions provider_percent ''I am scared'')) =
             [Number 80, Number 20]"
    by (simp add: analyzeEmotions_def provider_percent_def truthy_def)
  have m: "length (emotions (llmEmotionAnalysis (chat_labels (many_labels 201))
                               (many_sentences 201))) = 201 \<and>
           map snd (profile (llmEmotionAnalysis (chat_labels (many_labels 201))
                               (many_sentences 201))) = replicate 201 (Number 0)"
    using many_example [of 201] by (simp add: profile_value_small)
  show ?thesis
    using p m proto_example by simp
qed

lemma llm_profile:
  assumes "filter (\<lambda>s. js_trim s \<noteq> []) (js_split transcript) \<noteq> []"
    and "length (filter (\<lambda>s. js_trim s \<noteq> []) (js_split transcript)) < 2 ^ 32"
    and "reply = LlmFailed \<or>
         list_all (\<lambda>e. \<not> inherited (ea_emotion e))
           (emotions (llmEmotionAnalysis reply transcript))"
  shows "length (emotions (llmEmotionAnalysis reply transcript)) =
           length (filter (\<lambda>s. js_trim s \<noteq> []) (js_split transcript)) \<and>
         distinct (map fst (profile (llmEmotionAnalysis reply transcript))) \<and>
         fst ` set (profile (llmEmotionAnalysis reply transcript)) =
           ea_emotion ` set (emotions (llmEmotionAnalysis reply transcript)) \<and>
         (\<forall>p \<in> set (profile (llmEmotionAnalysis reply transcript)).
            snd p = Number (profile_value
                      (count_list (map ea_emotion (emotions (llmEmotionAnalysis reply transcript)))
                         (fst p))
                      (length (emotions (llmEmotionAnalysis reply transcript)))) \<and>
            (\<exists>r::nat. r \<le> 100 \<and> snd p = Number (fl (real r / 100)) \<and>
               \<bar>real r / 100 -
                 real (count_list (map ea_emotion (emotions (llmEmotionAnalysis reply transcript)))
                         (fst p)) /
                 real (length (emotions (llmEmotionAnalysis reply transcript)))\<bar> \<le> 1/200)) \<and>
         (\<exists>vs. map snd (profile (llmEmotionAnalysis reply transcript)) = map Number vs \<and>
               \<bar>sum_list vs - 1\<bar>
                 \<le> real (length (profile (llmEmotionAnalysis reply transcript))) *
                    (1/200 + 1 / 2 ^ 53) \<and>
               (list_all (\<lambda>e. ea_emotion e \<in> set emotion_labels)
                  (emotions (llmEmotionAnalysis reply transcript)) \<longrightarrow>
                length (profile (llmEmotionAnalysis reply transcript)) \<le> 7 \<and>
                \<bar>sum_list vs - 1\<bar> \<le> 7 * (1/200 + 1 / 2 ^ 53))) \<and>
         (reply = LlmFailed \<longrightarrow>
            list_all (\<lambda>e. ea_emotion e \<in> set emotion_labels)
              (emotions (llmEmotionAnalysis reply transcript)))"
proof -
  define res where "res = llmEmotionAnalysis reply transcript"
  define labels where "labels = map ea_emotion (emotions res)"
  note l = llmEmotionAnalysis_labels [OF assms(1), of reply, folded res_def]
  have len: "length labels = length (emotions res)" by (simp add: labels_def)
  have ne: "labels \<noteq> []" using assms(1) l(1) len by auto
  have bound: "length labels < 2 ^ 32" using assms(2) l(1) len by simp
  have prof: "profile res = normalise_profile (fold bump labels [])"
    using l(2) by (simp add: labels_def)
  have keyword: "list_all (\<lambda>e. ea_emotion e \<in> set emotion_labels) (emotions res)"
    if "reply = LlmFailed"
    using that assms(1) detect_known
    by (simp add: res_def llmEmotionAnalysis_def simpleKeywordFallback_def Let_def list_all_iff
          case_prod_unfold)
  have "list_all (\<lambda>e. \<not> inherited (ea_emotion e)) (emotions res)"
    using assms(3) keyword emotion_labels_safe by (auto simp: res_def list_all_iff)
  then have safe: "\<forall>l \<in> set labels. \<not> inherited l"
    by (auto simp: labels_def list_all_iff)
  note n = safe_profile [OF ne bound safe, folded prof]
  obtain vs where vs: "map snd (profile res) = map Number vs"
    and s: "\<bar>sum_list vs - 1\<bar> \<le> real (length (profile res)) * (1/200 + 1 / 2 ^ 53)"
    using n(4) by blast
  have seven: "length (profile res) \<le> 7 \<and> \<bar>sum_list vs - 1\<bar> \<le> 7 * (1/200 + 1 / 2 ^ 53)"
    if "list_all (\<lambda>e. ea_emotion e \<in> set emotion_labels) (emotions res)"
  proof -
    have "set labels \<subseteq> set emotion_labels"
      using that by (auto simp: labels_def list_all_iff)
    then have le: "length (profile res) \<le> 7" by (rule n(5))
    then have "real (length (profile res)) * (1/200 + 1 / 2 ^ 53) \<le> 7 * (1/200 + 1 / 2 ^ 53)"
      by (intro mult_right_mono) simp_all
    then show ?thesis using le s by linarith
  qed
  show ?thesis
    unfolding res_def [symmetric]
  proof (intro conjI)
    show "length (emotions res) = length (filter (\<lambda>s. js_trim s \<noteq> []) (js_split transcript))"
      by (rule l(1))
    show "distinct (map fst (profile res))" by (rule n(1))
    show "fst ` set (profile res) = ea_emotion ` set (emotions res)"
      using n(2) by (simp add: labels_def)
    show "\<forall>p \<in> set (profile res).
            snd p = Number (profile_value (count_list (map ea_emotion (emotions res)) (fst p))
                      (length (emotions res))) \<and>
            (\<exists>r::nat. r \<le> 100 \<and> snd p = Number (fl (real r / 100)) \<and>
               \<bar>real r / 100 -
                 real (count_list (map ea_emotion (emotions res)) (fst p)) /
                 real (length (emotions res))\<bar> \<le> 1/200)"
      using n(3) unfolding labels_def length_map by blast
    show "\<exists>vs. map snd (profile res) = map Number vs \<and>
               \<bar>sum_list vs - 1\<bar> \<le> real (length (profile res)) * (1/200 + 1 / 2 ^ 53) \<and>
               (list_all (\<lambda>e. ea_emotion e \<in> set emotion_labels) (emotions res) \<longrightarrow>
                length (profile res) \<le> 7 \<and>
                \<bar>sum_list vs - 1\<bar> \<le> 7 * (1/200 + 1 / 2 ^ 53))"
      using vs s seven by blast
    show "reply = LlmFailed \<longrightarrow>
            list_all (\<lambda>e. ea_emotion e \<in> set emotion_labels) (emotions res)"
      using keyword by blast
  qed
qed

text \<open>
  C8 (amended).  For a result of \<open>analyzeEmotions\<close> that does not come from the
  affect-analysis provider (no API key is set, or the request to the provider failed), so
  that the chat model or the keyword patterns classify, for a text with at least one
  sentence (and fewer than \<open>2 ^ 32\<close>, the bound of an array), and when no label of the result
  is the name of a member of \<open>Object.prototype\<close> (none is when the keyword patterns
  classify): the result has one emotion per sentence, and its profile has exactly one
  entry for each label that occurs.  The value of an entry is what the code computes from
  the number of sentences with that label and the number of all sentences, and it is the
  double nearest to a two-decimal number \<open>r / 100\<close> that differs from the fraction of
  sentences with the label by at most 0.005: the normalised count rounded to two
  decimals.  The values sum to 1 up to 0.005 (and the rounding of one double) for each
  entry.  The labels are kept as the chat model gives them, so the number of entries is
  not bounded; when every label is one of the seven emotion labels, as it always is when
  the keyword patterns classify, the profile has at most seven entries and the sum
  differs from 1 by at most seven times that bound.  Nothing is said of the profile that
  the affect-analysis provider returns, nor of labels that name a member of
  \<open>Object.prototype\<close>.
\<close>

theorem profile_is_normalised_count:
  assumes "\<not> truthy (modulateApiKey replies) \<or> modulateReply replies = ModulateFailed"
    and "filter (\<lambda>s. js_trim s \<noteq> []) (js_split transcript) \<noteq> []"
    and "length (filter (\<lambda>s. js_trim s \<noteq> []) (js_split transcript)) < 2 ^ 32"
    and "llmReply replies = LlmFailed \<or>
         list_all (\<lambda>e. \<not> inherited (ea_emotion e))
           (emotions (analyzeEmotions replies transcript))"
  shows "length (emotions (analyzeEmotions replies transcript)) =
           length (filter (\<lambda>s. js_trim s \<noteq> []) (js_split transcript)) \<and>
         distinct (map fst (profile (analyzeEmotions replies transcript))) \<and>
         fst ` set (profile (analyzeEmotions replies transcript)) =
           ea_emotion ` set (emotions (analyzeEmotions replies transcript)) \<and>
         (\<forall>p \<in> set (profile (analyzeEmotions replies transcript)).
            snd p = Number (profile_value
                      (count_list (map ea_emotion (emotions (analyzeEmotions replies transcript)))
                         (fst p))
                      (length (emotions (analyzeEmotions replies transcript)))) \<and>
            (\<exists>r::nat. r \<le> 100 \<and> snd p = Number (fl (real r / 100)) \<and>
               \<bar>real r / 100 -
                 real (count_list (map ea_emotion (emotions (analyzeEmotions replies transcript)))
                         (fst p)) /
                 real (length (emotions (analyzeEmotions replies transcript)))\<bar> \<le> 1/200)) \<and>
         (\<exists>vs. map snd (profile (analyzeEmotions replies transcript)) = map Number vs \<and>
               \<bar>sum_list vs - 1\<bar>
                 \<le> real (length (profile (analyzeEmotions replies transcript))) *
                    (1/200 + 1 / 2 ^ 53) \<and>
               (list_all (\<lambda>e. ea_emotion e \<in> set emotion_labels)
                  (emotions (analyzeEmotions replies transcript)) \<longrightarrow>
                length (profile (analyzeEmotions replies transcript)) \<le> 7 \<and>
                \<bar>sum_list vs - 1\<bar> \<le> 7 * (1/200 + 1 / 2 ^ 53))) \<and>
         (llmReply replies = LlmFailed \<longrightarrow>
            list_all (\<lambda>e. ea_emotion e \<in> set emotion_labels)
              (emotions (analyzeEmotions replies transcript)))"
proof -
  have res: "analyzeEmotions replies transcript = llmEmotionAnalysis (llmReply replies) transcript"
    using assms(1) by (auto simp: analyzeEmotions_def)
  show ?thesis
    using llm_profile [OF assms(2,3), of "llmReply replies"] assms(4)
    unfolding res by blast
qed

theorem profile_is_normalised_count_witness:
  "\<not> truthy (modulateApiKey no_services) \<and>
   llmReply no_services = LlmFailed \<and>
   filter (\<lambda>s. js_trim s \<noteq> []) (js_split ''I am scared. Thank you! ok'') =
     [''I am scared'', '' Thank you'', '' ok''] \<and>
   profile (analyzeEmotions no_services ''I am scared. Thank you! ok'') =
     [(''anxiety'', Number (fl (33/100))), (''gratitude'', Number (fl (33/100))),
      (''neutral'', Number (fl (33/100)))] \<and>
   length (emotions (analyzeEmotions no_services ''I am scared. Thank you! ok'')) = 3 \<and>
   \<bar>fl (33/100) + (fl (33/100) + fl (33/100)) - 1\<bar> \<le> 7 * (1/200 + 1 / 2 ^ 53) \<and>
   modulateReply (chat_only (chat_labels [''hope'', ''hope'', ''neutral''])) = ModulateFailed \<and>
   list_all (\<lambda>e. ea_emotion e \<in> set emotion_labels)
     (emotions (analyzeEmotions (chat_only (chat_labels [''hope'', ''hope'', ''neutral'']))
                  ''I am scared. Thank you! ok'')) \<and>
   distinct (map fst (profile (analyzeEmotions
                                 (chat_only (chat_labels [''hope'', ''hope'', ''neutral'']))
                                 ''I am scared. Thank you! ok'')))"
proof -
  let ?t = "''I am scared. Thank you! ok''"
  let ?C = "chat_only (chat_labels [''hope'', ''hope'', ''neutral''])"
  have k: "\<not> truthy (modulateApiKey no_services)" "llmReply no_services = LlmFailed"
    by (simp_all add: no_services_def truthy_def)
  have kc: "modulateReply ?C = ModulateFailed"
    "analyzeEmotions ?C ?t = llmEmotionAnalysis (chat_labels [''hope'', ''hope'', ''neutral'']) ?t"
    by (simp_all add: chat_only_def analyzeEmotions_def truthy_def)
  have kw: "analyzeEmotions no_services ?t = llmEmotionAnalysis LlmFailed ?t"
    by (simp add: no_services_def analyzeEmotions_def truthy_def)
  have ne: "filter (\<lambda>s. js_trim s \<noteq> []) (js_split ?t) \<noteq> []"
    by (simp add: split_example)
  have len: "length (filter (\<lambda>s. js_trim s \<noteq> []) (js_split ?t)) < 2 ^ 32"
    by (simp add: split_example)
  note th = profile_is_normalised_count [OF disjI1 [OF k(1)] ne len disjI1 [OF k(2)]]
  have a: "length (emotions (analyzeEmotions no_services ?t)) = 3"
    using th by (simp add: split_example)
  have pe: "profile (analyzeEmotions no_services ?t) =
     [(''anxiety'', Number (fl (33/100))), (''gratitude'', Number (fl (33/100))),
      (''neutral'', Number (fl (33/100)))]"
    by (simp add: kw profile_example)
  have known: "list_all (\<lambda>e. ea_emotion e \<in> set emotion_labels)
                 (emotions (analyzeEmotions no_services ?t))"
    using th k(2) by blast
  obtain vs where vs: "map snd (profile (analyzeEmotions no_services ?t)) = map Number vs"
    and s: "\<bar>sum_list vs - 1\<bar> \<le> 7 * (1/200 + 1 / 2 ^ 53)"
    using th known by blast
  have "map Number vs = map Number [fl (33/100), fl (33/100), fl (33/100)]"
    using vs by (simp add: pe)
  then have "vs = [fl (33/100), fl (33/100), fl (33/100)]"
    by (auto simp: map_eq_Cons_conv)
  then have b: "\<bar>fl (33/100) + (fl (33/100) + fl (33/100)) - 1\<bar> \<le> 7 * (1/200 + 1 / 2 ^ 53)"
    using s by simp
  have c: "list_all (\<lambda>e. ea_emotion e \<in> set emotion_labels) (emotions (analyzeEmotions ?C ?t))"
  proof -
    have "set (map ea_emotion (emotions (analyzeEmotions ?C ?t))) \<subseteq> set emotion_labels"
      unfolding kc(2) chat_profile_example by (simp add: emotion_labels_def emotionPatterns_def)
    then show ?thesis by (auto simp: list_all_iff)
  qed
  have safe: "list_all (\<lambda>e. \<not> inherited (ea_emotion e)) (emotions (analyzeEmotions ?C ?t))"
    using c emotion_labels_safe by (auto simp: list_all_iff)
  have d: "distinct (map fst (profile (analyzeEmotions ?C ?t)))"
    using profile_is_normalised_count [OF disjI2 [OF kc(1)] ne len disjI2 [OF safe]]
    by blast
  show ?thesis
    using k a b c d kc(1) split_example pe by blast
qed
end
